(* ===== verification/Prelude.thy ===== *)
theory Prelude
  imports Main
begin

text \<open>
  Shared vocabulary of the development: the collections of proof rules the component theories
  fill and use, and the generic facts on association lists (Python dictionaries, which keep their
  insertion order), de-duplicating appends and list searches that more than one component needs, and the methods of
  \<open>str\<close> the code calls.
\<close>

named_theorems keeps_intros \<open>rules showing that a computation leaves a projection of the state unchanged\<close>
named_theorems emits_intros \<open>rules bounding the events a computation performs\<close>
named_theorems total_intros \<open>rules showing that a computation does not raise\<close>
named_theorems mild_intros \<open>rules showing that a computation raises nothing that passes \<open>except Exception\<close>\<close>
named_theorems conf_defs \<open>the accessor definitions of the settings layer\<close>

section \<open>Python dictionaries as association lists\<close>

text \<open>
  A dictionary is the list of its items in insertion order. Assigning to a key that is present
  replaces the value in place; a new key goes last. \<open>del d[k]\<close> removes the item.
\<close>

type_synonym ('k, 'v) dict = "('k \<times> 'v) list"

definition dict_keys :: "('k, 'v) dict \<Rightarrow> 'k list" where
  "dict_keys d = map fst d"

fun dict_set :: "'k \<Rightarrow> 'v \<Rightarrow> ('k, 'v) dict \<Rightarrow> ('k, 'v) dict" where
  "dict_set k v [] = [(k, v)]"
| "dict_set k v ((k', v') # d) = (if k' = k then (k, v) # d else (k', v') # dict_set k v d)"

definition dict_del :: "'k \<Rightarrow> ('k, 'v) dict \<Rightarrow> ('k, 'v) dict" where
  "dict_del k d = filter (\<lambda>kv. fst kv \<noteq> k) d"

definition dict_has :: "'k \<Rightarrow> ('k, 'v) dict \<Rightarrow> bool" where
  "dict_has k d \<longleftrightarrow> k \<in> set (dict_keys d)"

definition dict_update :: "('k, 'v) dict \<Rightarrow> ('k, 'v) dict \<Rightarrow> ('k, 'v) dict" where
  "dict_update d new = foldl (\<lambda>acc kv. dict_set (fst kv) (snd kv) acc) d new"

definition dict_wf :: "('k, 'v) dict \<Rightarrow> bool" where
  "dict_wf d \<longleftrightarrow> distinct (dict_keys d)"

lemma dict_keys_simps [simp]:
  "dict_keys [] = []" "dict_keys ((k, v) # d) = k # dict_keys d"
  by (simp_all add: dict_keys_def)

lemma dict_has_simps [simp]:
  "\<not> dict_has k []" "dict_has k ((k', v) # d) \<longleftrightarrow> k = k' \<or> dict_has k d"
  by (simp_all add: dict_has_def)

lemma dict_has_map_of: "dict_has k d \<longleftrightarrow> map_of d k \<noteq> None"
  by (induction d) auto

lemma dict_set_map_of [simp]: "map_of (dict_set k v d) = (map_of d)(k \<mapsto> v)"
  by (induction k v d rule: dict_set.induct) auto

lemma dict_set_keys_present: "dict_has k d \<Longrightarrow> dict_keys (dict_set k v d) = dict_keys d"
  by (induction k v d rule: dict_set.induct) auto

lemma dict_set_keys_new: "\<not> dict_has k d \<Longrightarrow> dict_keys (dict_set k v d) = dict_keys d @ [k]"
  by (induction k v d rule: dict_set.induct) auto

lemma dict_set_keys_set [simp]: "set (dict_keys (dict_set k v d)) = insert k (set (dict_keys d))"
  by (cases "dict_has k d") (auto simp: dict_set_keys_present dict_set_keys_new dict_has_def)

lemma dict_set_new: "\<not> dict_has k d \<Longrightarrow> dict_set k v d = d @ [(k, v)]"
  by (induction k v d rule: dict_set.induct) auto

lemma dict_set_length_present: "dict_has k d \<Longrightarrow> length (dict_set k v d) = length d"
  by (induction k v d rule: dict_set.induct) auto

lemma dict_set_wf [simp]: "dict_wf d \<Longrightarrow> dict_wf (dict_set k v d)"
  by (cases "dict_has k d")
    (auto simp: dict_wf_def dict_set_keys_present dict_set_keys_new, simp add: dict_has_def)

lemma dict_set_elem: "kv \<in> set (dict_set k v d) \<Longrightarrow> kv = (k, v) \<or> kv \<in> set d"
  by (induction k v d rule: dict_set.induct) (auto split: if_splits)

lemma dict_del_map_of [simp]: "map_of (dict_del k d) = (map_of d)(k := None)"
  by (induction d) (auto simp: dict_del_def)

lemma dict_del_keys: "dict_keys (dict_del k d) = filter (\<lambda>k'. k' \<noteq> k) (dict_keys d)"
  by (induction d) (auto simp: dict_del_def)

lemma dict_del_wf [simp]: "dict_wf d \<Longrightarrow> dict_wf (dict_del k d)"
  by (simp add: dict_wf_def dict_del_keys)

lemma dict_del_absent: "\<not> dict_has k d \<Longrightarrow> dict_del k d = d"
  by (induction d) (auto simp: dict_del_def)

lemma dict_del_length: "dict_wf d \<Longrightarrow> dict_has k d \<Longrightarrow> Suc (length (dict_del k d)) = length d"
proof (induction d)
  case (Cons kv d)
  obtain k' v' where kv: "kv = (k', v')" by (cases kv)
  show ?case
  proof (cases "k' = k")
    case True
    with Cons.prems kv have "\<not> dict_has k d" by (auto simp: dict_wf_def dict_has_def)
    then have "dict_del k d = d" by (rule dict_del_absent)
    with True kv show ?thesis by (simp add: dict_del_def)
  next
    case False
    with Cons kv show ?thesis by (auto simp: dict_wf_def dict_del_def)
  qed
qed simp

lemma dict_wf_filter [simp]: "dict_wf d \<Longrightarrow> dict_wf (filter P d)"
  by (simp add: dict_wf_def dict_keys_def distinct_map_filter)

lemma dict_wf_Nil [simp]: "dict_wf []"
  by (simp add: dict_wf_def)

lemma map_of_dict_wf: "dict_wf d \<Longrightarrow> map_of d k = Some v \<longleftrightarrow> (k, v) \<in> set d"
  by (simp add: dict_wf_def dict_keys_def)

section \<open>Appending what is not yet there\<close>

text \<open>The loop \<open>for x in xs: if x not in acc: acc.append(x)\<close>.\<close>

definition append_new :: "'a list \<Rightarrow> 'a \<Rightarrow> 'a list" where
  "append_new acc x = (if x \<in> set acc then acc else acc @ [x])"

lemma append_new_set [simp]: "set (append_new acc x) = insert x (set acc)"
  by (auto simp: append_new_def)

lemma append_new_distinct [simp]: "distinct acc \<Longrightarrow> distinct (append_new acc x)"
  by (simp add: append_new_def)

section \<open>Searching a list\<close>

lemma filter_Nil_iff: "filter P xs = [] \<longleftrightarrow> (\<forall>x \<in> set xs. \<not> P x)"
  by (auto simp: filter_empty_conv)

lemma filter_weaken: "\<forall>x \<in> set (filter P xs). Q x \<Longrightarrow> filter P (filter Q xs) = filter P xs"
  by (induction xs) auto

lemma takeWhile_eq_self: "(\<And>x. x \<in> set xs \<Longrightarrow> P x) \<Longrightarrow> takeWhile P xs = xs"
  by (simp add: takeWhile_eq_all_conv)

section \<open>Methods of \<open>str\<close>\<close>

text \<open>Case is that of ASCII letters.\<close>

definition lower_char :: "char \<Rightarrow> char" where
  "lower_char c = (if 65 \<le> (of_char c :: nat) \<and> (of_char c :: nat) \<le> 90 then char_of ((of_char c :: nat) + 32) else c)"

definition upper_char :: "char \<Rightarrow> char" where
  "upper_char c = (if 97 \<le> (of_char c :: nat) \<and> (of_char c :: nat) \<le> 122 then char_of ((of_char c :: nat) - 32) else c)"

definition lower :: "string \<Rightarrow> string" where
  "lower s = map lower_char s"

definition upper :: "string \<Rightarrow> string" where
  "upper s = map upper_char s"

fun split_on :: "char \<Rightarrow> string \<Rightarrow> string list" where
  "split_on c [] = [[]]"
| "split_on c (x # xs) =
     (if x = c then [] # split_on c xs
      else case split_on c xs of [] \<Rightarrow> [[x]] | y # ys \<Rightarrow> (x # y) # ys)"

definition rstrip_char :: "char \<Rightarrow> string \<Rightarrow> string" where
  "rstrip_char c s = rev (dropWhile (\<lambda>x. x = c) (rev s))"

definition starts_with :: "string \<Rightarrow> string \<Rightarrow> bool" where
  "starts_with s prefix \<longleftrightarrow> take (length prefix) s = prefix"

text \<open>\<open>s.replace(old, new)\<close> for a non-empty \<open>old\<close>, and \<open>s.strip(chars)\<close>\<close>

function replace_all :: "string \<Rightarrow> string \<Rightarrow> string \<Rightarrow> string" where
  "replace_all old new s =
     (if old = [] \<or> s = [] then s
      else if starts_with s old then new @ replace_all old new (drop (length old) s)
      else hd s # replace_all old new (tl s))"
  by pat_completeness auto
termination by (relation "measure (\<lambda>(old, new, s). length s)") auto

definition strip_chars :: "char list \<Rightarrow> string \<Rightarrow> string" where
  "strip_chars cs s = rev (dropWhile (\<lambda>c. c \<in> set cs) (rev (dropWhile (\<lambda>c. c \<in> set cs) s)))"

end
