(* ===== verification/Exceptions.thy ===== *)
theory Exceptions
  imports Prelude
begin

text \<open>
  Python values as far as the code looks into them, and the exceptions of the program: boundary's
  own hierarchy (\<open>src/boundary/exceptions.py\<close>), the data each message names as constructor
  arguments, and the Python and Django exceptions the code raises or catches.
\<close>

section \<open>Values\<close>

text \<open>
  A UUID object is held as its canonical text, which is what \<open>str\<close> returns and what its
  equality is decided by.
\<close>

datatype pyval = PNone | PBool bool | PInt int | PStr string | PUuid string

fun truthy :: "pyval \<Rightarrow> bool" where
  "truthy PNone = False"
| "truthy (PBool b) = b"
| "truthy (PInt i) = (i \<noteq> 0)"
| "truthy (PStr s) = (s \<noteq> [])"
| "truthy (PUuid _) = True"

definition digit_char :: "nat \<Rightarrow> char" where
  "digit_char n = char_of (48 + n)"

fun nat_str :: "nat \<Rightarrow> string" where
  "nat_str n = (if n < 10 then [digit_char n] else nat_str (n div 10) @ [digit_char (n mod 10)])"

declare nat_str.simps [simp del]

definition int_str :: "int \<Rightarrow> string" where
  "int_str i = (if i < 0 then CHR ''-'' # nat_str (nat (- i)) else nat_str (nat i))"

text \<open>\<open>str(value)\<close>\<close>

fun py_str :: "pyval \<Rightarrow> string" where
  "py_str PNone = ''None''"
| "py_str (PBool b) = (if b then ''True'' else ''False'')"
| "py_str (PInt i) = int_str i"
| "py_str (PStr s) = s"
| "py_str (PUuid u) = u"

section \<open>Exceptions\<close>

text \<open>Why \<open>require_region\<close> refuses.\<close>

datatype region_refusal =
    RegionsUnconfigured
  | NoActiveTenant
  | RegionUnknown pyval pyval "string list"

text \<open>Why \<open>AdoptTenantApp\<close> refuses; each constructor carries what the message names.\<close>

datatype refusal =
    RefusedApp string
  | AppNotInstalled string
  | RefusedModel string
  | RefusedTable string string
  | RefusedTenantModel string
  | NoAdoptableModel string "refusal list"
  | WrongVendor string string string
  | UnmappableTenantKey string string
  | WrongColumnType string string string string
  | PopulatedWithoutBackfill string string nat
  | BackfillMismatch string string nat nat
  | PartialIndex string string string
  | ExpressionIndex string string string
  | BareUniqueIndex string string string
  | DeferrableConstraint string string string
  | FkTargetedConstraint string string string

datatype exn =
    TenantNotSetError string string
  | TenantResolutionError string exn
  | TenantInactiveError string
  | TenantNotFoundError pyval
  | RegionNotConfiguredError region_refusal
  | AdminBypassNotActiveError string string
  | RLSNotEnforcedError string
  | AdoptionRefusedError refusal
  | ValidationError "(string \<times> string) list"
  | ImproperlyConfigured
  | LookupError string
  | ObjectDoesNotExist
  | MultipleObjectsReturned
  | CommandError string
  | PyValueError string
  | PyTypeError string
  | PyAttributeError string
  | PyImportError string
  | OperationalError string
  | InterfaceError string
  | DatabaseError string
  | OtherException string
  | SystemExit int
  | KeyboardInterrupt

text \<open>
  \<open>isinstance(e, Exception)\<close>: what \<open>except Exception\<close> catches. A command that calls \<open>sys.exit\<close> and an
  operator's interrupt pass it.
\<close>

fun is_exception :: "exn \<Rightarrow> bool" where
  "is_exception (SystemExit _) = False"
| "is_exception KeyboardInterrupt = False"
| "is_exception _ = True"

text \<open>\<open>isinstance(e, BoundaryError)\<close>: the family one \<open>except\<close> clause catches.\<close>

fun is_boundary_error :: "exn \<Rightarrow> bool" where
  "is_boundary_error (TenantNotSetError _ _) = True"
| "is_boundary_error (TenantResolutionError _ _) = True"
| "is_boundary_error (TenantInactiveError _) = True"
| "is_boundary_error (TenantNotFoundError _) = True"
| "is_boundary_error (RegionNotConfiguredError _) = True"
| "is_boundary_error (AdminBypassNotActiveError _ _) = True"
| "is_boundary_error (RLSNotEnforcedError _) = True"
| "is_boundary_error (AdoptionRefusedError _) = True"
| "is_boundary_error _ = False"

section \<open>\<open>str\<close> separates primary keys of one type\<close>

lemma digit_char_inj: "m < 10 \<Longrightarrow> n < 10 \<Longrightarrow> digit_char m = digit_char n \<Longrightarrow> m = n"
proof -
  assume m: "m < 10" and n: "n < 10" and eq: "digit_char m = digit_char n"
  from eq have "of_char (char_of (48 + m) :: char) = (of_char (char_of (48 + n) :: char) :: nat)"
    by (simp add: digit_char_def)
  with m n show "m = n" by (simp del: of_char_of add: of_char_of)
qed

lemma nat_str_nonempty [simp]: "nat_str n \<noteq> []"
  by (subst nat_str.simps) simp

lemma nat_str_nonempty2 [simp]: "[] \<noteq> nat_str n"
  by (metis nat_str_nonempty)

lemma nat_str_inj: "nat_str m = nat_str n \<Longrightarrow> m = n"
proof (induction m arbitrary: n rule: nat_str.induct)
  case (1 m)
  show ?case
  proof (cases "m < 10")
    case True
    then have m: "nat_str m = [digit_char m]" by (subst nat_str.simps) simp
    show ?thesis
    proof (cases "n < 10")
      case True
      with \<open>m < 10\<close> m "1.prems" show ?thesis
        by (auto simp: nat_str.simps [of n] intro: digit_char_inj)
    next
      case False
      with m "1.prems" show ?thesis by (simp add: nat_str.simps [of n])
    qed
  next
    case False
    then have m: "nat_str m = nat_str (m div 10) @ [digit_char (m mod 10)]"
      by (subst nat_str.simps) simp
    show ?thesis
    proof (cases "n < 10")
      case True
      with m "1.prems" show ?thesis by (simp add: nat_str.simps [of n])
    next
      case False
      then have "nat_str n = nat_str (n div 10) @ [digit_char (n mod 10)]"
        by (subst nat_str.simps) simp
      with m "1.prems" have q: "nat_str (m div 10) = nat_str (n div 10)"
        and r: "digit_char (m mod 10) = digit_char (n mod 10)" by simp_all
      from \<open>\<not> m < 10\<close> q "1.IH" have "m div 10 = n div 10" by blast
      moreover from r have "m mod 10 = n mod 10" by (auto intro: digit_char_inj)
      ultimately show ?thesis by (metis mult_div_mod_eq)
    qed
  qed
qed

lemma digit_char_not_minus: "n < 10 \<Longrightarrow> digit_char n \<noteq> CHR ''-''"
proof
  assume n: "n < 10" and eq: "digit_char n = CHR ''-''"
  from eq have "of_char (digit_char n) = (of_char CHR ''-'' :: nat)" by simp
  with n show False by (simp add: digit_char_def)
qed

lemma nat_str_hd: "hd (nat_str n) \<noteq> CHR ''-''"
proof (induction n rule: nat_str.induct)
  case (1 n)
  then show ?case by (cases "n < 10") (subst nat_str.simps, simp add: digit_char_not_minus hd_append)+
qed

lemma int_str_inj: "int_str i = int_str j \<Longrightarrow> i = j"
proof -
  assume eq: "int_str i = int_str j"
  have neg: "CHR ''-'' # s \<noteq> nat_str n" for s n using nat_str_hd [of n] by (metis list.sel(1))
  show "i = j"
  proof (cases "i < 0"; cases "j < 0")
    assume "i < 0" "j < 0"
    with eq have "nat (- i) = nat (- j)" by (auto simp: int_str_def intro: nat_str_inj)
    with \<open>i < 0\<close> \<open>j < 0\<close> show ?thesis by simp
  next
    assume "\<not> i < 0" "\<not> j < 0"
    with eq have "nat i = nat j" by (auto simp: int_str_def intro: nat_str_inj)
    with \<open>\<not> i < 0\<close> \<open>\<not> j < 0\<close> show ?thesis by simp
  qed (use eq neg in \<open>auto simp: int_str_def dest: sym\<close>)
qed

text \<open>Two primary keys of one Django field type: both integers, both UUIDs or both strings.\<close>

fun same_pk_type :: "pyval \<Rightarrow> pyval \<Rightarrow> bool" where
  "same_pk_type (PInt _) (PInt _) = True"
| "same_pk_type (PUuid _) (PUuid _) = True"
| "same_pk_type (PStr _) (PStr _) = True"
| "same_pk_type _ _ = False"

lemma py_str_inj: "same_pk_type p q \<Longrightarrow> py_str p = py_str q \<Longrightarrow> p = q"
  by (cases p; cases q) (auto intro: int_str_inj)

end
