(* ===== verification/Py_Runtime.thy ===== *)
theory Py_Runtime
  imports Exceptions
begin

text \<open>
  The control structure of the modelled Python: a statement maps a state to a result, an exception
  or a value, and the state it leaves, so effects made before an exception stay made. The
  constructs the code uses (sequencing, \<open>try/finally\<close>, \<open>try/except Exception\<close>, \<open>for\<close>) are
  combinators, and three kinds of facts about computations compose through them: what a
  computation leaves unchanged (\<open>keeps\<close>), that it does not raise (\<open>total\<close>), and, in the state
  theory, which events it performs.
\<close>

type_synonym ('w, 'a) pyc = "'w \<Rightarrow> (exn + 'a) \<times> 'w"

definition ret :: "'a \<Rightarrow> ('w, 'a) pyc" where
  "ret x w = (Inr x, w)"

definition raise :: "exn \<Rightarrow> ('w, 'a) pyc" where
  "raise e w = (Inl e, w)"

definition bindc :: "('w, 'a) pyc \<Rightarrow> ('a \<Rightarrow> ('w, 'b) pyc) \<Rightarrow> ('w, 'b) pyc" where
  "bindc m k w = (case m w of (Inl e, w') \<Rightarrow> (Inl e, w') | (Inr x, w') \<Rightarrow> k x w')"

definition seqc :: "('w, 'a) pyc \<Rightarrow> ('w, 'b) pyc \<Rightarrow> ('w, 'b) pyc" where
  "seqc m k = bindc m (\<lambda>_. k)"

text \<open>An exception of the \<open>finally\<close> part replaces whatever the body produced.\<close>

definition try_finally :: "('w, 'a) pyc \<Rightarrow> ('w, 'b) pyc \<Rightarrow> ('w, 'a) pyc" where
  "try_finally m fin w =
     (case m w of (r, w') \<Rightarrow> (case fin w' of (Inl e, w'') \<Rightarrow> (Inl e, w'') | (Inr _, w'') \<Rightarrow> (r, w'')))"

text \<open>\<open>except Exception as e\<close>: a \<open>SystemExit\<close> or \<open>KeyboardInterrupt\<close> goes on.\<close>

definition try_except :: "('w, 'a) pyc \<Rightarrow> (exn \<Rightarrow> ('w, 'a) pyc) \<Rightarrow> ('w, 'a) pyc" where
  "try_except m h w =
     (case m w of
        (Inl e, w') \<Rightarrow> if is_exception e then h e w' else (Inl e, w')
      | (Inr x, w') \<Rightarrow> (Inr x, w'))"

definition readc :: "('w \<Rightarrow> 'a) \<Rightarrow> ('w, 'a) pyc" where
  "readc f w = (Inr (f w), w)"

definition writec :: "('w \<Rightarrow> 'w) \<Rightarrow> ('w, unit) pyc" where
  "writec f w = (Inr (), f w)"

primrec for_each :: "'b list \<Rightarrow> ('b \<Rightarrow> ('w, unit) pyc) \<Rightarrow> ('w, unit) pyc" where
  "for_each [] f = ret ()"
| "for_each (x # xs) f = seqc (f x) (for_each xs f)"

text \<open>A value or an exception already computed.\<close>

definition liftc :: "exn + 'a \<Rightarrow> ('w, 'a) pyc" where
  "liftc r w = (r, w)"

lemmas pyc_defs = ret_def raise_def bindc_def seqc_def try_finally_def try_except_def
  readc_def writec_def liftc_def

section \<open>Monad laws\<close>

lemma bindc_ret [simp]: "bindc (ret x) k = k x"
  by (rule ext) (simp add: pyc_defs)

lemma bindc_raise [simp]: "bindc (raise e) k = raise e"
  by (rule ext) (simp add: pyc_defs)

lemma seqc_ret [simp]: "seqc (ret x) k = k"
  by (simp add: seqc_def)

lemma bindc_Inr: "m w = (Inr x, w') \<Longrightarrow> bindc m k w = k x w'"
  by (simp add: bindc_def)

lemma bindc_Inl: "m w = (Inl e, w') \<Longrightarrow> bindc m k w = (Inl e, w')"
  by (simp add: bindc_def)

lemma seqc_Inr: "m w = (Inr x, w') \<Longrightarrow> seqc m k w = k w'"
  by (simp add: seqc_def bindc_def)

lemma try_except_Inr: "m w = (Inr x, w') \<Longrightarrow> try_except m h w = (Inr x, w')"
  by (simp add: try_except_def)

lemma try_except_Inl: "m w = (Inl e, w') \<Longrightarrow> is_exception e \<Longrightarrow> try_except m h w = h e w'"
  by (simp add: try_except_def)

lemma readc_apply [simp]: "readc f w = (Inr (f w), w)"
  by (simp add: readc_def)

lemma writec_apply [simp]: "writec f w = (Inr (), f w)"
  by (simp add: writec_def)

lemma ret_apply [simp]: "ret x w = (Inr x, w)"
  by (simp add: ret_def)

lemma raise_apply [simp]: "raise e w = (Inl e, w)"
  by (simp add: raise_def)

lemma liftc_apply [simp]: "liftc r w = (r, w)"
  by (simp add: liftc_def)

lemma bindc_liftc: "bindc (liftc r) k = (case r of Inl e \<Rightarrow> raise e | Inr x \<Rightarrow> k x)"
  by (rule ext) (simp add: bindc_def raise_def split: sum.splits)

section \<open>What a computation leaves unchanged\<close>

definition keeps :: "('w \<Rightarrow> 'v) \<Rightarrow> ('w, 'a) pyc \<Rightarrow> bool" where
  "keeps f m \<longleftrightarrow> (\<forall>w. f (snd (m w)) = f w)"

lemma keepsD: "keeps f m \<Longrightarrow> f (snd (m w)) = f w"
  by (simp add: keeps_def)

lemma keeps_ret [keeps_intros]: "keeps f (ret x)"
  by (simp add: keeps_def)

lemma keeps_raise [keeps_intros]: "keeps f (raise e)"
  by (simp add: keeps_def)

lemma keeps_liftc [keeps_intros]: "keeps f (liftc r)"
  by (simp add: keeps_def)

lemma keeps_readc [keeps_intros]: "keeps f (readc g)"
  by (simp add: keeps_def)

lemma keeps_Pair [simp, keeps_intros]: "keeps f (Pair r)"
  by (simp add: keeps_def)

lemma keeps_writec: "(\<And>w. f (g w) = f w) \<Longrightarrow> keeps f (writec g)"
  by (simp add: keeps_def)

lemma keeps_bindc [keeps_intros]: "keeps f m \<Longrightarrow> (\<And>x. keeps f (k x)) \<Longrightarrow> keeps f (bindc m k)"
  unfolding keeps_def bindc_def by (auto split: prod.splits sum.splits) (metis snd_conv)+

lemma keeps_seqc [keeps_intros]: "keeps f m \<Longrightarrow> keeps f k \<Longrightarrow> keeps f (seqc m k)"
  unfolding seqc_def by (rule keeps_bindc)

lemma keeps_try_finally [keeps_intros]:
  "keeps f m \<Longrightarrow> keeps f fin \<Longrightarrow> keeps f (try_finally m fin)"
  unfolding keeps_def try_finally_def by (auto split: prod.splits sum.splits) (metis snd_conv)+

lemma keeps_try_except [keeps_intros]:
  "keeps f m \<Longrightarrow> (\<And>e. keeps f (h e)) \<Longrightarrow> keeps f (try_except m h)"
  unfolding keeps_def try_except_def by (auto split: prod.splits sum.splits) (metis snd_conv)+

lemma keeps_for_each [keeps_intros]:
  "(\<And>x. x \<in> set xs \<Longrightarrow> keeps f (g x)) \<Longrightarrow> keeps f (for_each xs g)"
  by (induction xs) (auto intro: keeps_intros)

lemma keeps_if [keeps_intros]: "(b \<Longrightarrow> keeps f m) \<Longrightarrow> (\<not> b \<Longrightarrow> keeps f n) \<Longrightarrow> keeps f (if b then m else n)"
  by simp

lemma keeps_option [keeps_intros]:
  "(x = None \<Longrightarrow> keeps f m) \<Longrightarrow> (\<And>y. x = Some y \<Longrightarrow> keeps f (n y))
    \<Longrightarrow> keeps f (case x of None \<Rightarrow> m | Some y \<Rightarrow> n y)"
  by (cases x) auto

section \<open>Computations that do not raise\<close>

definition total :: "('w, 'a) pyc \<Rightarrow> bool" where
  "total m \<longleftrightarrow> (\<forall>w. \<exists>x. fst (m w) = Inr x)"

lemma totalE: "total m \<Longrightarrow> (\<And>x w'. m w = (Inr x, w') \<Longrightarrow> P) \<Longrightarrow> P"
  unfolding total_def by (metis prod.collapse)

lemma total_ret [total_intros]: "total (ret x)"
  by (simp add: total_def)

lemma total_Pair [simp, total_intros]: "total (Pair (Inr x))"
  by (simp add: total_def)

lemma total_readc [total_intros]: "total (readc f)"
  by (simp add: total_def)

lemma total_writec [total_intros]: "total (writec f)"
  by (simp add: total_def)

lemma total_bindc [total_intros]: "total m \<Longrightarrow> (\<And>x. total (k x)) \<Longrightarrow> total (bindc m k)"
  unfolding total_def bindc_def by (auto split: prod.splits sum.splits) (metis fst_conv Inl_Inr_False)+

lemma total_seqc [total_intros]: "total m \<Longrightarrow> total k \<Longrightarrow> total (seqc m k)"
  unfolding seqc_def by (rule total_bindc)

text \<open>Raises \<open>Exception\<close>s at most, so that \<open>except Exception\<close> stops whatever goes wrong.\<close>

definition mild :: "('w, 'a) pyc \<Rightarrow> bool" where
  "mild m \<longleftrightarrow> (\<forall>w e w'. m w = (Inl e, w') \<longrightarrow> is_exception e)"

lemma try_except_mild:
  "mild m \<Longrightarrow> try_except m h w = (case m w of (Inl e, w') \<Rightarrow> h e w' | (Inr x, w') \<Rightarrow> (Inr x, w'))"
  by (auto simp: mild_def try_except_def split: prod.splits sum.splits)

lemma mild_total: "total m \<Longrightarrow> mild m"
  by (auto simp: total_def mild_def) (metis fst_conv Inl_Inr_False)

lemma mild_raise [mild_intros]: "is_exception e \<Longrightarrow> mild (raise e)"
  by (simp add: mild_def)

lemma mild_bindc [mild_intros]: "mild m \<Longrightarrow> (\<And>x. mild (k x)) \<Longrightarrow> mild (bindc m k)"
  by (fastforce simp: mild_def bindc_def split: prod.splits sum.splits)

lemma mild_seqc [mild_intros]: "mild m \<Longrightarrow> mild k \<Longrightarrow> mild (seqc m k)"
  unfolding seqc_def by (rule mild_bindc)

lemma mild_if [mild_intros]: "(b \<Longrightarrow> mild m) \<Longrightarrow> (\<not> b \<Longrightarrow> mild n) \<Longrightarrow> mild (if b then m else n)"
  by simp

lemma mild_ret [mild_intros]: "mild (ret x)"
  by (simp add: mild_def)

lemma mild_readc [mild_intros]: "mild (readc f)"
  by (simp add: mild_def)

lemma mild_for_each [mild_intros]: "(\<And>x. mild (g x)) \<Longrightarrow> mild (for_each xs g)"
  by (induction xs) (auto intro: mild_intros)

lemma total_try_except [total_intros]: "mild m \<Longrightarrow> (\<And>e. total (h e)) \<Longrightarrow> total (try_except m h)"
  unfolding total_def mild_def try_except_def by (auto split: prod.splits sum.splits)

lemma total_for_each [total_intros]: "(\<And>x. total (g x)) \<Longrightarrow> total (for_each xs g)"
  by (induction xs) (auto intro: total_intros)

lemma total_if [total_intros]: "(b \<Longrightarrow> total m) \<Longrightarrow> (\<not> b \<Longrightarrow> total n) \<Longrightarrow> total (if b then m else n)"
  by simp

text \<open>A clean-up that cannot raise hands the body's outcome through, exception or value.\<close>

lemma try_finally_total:
  "total fin \<Longrightarrow> try_finally m fin w = (fst (m w), snd (fin (snd (m w))))"
  unfolding total_def try_finally_def
  by (auto split: prod.splits sum.splits) (metis fst_conv Inl_Inr_False)

lemma try_finally_Inr: "fin (snd (m w)) = (Inr u, w') \<Longrightarrow> try_finally m fin w = (fst (m w), w')"
  by (cases "m w") (simp add: try_finally_def)

lemma try_finally_keeps_only_fin:
  "(\<And>w'. f (snd (fin w')) = v) \<Longrightarrow> f (snd (try_finally m fin w)) = v"
  unfolding try_finally_def by (auto split: prod.splits sum.splits) (metis snd_conv)+

section \<open>Computations that always raise\<close>

definition fails :: "('w, 'a) pyc \<Rightarrow> bool" where
  "fails m \<longleftrightarrow> (\<forall>w. isl (fst (m w)))"

lemma fails_raise: "fails (raise e)"
  by (simp add: fails_def)

lemma fails_bindc: "(\<And>x. fails (k x)) \<Longrightarrow> fails (bindc m k)"
  by (auto simp: fails_def bindc_def split: prod.splits sum.splits)

lemma fails_seqc: "fails k \<Longrightarrow> fails (seqc m k)"
  unfolding seqc_def by (rule fails_bindc)

lemma fails_try_finally: "fails m \<Longrightarrow> fails (try_finally m fin)"
  by (auto simp: fails_def try_finally_def split: prod.splits sum.splits) (metis fst_conv)

text \<open>A continuation only matters on the values its computation can return.\<close>

lemma bindc_cong_values:
  "(\<And>w x w'. m w = (Inr x, w') \<Longrightarrow> k x = k' x) \<Longrightarrow> bindc m k = bindc m k'"
  by (rule ext) (auto simp: bindc_def split: prod.splits sum.splits)

end
