(* ===== verification/Conf.thy ===== *)
theory Conf
  imports Exceptions
begin

text \<open>
  The settings layer (\<open>src/boundary/conf.py\<close>). A record holds the Django settings module as the
  code reads it: a field of type \<open>'a option\<close> is \<open>None\<close> when the attribute is absent, and a setting
  that may be set to Python's \<open>None\<close> has a second \<open>option\<close> inside. The accessors of \<open>_Settings\<close>
  apply the defaults, including the two that default to another setting. Values are typed as the
  documentation types them; a region's database configuration is not looked into, so
  \<open>BOUNDARY_REGIONS\<close> keeps the dictionary's keys only.
\<close>

datatype domain_setting = OneDomain string | DomainList "string list"

record django_settings =
  BOUNDARY_TENANT_MODEL :: "string option option"
  ICV_TENANT_MODEL :: "string option option"
  BOUNDARY_STRICT_MODE :: "bool option"
  BOUNDARY_REQUIRED :: "bool option"
  BOUNDARY_WRAP_ATOMIC :: "bool option"
  BOUNDARY_SET_DB_SESSION_VAR :: "bool option"
  BOUNDARY_RESOLVERS :: "string list option"
  BOUNDARY_SUBDOMAIN_FIELD :: "string option"
  BOUNDARY_SUBDOMAIN_PARENT_DOMAIN :: "domain_setting option option"
  BOUNDARY_HEADER_NAME :: "string option"
  BOUNDARY_JWT_CLAIM :: "string option"
  BOUNDARY_SESSION_KEY :: "string option"
  BOUNDARY_RESOLVER_CACHE_SIZE :: "int option"
  BOUNDARY_RESOLVER_CACHE_TTL :: "int option"
  BOUNDARY_DB_SESSION_VAR :: "string option"
  BOUNDARY_ADMIN_FLAG_VAR :: "string option"
  BOUNDARY_FUNCTION_LEAKPROOF :: "bool option"
  BOUNDARY_REGIONS :: "string list option option"
  BOUNDARY_REGION_FIELD :: "string option"
  BOUNDARY_TENANT_FK_FIELD :: "string option"
  BOUNDARY_TENANT_LABEL :: "string option"
  BOUNDARY_REQUEST_ATTR :: "string option"
  BOUNDARY_TENANT_APPS :: "string list option"
  BOUNDARY_ADOPT_EXCLUDE :: "string list option"
  BOUNDARY_POST_PROVISION_HOOK :: "string option option"
  BOUNDARY_PRE_DEPROVISION_HOOK :: "string option option"
  DEBUG :: "bool option"
  MIDDLEWARE :: "string list option"
  INSTALLED_APPS :: "string list"

text \<open>\<open>getattr(settings, name, default)\<close>\<close>

definition setting :: "'a option \<Rightarrow> 'a \<Rightarrow> 'a" where
  "setting raw dflt = (case raw of None \<Rightarrow> dflt | Some v \<Rightarrow> v)"

lemma setting_simps [simp]: "setting None d = d" "setting (Some v) d = v"
  by (simp_all add: setting_def)

text \<open>\<open>a or b\<close> on settings holding a dotted path or \<open>None\<close>: an empty path is falsy too.\<close>

definition str_or :: "string option \<Rightarrow> string option \<Rightarrow> string option" where
  "str_or a b = (case a of Some s \<Rightarrow> if s = [] then b else a | None \<Rightarrow> b)"

definition TENANT_MODEL :: "django_settings \<Rightarrow> string option" where
  "TENANT_MODEL s =
     str_or (setting (BOUNDARY_TENANT_MODEL s) None) (setting (ICV_TENANT_MODEL s) None)"

definition resolve_tenant_model_setting :: "django_settings \<Rightarrow> exn + string" where
  "resolve_tenant_model_setting s =
     (case str_or (setting (BOUNDARY_TENANT_MODEL s) None) (setting (ICV_TENANT_MODEL s) None) of
        None \<Rightarrow> Inl ImproperlyConfigured
      | Some p \<Rightarrow> if p = [] then Inl ImproperlyConfigured else Inr p)"

text \<open>\<open>apps.get_model\<close> is Django's: the registry lookup is the argument.\<close>

definition get_tenant_model :: "(string \<Rightarrow> exn + 'm) \<Rightarrow> django_settings \<Rightarrow> exn + 'm" where
  "get_tenant_model apps_get_model s =
     (case resolve_tenant_model_setting s of Inl e \<Rightarrow> Inl e | Inr p \<Rightarrow> apps_get_model p)"

definition STRICT_MODE :: "django_settings \<Rightarrow> bool" where [conf_defs]:
  "STRICT_MODE s = setting (BOUNDARY_STRICT_MODE s) True"

definition REQUIRED :: "django_settings \<Rightarrow> bool" where [conf_defs]:
  "REQUIRED s = setting (BOUNDARY_REQUIRED s) True"

definition WRAP_ATOMIC :: "django_settings \<Rightarrow> bool" where [conf_defs]:
  "WRAP_ATOMIC s = setting (BOUNDARY_WRAP_ATOMIC s) True"

definition SET_DB_SESSION_VAR :: "django_settings \<Rightarrow> bool" where [conf_defs]:
  "SET_DB_SESSION_VAR s = setting (BOUNDARY_SET_DB_SESSION_VAR s) True"

definition RESOLVERS :: "django_settings \<Rightarrow> string list" where [conf_defs]:
  "RESOLVERS s = setting (BOUNDARY_RESOLVERS s) [''boundary.resolvers.SubdomainResolver'']"

definition SUBDOMAIN_FIELD :: "django_settings \<Rightarrow> string" where [conf_defs]:
  "SUBDOMAIN_FIELD s = setting (BOUNDARY_SUBDOMAIN_FIELD s) ''slug''"

definition SUBDOMAIN_PARENT_DOMAIN :: "django_settings \<Rightarrow> string list option" where [conf_defs]:
  "SUBDOMAIN_PARENT_DOMAIN s =
     (case setting (BOUNDARY_SUBDOMAIN_PARENT_DOMAIN s) None of
        None \<Rightarrow> None
      | Some (OneDomain d) \<Rightarrow> Some [d]
      | Some (DomainList ds) \<Rightarrow> Some ds)"

definition HEADER_NAME :: "django_settings \<Rightarrow> string" where [conf_defs]:
  "HEADER_NAME s = setting (BOUNDARY_HEADER_NAME s) ''X-Tenant-ID''"

definition JWT_CLAIM :: "django_settings \<Rightarrow> string" where [conf_defs]:
  "JWT_CLAIM s = setting (BOUNDARY_JWT_CLAIM s) ''tenant_id''"

definition SESSION_KEY :: "django_settings \<Rightarrow> string" where [conf_defs]:
  "SESSION_KEY s = setting (BOUNDARY_SESSION_KEY s) ''boundary_tenant_id''"

definition RESOLVER_CACHE_SIZE :: "django_settings \<Rightarrow> int" where [conf_defs]:
  "RESOLVER_CACHE_SIZE s = setting (BOUNDARY_RESOLVER_CACHE_SIZE s) 1000"

definition RESOLVER_CACHE_TTL :: "django_settings \<Rightarrow> int" where [conf_defs]:
  "RESOLVER_CACHE_TTL s = setting (BOUNDARY_RESOLVER_CACHE_TTL s) 60"

definition DB_SESSION_VAR :: "django_settings \<Rightarrow> string" where [conf_defs]:
  "DB_SESSION_VAR s = setting (BOUNDARY_DB_SESSION_VAR s) ''app.current_tenant_id''"

definition ADMIN_FLAG_VAR :: "django_settings \<Rightarrow> string" where [conf_defs]:
  "ADMIN_FLAG_VAR s = setting (BOUNDARY_ADMIN_FLAG_VAR s) ''app.boundary_admin''"

definition FUNCTION_LEAKPROOF :: "django_settings \<Rightarrow> bool" where [conf_defs]:
  "FUNCTION_LEAKPROOF s = setting (BOUNDARY_FUNCTION_LEAKPROOF s) False"

definition REGIONS :: "django_settings \<Rightarrow> string list option" where [conf_defs]:
  "REGIONS s = setting (BOUNDARY_REGIONS s) None"

definition REGION_FIELD :: "django_settings \<Rightarrow> string" where [conf_defs]:
  "REGION_FIELD s = setting (BOUNDARY_REGION_FIELD s) ''region''"

definition TENANT_FK_FIELD :: "django_settings \<Rightarrow> string" where [conf_defs]:
  "TENANT_FK_FIELD s = setting (BOUNDARY_TENANT_FK_FIELD s) ''tenant''"

definition TENANT_LABEL :: "django_settings \<Rightarrow> string" where [conf_defs]:
  "TENANT_LABEL s = setting (BOUNDARY_TENANT_LABEL s) (TENANT_FK_FIELD s)"

definition REQUEST_ATTR :: "django_settings \<Rightarrow> string" where [conf_defs]:
  "REQUEST_ATTR s = setting (BOUNDARY_REQUEST_ATTR s) (TENANT_FK_FIELD s)"

definition TENANT_APPS :: "django_settings \<Rightarrow> string list" where [conf_defs]:
  "TENANT_APPS s = setting (BOUNDARY_TENANT_APPS s) []"

definition ADOPT_EXCLUDE :: "django_settings \<Rightarrow> string list" where [conf_defs]:
  "ADOPT_EXCLUDE s = setting (BOUNDARY_ADOPT_EXCLUDE s) []"

definition POST_PROVISION_HOOK :: "django_settings \<Rightarrow> string option" where [conf_defs]:
  "POST_PROVISION_HOOK s = setting (BOUNDARY_POST_PROVISION_HOOK s) None"

definition PRE_DEPROVISION_HOOK :: "django_settings \<Rightarrow> string option" where [conf_defs]:
  "PRE_DEPROVISION_HOOK s = setting (BOUNDARY_PRE_DEPROVISION_HOOK s) None"

text \<open>A settings module that sets the tenant model and nothing else.\<close>

definition default_settings :: django_settings where
  "default_settings =
     \<lparr> BOUNDARY_TENANT_MODEL = Some (Some ''tenants.Club''), ICV_TENANT_MODEL = None,
       BOUNDARY_STRICT_MODE = None, BOUNDARY_REQUIRED = None, BOUNDARY_WRAP_ATOMIC = None,
       BOUNDARY_SET_DB_SESSION_VAR = None, BOUNDARY_RESOLVERS = None,
       BOUNDARY_SUBDOMAIN_FIELD = None, BOUNDARY_SUBDOMAIN_PARENT_DOMAIN = None,
       BOUNDARY_HEADER_NAME = None, BOUNDARY_JWT_CLAIM = None, BOUNDARY_SESSION_KEY = None,
       BOUNDARY_RESOLVER_CACHE_SIZE = None, BOUNDARY_RESOLVER_CACHE_TTL = None,
       BOUNDARY_DB_SESSION_VAR = None, BOUNDARY_ADMIN_FLAG_VAR = None,
       BOUNDARY_FUNCTION_LEAKPROOF = None, BOUNDARY_REGIONS = None, BOUNDARY_REGION_FIELD = None,
       BOUNDARY_TENANT_FK_FIELD = None, BOUNDARY_TENANT_LABEL = None, BOUNDARY_REQUEST_ATTR = None,
       BOUNDARY_TENANT_APPS = None, BOUNDARY_ADOPT_EXCLUDE = None,
       BOUNDARY_POST_PROVISION_HOOK = None, BOUNDARY_PRE_DEPROVISION_HOOK = None,
       DEBUG = None, MIDDLEWARE = None, INSTALLED_APPS = [] \<rparr>"

section \<open>Which setting names the tenant model\<close>

lemma str_or_nonempty: "str_or a b = Some p \<Longrightarrow> b \<noteq> Some [] \<Longrightarrow> p \<noteq> []"
  by (auto simp: str_or_def split: option.splits if_splits)

lemma resolve_tenant_model_setting_Inr:
  "resolve_tenant_model_setting s = Inr p \<longleftrightarrow> TENANT_MODEL s = Some p \<and> p \<noteq> []"
  by (auto simp: resolve_tenant_model_setting_def TENANT_MODEL_def split: option.splits)

lemma resolve_tenant_model_setting_Inl:
  "resolve_tenant_model_setting s = Inl e \<longleftrightarrow>
     e = ImproperlyConfigured \<and> (TENANT_MODEL s = None \<or> TENANT_MODEL s = Some [])"
  by (auto simp: resolve_tenant_model_setting_def TENANT_MODEL_def split: option.splits)

end
