(* ===== verification/Boundary_State.thy ===== *)
theory Boundary_State
  imports Complex_Main Py_Runtime Conf
begin

text \<open>
  What the package keeps and what it talks to. The state (\<open>world\<close>) is the module-level state of
  \<open>src/boundary/\<close>: the three \<open>ContextVar\<close>s, the resolver cache and the warn-once set, together with
  the trace of the effects performed and the log lines written. Django, PostgreSQL and signal
  receivers are not under \<open>src/\<close>: they are the fields of an environment record, functions of the
  whole history, and what the code relies on about them is stated by named predicates
  (\<open>db_ok\<close>, \<open>db_laws\<close>, \<open>reads_back\<close>).
\<close>

section \<open>Tenants, signals, events\<close>

record tenant =
  t_pk :: pyval
  t_attrs :: "(string, pyval) dict"

text \<open>\<open>getattr(tenant, name, None)\<close> and \<open>hasattr(tenant, name)\<close>\<close>

definition py_getattr :: "tenant \<Rightarrow> string \<Rightarrow> pyval" where
  "py_getattr t name = (case map_of (t_attrs t) name of None \<Rightarrow> PNone | Some v \<Rightarrow> v)"

definition py_hasattr :: "tenant \<Rightarrow> string \<Rightarrow> bool" where
  "py_hasattr t name \<longleftrightarrow> map_of (t_attrs t) name \<noteq> None"

text \<open>The four signals of \<open>src/boundary/signals.py\<close>, with the arguments they carry.\<close>

datatype signal =
    TenantResolved tenant string
  | TenantResolutionFailed
  | StrictModeViolation string
  | AdminBypassActivated string string

datatype lookup = ByPk pyval | ByField string string

datatype row_op = CountRows | ReadRows | DeleteRows

text \<open>
  Effects that leave the process: \<open>SELECT set_config(var, value, true)\<close> and
  \<open>SELECT current_setting(var, true)\<close> on a database alias, entering and leaving
  \<open>transaction.atomic(using=alias)\<close> (with whether an exception is propagating), a signal, a read of
  the tenant model, and whatever the code running inside a context block does of its own. The
  management commands also count, read and delete the rows of a table whose tenant column has a given
  value (\<open>RowStatement op alias table column value\<close>), and save and delete tenants.
\<close>

datatype event =
    SetConfig string string string
  | CurrentSetting string string
  | AtomicEnter string
  | AtomicExit string bool
  | SendSignal signal
  | GetTenant lookup
  | AppEvent string
  | RowStatement row_op string string string pyval
  | SaveTenant string "(string \<times> pyval) list"
  | DeleteTenant pyval

text \<open>Newest first; the flag says whether the effect succeeded.\<close>

type_synonym history = "(event \<times> bool) list"

datatype log_level = LogDebug | LogInfo | LogWarning

record world =
  current_tenant :: "tenant option"
  admin_bypass_depth :: "(string, nat) dict option"
  region_override :: "string option"
  resolver_cache :: "(string, tenant \<times> real) dict"
  warned_regions :: "(string \<times> pyval) list"
  trace :: history
  logs :: "(log_level \<times> string) list"

type_synonym 'a comp = "(world, 'a) pyc"

text \<open>The state of a fresh process, with nothing set.\<close>

definition fresh_world :: world where
  "fresh_world = \<lparr> current_tenant = None, admin_bypass_depth = None, region_override = None,
     resolver_cache = [], warned_regions = [], trace = [], logs = [] \<rparr>"

section \<open>The environment\<close>

text \<open>
  The effects of a statement, a transaction boundary or a signal fail with \<open>Exception\<close>s only; what
  passes \<open>except Exception\<close> comes from application code (views, tasks, commands, hooks).
\<close>

definition as_exception :: "exn \<Rightarrow> exn" where
  "as_exception e = (if is_exception e then e else OtherException [])"

lemma as_exception_simps [simp]: "is_exception (as_exception e)" "is_exception e \<Longrightarrow> as_exception e = e"
  by (simp_all add: as_exception_def)

text \<open>
  \<open>db_vendor\<close>: the vendor of a configured alias, \<open>None\<close> for an alias missing from \<open>DATABASES\<close>
  (Django raises \<open>ConnectionDoesNotExist\<close>). \<open>conn_open\<close>: \<open>connection.connection is not None\<close>.
  \<open>atomic_depth\<close>: how many \<open>atomic()\<close> blocks are open on the alias. \<open>session_var\<close>: what
  \<open>current_setting\<close> would return on the alias. \<open>react\<close>: the outcome of an effect, an exception or
  the value fetched. \<open>tenant_get\<close>: \<open>TenantModel.objects.get\<close>. \<open>clock\<close>: \<open>time.monotonic()\<close>.
\<close>

record env =
  conf :: django_settings
  db_vendor :: "string \<Rightarrow> string option"
  conn_open :: "history \<Rightarrow> string \<Rightarrow> bool"
  atomic_depth :: "history \<Rightarrow> string \<Rightarrow> nat"
  session_var :: "history \<Rightarrow> string \<Rightarrow> string \<Rightarrow> string"
  react :: "history \<Rightarrow> event \<Rightarrow> exn + string option"
  tenant_get :: "history \<Rightarrow> lookup \<Rightarrow> exn + tenant"
  clock :: "history \<Rightarrow> real"

definition in_atomic :: "env \<Rightarrow> history \<Rightarrow> string \<Rightarrow> bool" where
  "in_atomic E tr a \<longleftrightarrow> 0 < atomic_depth E tr a"

definition perform :: "env \<Rightarrow> event \<Rightarrow> string option comp" where
  "perform E ev w =
     (case react E (trace w) ev of
        Inl e \<Rightarrow> (Inl (as_exception e), w\<lparr>trace := (ev, False) # trace w\<rparr>)
      | Inr x \<Rightarrow> (Inr x, w\<lparr>trace := (ev, True) # trace w\<rparr>))"

definition performs :: "env \<Rightarrow> event \<Rightarrow> unit comp" where
  "performs E ev = seqc (perform E ev) (ret ())"

definition log :: "log_level \<Rightarrow> string \<Rightarrow> unit comp" where
  "log lvl msg = writec (\<lambda>w. w\<lparr>logs := (lvl, msg) # logs w\<rparr>)"

text \<open>
  What the code relies on. \<open>db_ok\<close>: no statement, transaction boundary or signal receiver fails.
  \<open>db_laws\<close>: \<open>atomic\<close> blocks nest per alias and entering one opens the connection; a
  transaction-local \<open>set_config\<close> inside a transaction is what \<open>current_setting\<close> then returns, it
  survives everything but another \<open>set_config\<close> of that variable and the end of a block, it
  survives the successful end of a nested block, and outside a transaction there is none of it.
\<close>

definition db_ok :: "env \<Rightarrow> bool" where
  "db_ok E \<longleftrightarrow> (\<forall>tr ev. \<exists>x. react E tr ev = Inr x)"

definition db_laws :: "env \<Rightarrow> bool" where
  "db_laws E \<longleftrightarrow>
     (\<forall>tr a. atomic_depth E ((AtomicEnter a, True) # tr) a = Suc (atomic_depth E tr a)) \<and>
     (\<forall>tr a f ok. atomic_depth E ((AtomicExit a f, ok) # tr) a = atomic_depth E tr a - 1) \<and>
     (\<forall>tr a ev ok. ev \<noteq> AtomicEnter a \<and> (\<forall>f. ev \<noteq> AtomicExit a f) \<longrightarrow>
        atomic_depth E ((ev, ok) # tr) a = atomic_depth E tr a) \<and>
     (\<forall>tr a. 0 < atomic_depth E tr a \<longrightarrow> conn_open E tr a) \<and>
     (\<forall>tr a v x. 0 < atomic_depth E tr a \<longrightarrow>
        session_var E ((SetConfig a v x, True) # tr) a v = x) \<and>
     (\<forall>tr a v ev ok. (\<forall>x. ev \<noteq> SetConfig a v x) \<and> (\<forall>f. ev \<noteq> AtomicExit a f) \<longrightarrow>
        session_var E ((ev, ok) # tr) a v = session_var E tr a v) \<and>
     (\<forall>tr a v. 1 < atomic_depth E tr a \<longrightarrow>
        session_var E ((AtomicExit a False, True) # tr) a v = session_var E tr a v) \<and>
     (\<forall>tr a v. atomic_depth E tr a = 0 \<longrightarrow> session_var E tr a v = [])"

text \<open>\<open>SELECT current_setting(var, true)\<close> returns the variable's value.\<close>

definition reads_back :: "env \<Rightarrow> bool" where
  "reads_back E \<longleftrightarrow>
     (\<forall>tr a v. react E tr (CurrentSetting a v) = Inr (Some (session_var E tr a v)))"

lemma db_okE: assumes "db_ok E" obtains x where "react E tr ev = Inr x"
  using assms by (auto simp: db_ok_def)

lemma db_lawsD:
  assumes "db_laws E"
  shows depth_enter: "atomic_depth E ((AtomicEnter a, True) # tr) a = Suc (atomic_depth E tr a)"
    and depth_exit: "atomic_depth E ((AtomicExit a f, ok) # tr) a = atomic_depth E tr a - 1"
    and depth_other: "ev \<noteq> AtomicEnter a \<Longrightarrow> (\<And>f. ev \<noteq> AtomicExit a f) \<Longrightarrow>
      atomic_depth E ((ev, ok) # tr) a = atomic_depth E tr a"
    and atomic_open: "0 < atomic_depth E tr a \<Longrightarrow> conn_open E tr a"
    and var_set: "0 < atomic_depth E tr a \<Longrightarrow>
      session_var E ((SetConfig a v x, True) # tr) a v = x"
    and var_other: "(\<And>x. ev \<noteq> SetConfig a v x) \<Longrightarrow> (\<And>f. ev \<noteq> AtomicExit a f) \<Longrightarrow>
      session_var E ((ev, ok) # tr) a v = session_var E tr a v"
    and var_nested_exit: "1 < atomic_depth E tr a \<Longrightarrow>
      session_var E ((AtomicExit a False, True) # tr) a v = session_var E tr a v"
    and var_outside: "atomic_depth E tr a = 0 \<Longrightarrow> session_var E tr a v = []"
  using assms by (simp_all add: db_laws_def)

lemma in_atomic_laws:
  assumes "db_laws E"
  shows in_atomic_enter: "in_atomic E ((AtomicEnter a, True) # tr) a"
    and in_atomic_other: "ev \<noteq> AtomicEnter a \<Longrightarrow> (\<And>f. ev \<noteq> AtomicExit a f) \<Longrightarrow>
      in_atomic E ((ev, ok) # tr) a = in_atomic E tr a"
    and in_atomic_open: "in_atomic E tr a \<Longrightarrow> conn_open E tr a"
  using db_lawsD [OF assms] by (simp_all add: in_atomic_def)

section \<open>Computations and the trace\<close>

lemma perform_ok:
  assumes "db_ok E"
  shows "snd (perform E ev w) = w\<lparr>trace := (ev, True) # trace w\<rparr>"
    and "\<exists>x. fst (perform E ev w) = Inr x"
  using assms by (auto simp: perform_def db_ok_def split: sum.splits)
    (metis Inl_Inr_False snd_conv)+

lemma performs_ok: "db_ok E \<Longrightarrow> performs E ev w = (Inr (), w\<lparr>trace := (ev, True) # trace w\<rparr>)"
  by (auto simp: performs_def seqc_def bindc_def perform_def db_ok_def split: sum.splits prod.splits)
    (metis Inl_Inr_False)+

text \<open>A projection that reads neither the trace nor the log: the package's own state.\<close>

definition state_only :: "(world \<Rightarrow> 'v) \<Rightarrow> bool" where
  "state_only f \<longleftrightarrow> (\<forall>w l. f (w\<lparr>logs := l\<rparr>) = f w) \<and> (\<forall>w tr. f (w\<lparr>trace := tr\<rparr>) = f w)"

lemma state_only_fields [keeps_intros]:
  "state_only current_tenant" "state_only admin_bypass_depth" "state_only region_override"
  "state_only resolver_cache" "state_only warned_regions"
  by (simp_all add: state_only_def)

lemma keeps_perform [keeps_intros]: "state_only f \<Longrightarrow> keeps f (perform E ev)"
  by (auto simp: keeps_def perform_def state_only_def split: sum.splits)

lemma keeps_performs [keeps_intros]: "state_only f \<Longrightarrow> keeps f (performs E ev)"
  unfolding performs_def by (intro keeps_intros)

lemma keeps_log [keeps_intros]: "state_only f \<Longrightarrow> keeps f (log lvl msg)"
  by (simp add: keeps_def log_def state_only_def)

lemma keeps_log_trace: "keeps trace (log lvl msg)"
  by (simp add: keeps_def log_def)

text \<open>A projection of the trace alone.\<close>

lemma keeps_log_of_trace [keeps_intros]: "keeps (\<lambda>w. g (trace w)) (log lvl msg)"
  by (simp add: keeps_def log_def)

lemma mild_perform [mild_intros]: "mild (perform E ev)"
  by (auto simp: mild_def perform_def split: sum.splits)

lemma mild_performs [mild_intros]: "mild (performs E ev)"
  unfolding performs_def by (intro mild_intros)

lemma total_log [total_intros]: "total (log lvl msg)"
  unfolding log_def by (rule total_writec)

lemma log_apply: "log lvl msg w = (Inr (), w\<lparr>logs := (lvl, msg) # logs w\<rparr>)"
  by (simp add: log_def)

text \<open>Every effect a computation performs satisfies \<open>P\<close>, and it only ever adds to the trace.\<close>

definition emits :: "(event \<times> bool \<Rightarrow> bool) \<Rightarrow> 'a comp \<Rightarrow> bool" where
  "emits P m \<longleftrightarrow> (\<forall>w. \<exists>es. trace (snd (m w)) = es @ trace w \<and> list_all P es)"

lemma emitsE:
  assumes "emits P m"
  obtains es where "trace (snd (m w)) = es @ trace w" "list_all P es"
  using assms by (auto simp: emits_def)

lemma emitsI: "(\<And>w. \<exists>es. trace (snd (m w)) = es @ trace w \<and> list_all P es) \<Longrightarrow> emits P m"
  by (simp add: emits_def)

lemma emits_keeps: "keeps trace m \<Longrightarrow> emits P m"
  by (simp add: emits_def keeps_def)

lemma emits_ret [emits_intros]: "emits P (ret x)"
  by (rule emits_keeps) (rule keeps_ret)

lemma emits_raise [emits_intros]: "emits P (raise e)"
  by (rule emits_keeps) (rule keeps_raise)

lemma emits_readc [emits_intros]: "emits P (readc f)"
  by (rule emits_keeps) (rule keeps_readc)

lemma emits_writec [emits_intros]: "(\<And>w. trace (f w) = trace w) \<Longrightarrow> emits P (writec f)"
  by (rule emits_keeps) (rule keeps_writec)

lemma emits_log [emits_intros]: "emits P (log lvl msg)"
  by (rule emits_keeps) (rule keeps_log_trace)

lemma emits_perform [emits_intros]: "(\<And>ok. P (ev, ok)) \<Longrightarrow> emits P (perform E ev)"
  by (auto simp: emits_def perform_def split: sum.splits)

lemma emits_compose:
  assumes "emits P m"
    and "\<And>w. \<exists>es. trace (snd (n w)) = es @ trace (snd (m w)) \<and> list_all P es"
  shows "emits P n"
proof (rule emitsI)
  fix w
  from assms(1) obtain es where es: "trace (snd (m w)) = es @ trace w" "list_all P es"
    by (rule emitsE)
  from assms(2) [of w] obtain es' where
    "trace (snd (n w)) = es' @ trace (snd (m w))" "list_all P es'" by blast
  with es show "\<exists>es. trace (snd (n w)) = es @ trace w \<and> list_all P es"
    by (intro exI [of _ "es' @ es"]) simp
qed

lemma emits_bindc [emits_intros]:
  assumes "emits P m" and k: "\<And>x. emits P (k x)"
  shows "emits P (bindc m k)"
proof (rule emits_compose [OF assms(1)])
  fix w
  show "\<exists>es. trace (snd (bindc m k w)) = es @ trace (snd (m w)) \<and> list_all P es"
  proof (cases "m w")
    case (Pair r w')
    then show ?thesis
    proof (cases r)
      case (Inr x)
      from k [of x] obtain es where "trace (snd (k x w')) = es @ trace w'" "list_all P es"
        by (rule emitsE)
      with Pair Inr show ?thesis by (simp add: bindc_def)
    qed (simp add: bindc_def)
  qed
qed

lemma emits_seqc [emits_intros]: "emits P m \<Longrightarrow> emits P k \<Longrightarrow> emits P (seqc m k)"
  unfolding seqc_def by (rule emits_bindc)

lemma emits_try_finally [emits_intros]:
  assumes "emits P m" and fin: "emits P fin"
  shows "emits P (try_finally m fin)"
proof (rule emits_compose [OF assms(1)])
  fix w
  from fin obtain es where "trace (snd (fin (snd (m w)))) = es @ trace (snd (m w))" "list_all P es"
    by (rule emitsE)
  then show "\<exists>es. trace (snd (try_finally m fin w)) = es @ trace (snd (m w)) \<and> list_all P es"
    by (auto simp: try_finally_def split: prod.splits sum.splits)
qed

lemma emits_try_except [emits_intros]:
  assumes "emits P m" and h: "\<And>e. emits P (h e)"
  shows "emits P (try_except m h)"
proof (rule emits_compose [OF assms(1)])
  fix w
  show "\<exists>es. trace (snd (try_except m h w)) = es @ trace (snd (m w)) \<and> list_all P es"
  proof (cases "m w")
    case (Pair r w')
    then show ?thesis
    proof (cases r)
      case (Inl e)
      from h [of e] obtain es where "trace (snd (h e w')) = es @ trace w'" "list_all P es"
        by (rule emitsE)
      with Pair Inl show ?thesis by (simp add: try_except_def)
    qed (simp add: try_except_def)
  qed
qed

lemma emits_for_each [emits_intros]:
  "(\<And>x. x \<in> set xs \<Longrightarrow> emits P (g x)) \<Longrightarrow> emits P (for_each xs g)"
  by (induction xs) (auto intro: emits_intros)

lemma emits_performs [emits_intros]: "(\<And>ok. P (ev, ok)) \<Longrightarrow> emits P (performs E ev)"
  unfolding performs_def by (intro emits_intros)

lemma emits_if [emits_intros]:
  "(b \<Longrightarrow> emits P m) \<Longrightarrow> (\<not> b \<Longrightarrow> emits P n) \<Longrightarrow> emits P (if b then m else n)"
  by simp

lemma emits_option [emits_intros]:
  "(x = None \<Longrightarrow> emits P m) \<Longrightarrow> (\<And>y. x = Some y \<Longrightarrow> emits P (n y))
    \<Longrightarrow> emits P (case x of None \<Rightarrow> m | Some y \<Rightarrow> n y)"
  by (cases x) auto

lemma emits_mono: "emits P m \<Longrightarrow> (\<And>e. P e \<Longrightarrow> Q e) \<Longrightarrow> emits Q m"
  unfolding emits_def by (meson list_all_iff)

section \<open>A connection by replay\<close>

text \<open>
  A concrete environment that satisfies the laws, for the witnesses: each alias replays its part of
  the history on a stack with one frame per open \<open>atomic\<close> block. It stands for nothing under
  \<open>src/\<close>.
\<close>

fun replay_step :: "string \<Rightarrow> event \<times> bool \<Rightarrow> (string \<Rightarrow> string) list \<Rightarrow> (string \<Rightarrow> string) list" where
  "replay_step a (SetConfig b v x, ok) fs =
     (if a = b \<and> ok then (case fs of [] \<Rightarrow> [] | f # r \<Rightarrow> f(v := x) # r) else fs)"
| "replay_step a (AtomicEnter b, ok) fs =
     (if a = b \<and> ok then (case fs of [] \<Rightarrow> [\<lambda>_. []] | f # r \<Rightarrow> f # f # r) else fs)"
| "replay_step a (AtomicExit b failed, ok) fs =
     (if a = b
      then (case fs of f # g # r \<Rightarrow> if failed \<or> \<not> ok then g # r else f # r | _ \<Rightarrow> [])
      else fs)"
| "replay_step a (ev, ok) fs = fs"

primrec replay :: "string \<Rightarrow> history \<Rightarrow> (string \<Rightarrow> string) list" where
  "replay a [] = []"
| "replay a (e # tr) = replay_step a e (replay a tr)"

definition replay_var :: "history \<Rightarrow> string \<Rightarrow> string \<Rightarrow> string" where
  "replay_var tr a v = (case replay a tr of [] \<Rightarrow> [] | f # _ \<Rightarrow> f v)"

definition replay_react :: "history \<Rightarrow> event \<Rightarrow> exn + string option" where
  "replay_react tr ev =
     (case ev of CurrentSetting a v \<Rightarrow> Inr (Some (replay_var tr a v)) | _ \<Rightarrow> Inr None)"

definition replay_env ::
  "django_settings \<Rightarrow> (string \<Rightarrow> string option) \<Rightarrow> (lookup \<Rightarrow> exn + tenant) \<Rightarrow> env" where
  "replay_env s vendors get =
     \<lparr> conf = s, db_vendor = vendors,
       conn_open = (\<lambda>tr a. replay a tr \<noteq> []),
       atomic_depth = (\<lambda>tr a. length (replay a tr)),
       session_var = replay_var, react = replay_react,
       tenant_get = (\<lambda>_. get), clock = (\<lambda>tr. real (length tr)) \<rparr>"

lemma replay_env_simps [simp]:
  "conf (replay_env s vendors get) = s"
  "db_vendor (replay_env s vendors get) = vendors"
  "conn_open (replay_env s vendors get) tr a = (replay a tr \<noteq> [])"
  "atomic_depth (replay_env s vendors get) tr a = length (replay a tr)"
  "session_var (replay_env s vendors get) = replay_var"
  "react (replay_env s vendors get) = replay_react"
  "tenant_get (replay_env s vendors get) tr = get"
  "clock (replay_env s vendors get) tr = real (length tr)"
  by (simp_all add: replay_env_def)

lemma replay_env_ok: "db_ok (replay_env s vendors get)"
  by (auto simp: db_ok_def replay_react_def split: event.splits)

lemma replay_env_reads_back: "reads_back (replay_env s vendors get)"
  by (simp add: reads_back_def replay_react_def)

lemma replay_step_depth:
  "ev \<noteq> AtomicEnter a \<Longrightarrow> (\<And>f. ev \<noteq> AtomicExit a f) \<Longrightarrow>
    length (replay_step a (ev, ok) fs) = length fs"
  by (cases ev) (auto split: list.splits)

lemma replay_step_var:
  "(\<And>x. ev \<noteq> SetConfig a v x) \<Longrightarrow> (\<And>f. ev \<noteq> AtomicExit a f) \<Longrightarrow>
    (case replay_step a (ev, ok) fs of [] \<Rightarrow> [] | f # _ \<Rightarrow> f v) = (case fs of [] \<Rightarrow> [] | f # _ \<Rightarrow> f v)"
  by (cases ev) (auto split: list.splits)

lemma replay_env_laws: "db_laws (replay_env s vendors get)"
  unfolding db_laws_def
proof (intro conjI allI impI)
  fix tr a v ev ok
  assume "(\<forall>x. ev \<noteq> SetConfig a v x) \<and> (\<forall>f. ev \<noteq> AtomicExit a f)"
  then show "session_var (replay_env s vendors get) ((ev, ok) # tr) a v
      = session_var (replay_env s vendors get) tr a v"
    using replay_step_var [of ev a v ok "replay a tr"] by (simp add: replay_var_def)
qed (auto simp: replay_var_def replay_step_depth Suc_less_eq2 split: list.splits)

text \<open>The laws speak of the connections only, not of how an effect turns out.\<close>

lemma db_laws_react [simp]: "db_laws (E\<lparr>react := r\<rparr>) = db_laws E"
  by (simp add: db_laws_def)

text \<open>Two tenants and a regional deployment, for the witnesses.\<close>

definition club :: "int \<Rightarrow> string \<Rightarrow> tenant" where
  "club pk region = \<lparr> t_pk = PInt pk, t_attrs = [(''region'', PStr region)] \<rparr>"

definition regional_settings :: django_settings where
  "regional_settings = default_settings\<lparr>BOUNDARY_REGIONS := Some (Some [''eu'', ''us''])\<rparr>"

definition pg_env :: env where
  "pg_env = replay_env regional_settings (\<lambda>_. Some ''postgresql'') (\<lambda>_. Inl ObjectDoesNotExist)"

lemma club_simps [simp]:
  "t_pk (club pk region) = PInt pk" "py_getattr (club pk region) ''region'' = PStr region"
  by (simp_all add: club_def py_getattr_def)

lemma regional_settings_simps [simp]:
  "WRAP_ATOMIC regional_settings" "SET_DB_SESSION_VAR regional_settings"
  "REGIONS regional_settings = Some [''eu'', ''us'']" "REGION_FIELD regional_settings = ''region''"
  "DB_SESSION_VAR regional_settings = ''app.current_tenant_id''"
  "ADMIN_FLAG_VAR regional_settings = ''app.boundary_admin''"
  "TENANT_FK_FIELD regional_settings = ''tenant''"
  by (simp_all add: conf_defs regional_settings_def default_settings_def)

lemma pg_env_simps [simp]:
  "conf pg_env = regional_settings" "db_vendor pg_env a = Some ''postgresql''"
  "conn_open pg_env tr a = (replay a tr \<noteq> [])" "atomic_depth pg_env tr a = length (replay a tr)"
  "session_var pg_env = replay_var" "react pg_env = replay_react"
  "in_atomic pg_env tr a = (replay a tr \<noteq> [])"
  by (simp_all add: pg_env_def in_atomic_def)

lemma pg_env_laws [simp]: "db_ok pg_env" "db_laws pg_env" "reads_back pg_env"
  by (simp_all add: pg_env_def replay_env_ok replay_env_laws replay_env_reads_back)

lemma fresh_world_simps [simp]:
  "current_tenant fresh_world = None" "admin_bypass_depth fresh_world = None"
  "region_override fresh_world = None" "resolver_cache fresh_world = []"
  "warned_regions fresh_world = []" "trace fresh_world = []" "logs fresh_world = []"
  by (simp_all add: fresh_world_def)

end
