(* ===== verification/Interfaces.thy ===== *)
theory Interfaces
  imports Py_Runtime
begin

text \<open>
  The interfaces between the components, as locales: what a component promises to the ones that call
  it, and what follows for any caller. \<open>scope\<close>: a block construct that puts one piece of state back
  (\<open>using\<close>, \<open>admin_bypass\<close>, \<open>specific_region\<close>, a request, a task). \<open>tenant_source\<close>: where the guarded
  operations get the active tenant from. Each locale is interpreted in the theory of the component
  that provides it; the facts of the third interface, the resolver cache's, live with it.
\<close>

section \<open>Scopes\<close>

locale scope =
  fixes proj :: "'w \<Rightarrow> 'v"
    and enter :: "('w, 'a) pyc \<Rightarrow> ('w, 'a) pyc"
  assumes restores: "keeps proj (enter body)"
begin

lemma after: "proj (snd (enter body w)) = proj w"
  by (rule keepsD [OF restores])

text \<open>Code after the scope reads the value from before it.\<close>

lemma read_after: "bindc (enter body) (\<lambda>_. readc proj) w = (Inr v, w') \<Longrightarrow> v = proj w"
  using keepsD [OF restores, of body w] by (auto simp: bindc_def split: prod.splits sum.splits)

lemma batch: "keeps proj (for_each xs (\<lambda>x. seqc (enter (job x)) (ret ())))"
  by (intro keeps_intros restores)

text \<open>A loop that survives the failure of one of its scopes, as long as the handler is neutral.\<close>

lemma batch_surviving:
  assumes "\<And>e. keeps proj (handler e)"
  shows "keeps proj (for_each xs (\<lambda>x. try_except (seqc (enter (job x)) (ret ())) handler))"
  by (intro keeps_intros restores assms)

end

section \<open>The source of the active tenant\<close>

locale tenant_source =
  fixes active :: "'w \<Rightarrow> 't option"
    and require :: "('w, 't) pyc"
    and missing :: exn
  assumes require_run: "require w = (case active w of Some t \<Rightarrow> (Inr t, w) | None \<Rightarrow> (Inl missing, w))"
begin

lemma bind_require:
  "bindc require k w = (case active w of Some t \<Rightarrow> k t w | None \<Rightarrow> (Inl missing, w))"
  by (simp add: bindc_def require_run split: option.splits)

lemma keeps_require: "keeps f require"
  by (simp add: keeps_def require_run split: option.splits)

lemma guarded_no_tenant: "active w = None \<Longrightarrow> bindc require k w = (Inl missing, w)"
  by (simp add: bind_require)

lemma guarded_tenant: "active w = Some t \<Longrightarrow> bindc require k w = k t w"
  by (simp add: bind_require)

end

end
