(* ===== verification/Context.thy ===== *)
theory Context
  imports Boundary_State Interfaces
begin

text \<open>
  Tenant context propagation (\<open>src/boundary/context.py\<close>): the \<open>ContextVar\<close> holding the active
  tenant, the PostgreSQL session variable written beside it on every alias the tenant's queries can
  reach, \<open>TenantContext\<close> with its explicit (\<open>set\<close>/\<open>clear\<close>) and scoped (\<open>using\<close>) interfaces,
  \<open>admin_bypass\<close> and \<open>tenant_scoped\<close>. A \<open>ContextVar\<close> token is the value it restores; a token is
  only ever spent by the frame that got it, so spending one twice is not modelled.
\<close>

section \<open>The aliases of a tenant\<close>

definition regional_alias :: "django_settings \<Rightarrow> tenant option \<Rightarrow> string option" where
  "regional_alias s t =
     (case t of
        None \<Rightarrow> None
      | Some te \<Rightarrow>
          (case REGIONS s of
             None \<Rightarrow> None
           | Some regions \<Rightarrow>
               if regions = [] then None
               else (case py_getattr te (REGION_FIELD s) of
                       PStr region \<Rightarrow>
                         if region = [] \<or> region \<notin> set regions \<or> region = ''default'' then None
                         else Some region
                     | _ \<Rightarrow> None)))"

definition target_aliases :: "django_settings \<Rightarrow> tenant option \<Rightarrow> string list" where
  "target_aliases s t =
     (let aliases = [''default''] in
      case regional_alias s t of
        None \<Rightarrow> aliases
      | Some regional \<Rightarrow> if regional \<notin> set aliases then aliases @ [regional] else aliases)"

text \<open>\<open>TenantContext._aliases_for\<close>\<close>

definition aliases_for :: "django_settings \<Rightarrow> tenant option \<Rightarrow> string \<Rightarrow> string list" where
  "aliases_for s t using =
     foldl (\<lambda>aliases alias. if alias \<noteq> using \<and> alias \<notin> set aliases then aliases @ [alias] else aliases)
       [using] (target_aliases s t)"

section \<open>Connections and transactions\<close>

definition is_postgresql :: "env \<Rightarrow> string \<Rightarrow> bool comp" where
  "is_postgresql E using =
     (case db_vendor E using of
        Some v \<Rightarrow> ret (v = ''postgresql'')
      | None \<Rightarrow> seqc (log LogDebug ''Alias is not configured in DATABASES'') (ret False))"

text \<open>The context manager \<open>_ensure_atomic\<close> returns: \<open>nullcontext()\<close> or \<open>transaction.atomic(using=...)\<close>.\<close>

datatype cm = NullContext | Atomic string

definition ensure_atomic :: "env \<Rightarrow> string \<Rightarrow> cm comp" where
  "ensure_atomic E using =
     (case db_vendor E using of
        None \<Rightarrow> seqc (log LogDebug ''No connection configured for alias; skipping atomic wrap'') (ret NullContext)
      | Some _ \<Rightarrow>
          bindc (readc (\<lambda>w. in_atomic E (trace w) using)) (\<lambda>in_block.
            if \<not> WRAP_ATOMIC (conf E)
            then seqc (if \<not> in_block
                       then log LogWarning ''TenantContext.using() entered outside an active transaction''
                       else ret ())
                   (ret NullContext)
            else if in_block then ret NullContext
            else ret (Atomic using)))"

text \<open>\<open>with cm: body\<close>; \<open>atomic\<close> never swallows the body's exception.\<close>

definition with_cm :: "env \<Rightarrow> cm \<Rightarrow> 'a comp \<Rightarrow> 'a comp" where
  "with_cm E c body =
     (case c of
        NullContext \<Rightarrow> body
      | Atomic a \<Rightarrow>
          seqc (performs E (AtomicEnter a))
            (\<lambda>w. case body w of (r, w') \<Rightarrow>
                   (case performs E (AtomicExit a (isl r)) w' of
                      (Inl e, w'') \<Rightarrow> (Inl e, w'')
                    | (Inr _, w'') \<Rightarrow> (r, w''))))"

text \<open>The \<open>ExitStack\<close> of \<open>using()\<close>: enter in order, leave in reverse.\<close>

primrec with_stack :: "env \<Rightarrow> string list \<Rightarrow> 'a comp \<Rightarrow> 'a comp" where
  "with_stack E [] body = body"
| "with_stack E (a # al) body =
     bindc (ensure_atomic E a) (\<lambda>c. with_cm E c (with_stack E al body))"

section \<open>The session variable\<close>

definition set_db_session :: "env \<Rightarrow> string \<Rightarrow> string \<Rightarrow> unit comp" where
  "set_db_session E tenant_id using =
     (if \<not> SET_DB_SESSION_VAR (conf E) then ret ()
      else bindc (is_postgresql E using) (\<lambda>pg.
        if \<not> pg then ret ()
        else bindc (readc (\<lambda>w. conn_open E (trace w) using)) (\<lambda>opened.
          if opened then performs E (SetConfig using (DB_SESSION_VAR (conf E)) tenant_id)
          else log LogWarning ''Skipped setting DB session variable: connection not open'')))"

definition clear_db_session :: "env \<Rightarrow> string \<Rightarrow> unit comp" where
  "clear_db_session E using =
     (if \<not> SET_DB_SESSION_VAR (conf E) then ret ()
      else bindc (is_postgresql E using) (\<lambda>pg.
        if \<not> pg then ret ()
        else bindc (readc (\<lambda>w. conn_open E (trace w) using)) (\<lambda>opened.
          if opened then performs E (SetConfig using (DB_SESSION_VAR (conf E)) [])
          else log LogWarning ''Skipped clearing DB session variable: connection not open'')))"

section \<open>TenantContext\<close>

definition tc_get :: "tenant option comp" where
  "tc_get = readc current_tenant"

definition tc_put :: "tenant option \<Rightarrow> unit comp" where
  "tc_put t = writec (\<lambda>w. w\<lparr>current_tenant := t\<rparr>)"

text \<open>The writes of \<open>set()\<close>, one alias after the other.\<close>

definition tc_write_session :: "env \<Rightarrow> tenant option \<Rightarrow> string \<Rightarrow> unit comp" where
  "tc_write_session E t using =
     (case t of
        None \<Rightarrow> ret ()
      | Some te \<Rightarrow> for_each (aliases_for (conf E) t using) (set_db_session E (py_str (t_pk te))))"

definition tc_set :: "env \<Rightarrow> tenant option \<Rightarrow> string \<Rightarrow> tenant option comp" where
  "tc_set E t using =
     bindc tc_get (\<lambda>token.
     seqc (tc_put t)
     (seqc (try_except (tc_write_session E t using) (\<lambda>e. seqc (tc_put token) (raise e)))
     (seqc (log LogDebug ''Tenant context set'')
     (ret token))))"

text \<open>Clearing and restoring are best effort: a failure is logged and the loop goes on.\<close>

definition clear_best_effort :: "env \<Rightarrow> string list \<Rightarrow> unit comp" where
  "clear_best_effort E aliases =
     for_each aliases (\<lambda>alias.
       try_except (clear_db_session E alias) (\<lambda>_. log LogWarning ''Failed to clear DB session variable''))"

definition restore_best_effort :: "env \<Rightarrow> tenant option \<Rightarrow> string \<Rightarrow> unit comp" where
  "restore_best_effort E previous using =
     (case previous of
        None \<Rightarrow> ret ()
      | Some p \<Rightarrow>
          for_each (aliases_for (conf E) previous using) (\<lambda>alias.
            try_except (set_db_session E (py_str (t_pk p)) alias)
              (\<lambda>_. log LogWarning ''Failed to restore DB session variable'')))"

definition tc_clear :: "env \<Rightarrow> tenant option \<Rightarrow> string \<Rightarrow> unit comp" where
  "tc_clear E token using =
     bindc tc_get (\<lambda>active.
     seqc (tc_put token)
     (bindc tc_get (\<lambda>previous.
      seqc (clear_best_effort E (case active of None \<Rightarrow> [using] | Some _ \<Rightarrow> aliases_for (conf E) active using))
     (seqc (restore_best_effort E previous using)
           (log LogDebug ''Tenant context cleared'')))))"

definition tc_require :: "env \<Rightarrow> tenant comp" where
  "tc_require E =
     bindc tc_get (\<lambda>t. case t of
        None \<Rightarrow> raise (TenantNotSetError (TENANT_LABEL (conf E)) [])
      | Some te \<Rightarrow> ret te)"

definition tc_using :: "env \<Rightarrow> tenant option \<Rightarrow> string \<Rightarrow> 'a comp \<Rightarrow> 'a comp" where
  "tc_using E t using body =
     bindc tc_get (\<lambda>previous.
       let aliases = aliases_for (conf E) t using in
       with_stack E aliases
         (bindc (tc_set E t using) (\<lambda>token.
            try_finally body
              (seqc (tc_put token)
              (seqc (clear_best_effort E aliases)
                    (restore_best_effort E previous using))))))"

section \<open>admin_bypass\<close>

definition depth_of :: "(string, nat) dict \<Rightarrow> string \<Rightarrow> nat" where
  "depth_of d a = (case map_of d a of None \<Rightarrow> 0 | Some n \<Rightarrow> n)"

definition clear_admin_flag :: "env \<Rightarrow> string \<Rightarrow> unit comp" where
  "clear_admin_flag E using =
     try_except (performs E (SetConfig using (ADMIN_FLAG_VAR (conf E)) []))
       (\<lambda>_. log LogWarning ''Failed to clear admin bypass flag'')"

definition announce_bypass :: "env \<Rightarrow> string \<Rightarrow> string \<Rightarrow> unit comp" where
  "announce_bypass E using msg =
     seqc (performs E (SendSignal (AdminBypassActivated (ADMIN_FLAG_VAR (conf E)) using)))
       (log LogWarning msg)"

text \<open>What runs inside \<open>with _ensure_atomic(using)\<close>.\<close>

definition admin_block :: "env \<Rightarrow> string \<Rightarrow> bool \<Rightarrow> 'a comp \<Rightarrow> 'a comp" where
  "admin_block E using already_active body =
     seqc (performs E (SetConfig using (ADMIN_FLAG_VAR (conf E)) ''true''))
     (bindc (perform E (CurrentSetting using (ADMIN_FLAG_VAR (conf E)))) (\<lambda>active.
        if active \<noteq> Some ''true''
        then raise (AdminBypassNotActiveError (ADMIN_FLAG_VAR (conf E)) using)
        else seqc (announce_bypass E using ''RLS admin bypass activated'')
               (try_finally body
                  (if \<not> already_active then clear_admin_flag E using else ret ()))))"

definition admin_bypass :: "env \<Rightarrow> string \<Rightarrow> 'a comp \<Rightarrow> 'a comp" where
  "admin_bypass E using body =
     bindc (is_postgresql E using) (\<lambda>pg.
       if \<not> pg
       then seqc (announce_bypass E using ''RLS admin bypass entered on a non-PostgreSQL alias; no flag set'')
              body
       else bindc (readc admin_bypass_depth) (\<lambda>depth_token.
         let depth_map = (case depth_token of None \<Rightarrow> [] | Some d \<Rightarrow> d);
             already_active = 0 < depth_of depth_map using
         in seqc (writec (\<lambda>w. w\<lparr>admin_bypass_depth :=
                    Some (dict_set using (depth_of depth_map using + 1) depth_map)\<rparr>))
              (try_finally
                 (bindc (ensure_atomic E using) (\<lambda>c.
                    with_cm E c (admin_block E using already_active body)))
                 (writec (\<lambda>w. w\<lparr>admin_bypass_depth := depth_token\<rparr>)))))"

section \<open>tenant_scoped\<close>

text \<open>
  The decorator binds the call's arguments to the function's signature. A signature is the list of
  its parameters with their defaults (positional-or-keyword parameters; \<open>*args\<close> and \<open>**kwargs\<close>
  parameters are not modelled).
\<close>

datatype pyarg = TenantArg "tenant option" | ValueArg pyval

type_synonym signature = "(string \<times> pyarg option) list"

fun sig_bind :: "signature \<Rightarrow> pyarg list \<Rightarrow> (string, pyarg) dict \<Rightarrow> exn + (string, pyarg) dict" where
  "sig_bind [] [] kwargs =
     (if kwargs = [] then Inr [] else Inl (PyTypeError ''got an unexpected keyword argument''))"
| "sig_bind [] (a # args) kwargs = Inl (PyTypeError ''too many positional arguments'')"
| "sig_bind ((p, d) # ps) (a # args) kwargs =
     (if dict_has p kwargs then Inl (PyTypeError ''multiple values for argument'')
      else case sig_bind ps args kwargs of Inl e \<Rightarrow> Inl e | Inr b \<Rightarrow> Inr ((p, a) # b))"
| "sig_bind ((p, d) # ps) [] kwargs =
     (case map_of kwargs p of
        Some v \<Rightarrow>
          (case sig_bind ps [] (dict_del p kwargs) of Inl e \<Rightarrow> Inl e | Inr b \<Rightarrow> Inr ((p, v) # b))
      | None \<Rightarrow>
          (case d of
             None \<Rightarrow> Inl (PyTypeError ''missing a required argument'')
           | Some v \<Rightarrow>
               (case sig_bind ps [] kwargs of Inl e \<Rightarrow> Inl e | Inr b \<Rightarrow> Inr ((p, v) # b))))"

text \<open>
  A value that is neither a tenant nor \<open>None\<close> has no \<open>pk\<close>: \<open>using()\<close> enters its transaction on
  \<open>default\<close> and \<open>set()\<close> raises there.
\<close>

definition tenant_scoped ::
  "env \<Rightarrow> string option \<Rightarrow> signature \<Rightarrow> (pyarg list \<Rightarrow> (string, pyarg) dict \<Rightarrow> 'a comp)
     \<Rightarrow> pyarg list \<Rightarrow> (string, pyarg) dict \<Rightarrow> 'a comp" where
  "tenant_scoped E tenant_arg sig func args kwargs =
     (let arg_name = (case tenant_arg of
                        Some n \<Rightarrow> if n = [] then TENANT_FK_FIELD (conf E) else n
                      | None \<Rightarrow> TENANT_FK_FIELD (conf E))
      in case sig_bind sig args kwargs of
           Inl e \<Rightarrow> raise e
         | Inr bound \<Rightarrow>
             (case map_of bound arg_name of
                None \<Rightarrow> raise (PyTypeError (''tenant_scoped: no argument '' @ arg_name))
              | Some (TenantArg t) \<Rightarrow> tc_using E t ''default'' (func args kwargs)
              | Some (ValueArg v) \<Rightarrow>
                  if v = PNone then tc_using E None ''default'' (func args kwargs)
                  else with_stack E [''default''] (raise (PyAttributeError ''pk''))))"

section \<open>What the operations leave unchanged\<close>

lemma keeps_is_postgresql [keeps_intros]: "state_only f \<Longrightarrow> keeps f (is_postgresql E a)"
  unfolding is_postgresql_def by (intro keeps_intros)

lemma keeps_ensure_atomic [keeps_intros]: "state_only f \<Longrightarrow> keeps f (ensure_atomic E a)"
  unfolding ensure_atomic_def by (intro keeps_intros)

lemma keeps_set_db_session [keeps_intros]: "state_only f \<Longrightarrow> keeps f (set_db_session E v a)"
  unfolding set_db_session_def by (intro keeps_intros)

lemma keeps_clear_db_session [keeps_intros]: "state_only f \<Longrightarrow> keeps f (clear_db_session E a)"
  unfolding clear_db_session_def by (intro keeps_intros)

lemma keeps_tc_write_session [keeps_intros]: "state_only f \<Longrightarrow> keeps f (tc_write_session E t using)"
  unfolding tc_write_session_def by (intro keeps_intros)

lemma keeps_clear_best_effort [keeps_intros]: "state_only f \<Longrightarrow> keeps f (clear_best_effort E als)"
  unfolding clear_best_effort_def by (intro keeps_intros)

lemma keeps_restore_best_effort [keeps_intros]:
  "state_only f \<Longrightarrow> keeps f (restore_best_effort E p using)"
  unfolding restore_best_effort_def by (intro keeps_intros)

lemma keeps_with_cm [keeps_intros]:
  assumes "state_only f" and body: "keeps f body"
  shows "keeps f (with_cm E c body)"
proof (cases c)
  case (Atomic a)
  have "keeps f (performs E ev)" for ev using assms(1) by (rule keeps_performs)
  note enter_exit = this [THEN keepsD]
  show ?thesis
    unfolding keeps_def Atomic with_cm_def seqc_def bindc_def cm.case
    using keepsD [OF body] enter_exit
    by (auto split: prod.splits sum.splits) (metis snd_conv)+
qed (simp add: with_cm_def body)

lemma keeps_with_stack [keeps_intros]:
  "state_only f \<Longrightarrow> keeps f body \<Longrightarrow> keeps f (with_stack E als body)"
  by (induction als) (auto intro: keeps_intros)

lemma total_is_postgresql [total_intros]: "total (is_postgresql E a)"
  unfolding is_postgresql_def by (auto intro: total_intros split: option.splits)

lemma total_ensure_atomic [total_intros]: "total (ensure_atomic E a)"
  unfolding ensure_atomic_def by (auto intro!: total_intros split: option.splits)

lemma mild_is_postgresql [mild_intros]: "mild (is_postgresql E a)"
  by (rule mild_total) (rule total_is_postgresql)

lemma mild_log [mild_intros]: "mild (log lvl msg)"
  by (rule mild_total) (rule total_log)

lemma mild_db_session [mild_intros]: "mild (set_db_session E pk a)" "mild (clear_db_session E a)"
  unfolding set_db_session_def clear_db_session_def by (intro mild_intros)+

lemma mild_tc_write_session [mild_intros]: "mild (tc_write_session E t u)"
  unfolding tc_write_session_def by (auto split: option.splits intro!: mild_intros)

lemma total_clear_best_effort [total_intros]: "total (clear_best_effort E als)"
  unfolding clear_best_effort_def by (intro total_intros mild_intros)

lemma total_restore_best_effort [total_intros]: "total (restore_best_effort E p using)"
  unfolding restore_best_effort_def by (auto intro!: total_intros mild_intros split: option.splits)

section \<open>The aliases of a tenant\<close>

lemma regional_alias_Some:
  "regional_alias s (Some t) = Some r \<longleftrightarrow>
     (\<exists>regions. REGIONS s = Some regions \<and> r \<in> set regions) \<and>
     py_getattr t (REGION_FIELD s) = PStr r \<and> r \<noteq> [] \<and> r \<noteq> ''default''"
  by (auto simp: regional_alias_def split: option.splits pyval.splits if_splits)

lemma target_aliases_eq:
  "target_aliases s t = ''default'' # (case regional_alias s t of None \<Rightarrow> [] | Some r \<Rightarrow> [r])"
proof -
  have "regional_alias s t \<noteq> Some ''default''"
    by (auto simp: regional_alias_def split: option.splits pyval.splits if_splits)
  then show ?thesis by (auto simp: target_aliases_def Let_def split: option.splits)
qed

lemma aliases_for_set:
  "set (aliases_for s t using) = insert using (set (target_aliases s t))"
  by (auto simp: aliases_for_def target_aliases_eq split: option.splits)

lemma aliases_for_distinct: "distinct (aliases_for s t using)"
  by (auto simp: aliases_for_def target_aliases_eq split: option.splits)

lemma aliases_for_hd: "\<exists>rest. aliases_for s t using = using # rest"
  by (auto simp: aliases_for_def target_aliases_eq split: option.splits)

lemma aliases_for_None: "aliases_for s None ''default'' = [''default'']"
  by (simp add: aliases_for_def target_aliases_def regional_alias_def Let_def)

section \<open>Restoring the active tenant\<close>

lemma current_tc_put [simp]: "current_tenant (snd (tc_put t w)) = t"
  by (simp add: tc_put_def)

text \<open>The session write of \<open>set()\<close> leaves the \<open>ContextVar\<close> alone, so a token restores it.\<close>

lemma tc_set_Inl:
  assumes "tc_set E t using w = (Inl e, w')"
  shows "current_tenant w' = current_tenant w"
  using assms
  by (auto simp: tc_set_def tc_get_def tc_put_def try_except_mild [OF mild_tc_write_session] bindc_def seqc_def log_def
      split: prod.splits sum.splits)

lemma tc_set_Inr:
  assumes "tc_set E t using w = (Inr token, w')"
  shows "token = current_tenant w" and "current_tenant w' = t"
proof -
  let ?w1 = "w\<lparr>current_tenant := t\<rparr>"
  have k: "current_tenant (snd (tc_write_session E t using ?w1)) = t"
    using keepsD [OF keeps_tc_write_session [OF state_only_fields(1)], where w = ?w1] by simp
  show "token = current_tenant w"
    using assms
    by (auto simp: tc_set_def tc_get_def tc_put_def try_except_mild [OF mild_tc_write_session] bindc_def seqc_def log_def
        split: prod.splits sum.splits)
  show "current_tenant w' = t"
    using assms k
    by (auto simp: tc_set_def tc_get_def tc_put_def try_except_mild [OF mild_tc_write_session] bindc_def seqc_def log_def
        split: prod.splits sum.splits)
qed

lemma seqc_tc_put [simp]: "seqc (tc_put t) k w = k (w\<lparr>current_tenant := t\<rparr>)"
  by (simp add: seqc_def bindc_def tc_put_def)

lemma current_after_cleanup:
  "current_tenant (snd (seqc (tc_put token) (seqc (clear_best_effort E als) (restore_best_effort E p using)) w))
     = token"
proof -
  have "keeps current_tenant (seqc (clear_best_effort E als) (restore_best_effort E p using))"
    by (intro keeps_intros)
  from keepsD [OF this] show ?thesis by simp
qed

lemma keeps_scope_body:
  "keeps current_tenant
     (bindc (tc_set E t using) (\<lambda>token.
        try_finally body
          (seqc (tc_put token) (seqc (clear_best_effort E als) (restore_best_effort E p using)))))"
proof -
  have "current_tenant (snd (bindc (tc_set E t using) (\<lambda>token.
        try_finally body
          (seqc (tc_put token) (seqc (clear_best_effort E als) (restore_best_effort E p using)))) w))
     = current_tenant w" for w
  proof (cases "tc_set E t using w")
    case (Pair r w1)
    show ?thesis
    proof (cases r)
      case (Inl e)
      with Pair tc_set_Inl show ?thesis by (auto simp: bindc_def)
    next
      case (Inr token)
      with Pair have "token = current_tenant w" by (auto dest: tc_set_Inr(1))
      with Pair Inr show ?thesis
        by (simp add: bindc_def try_finally_keeps_only_fin [where f = current_tenant, OF current_after_cleanup])
    qed
  qed
  then show ?thesis by (simp add: keeps_def)
qed

lemma keeps_tc_using: "keeps current_tenant (tc_using E t using body)"
  unfolding tc_using_def tc_get_def Let_def
  by (intro keeps_intros keeps_scope_body)

lemma keeps_tc_using_other:
  assumes "state_only f" and "\<And>w t. f (w\<lparr>current_tenant := t\<rparr>) = f w" and "keeps f body"
  shows "keeps f (tc_using E t using body)"
proof -
  have put: "keeps f (tc_put t)" for t using assms(2) by (simp add: keeps_def tc_put_def)
  have set: "keeps f (tc_set E t using)"
    unfolding tc_set_def tc_get_def by (intro keeps_intros put assms)
  show ?thesis
    unfolding tc_using_def tc_get_def Let_def by (intro keeps_intros put set assms)
qed

section \<open>The contracts the other components rely on\<close>

interpretation using_scope: scope current_tenant "tc_using E t u" for E t u
  by unfold_locales (rule keeps_tc_using)

interpretation context_source: tenant_source current_tenant "tc_require E"
  "TenantNotSetError (TENANT_LABEL (conf E)) []" for E
  by unfold_locales (simp add: tc_require_def tc_get_def bindc_def split: option.splits)

section \<open>What the session writes do to the connections\<close>

text \<open>
  A computation that, on a database without failures, only writes \<open>x\<close> into the tenant variable of
  the PostgreSQL aliases in \<open>A\<close>: the package's state stays, no transaction opens or closes, and on
  an alias inside a transaction every variable but that one keeps its value.
\<close>

definition carries_var :: "env \<Rightarrow> string \<Rightarrow> bool" where
  "carries_var E a \<longleftrightarrow> SET_DB_SESSION_VAR (conf E) \<and> db_vendor E a = Some ''postgresql''"

definition same_state :: "world \<Rightarrow> world \<Rightarrow> bool" where
  "same_state w w' \<longleftrightarrow> current_tenant w' = current_tenant w \<and>
     admin_bypass_depth w' = admin_bypass_depth w \<and> region_override w' = region_override w \<and>
     resolver_cache w' = resolver_cache w \<and> warned_regions w' = warned_regions w"

definition wrote :: "env \<Rightarrow> string set \<Rightarrow> string \<Rightarrow> world \<Rightarrow> world \<Rightarrow> bool" where
  "wrote E A x w w' \<longleftrightarrow> same_state w w' \<and>
     (\<forall>b. atomic_depth E (trace w') b = atomic_depth E (trace w) b) \<and>
     (\<forall>b v. in_atomic E (trace w) b \<longrightarrow>
        session_var E (trace w') b v =
          (if b \<in> A \<and> v = DB_SESSION_VAR (conf E) \<and> carries_var E b then x
           else session_var E (trace w) b v))"

definition writes_var :: "env \<Rightarrow> string set \<Rightarrow> string \<Rightarrow> unit comp \<Rightarrow> bool" where
  "writes_var E A x m \<longleftrightarrow> (\<forall>w. fst (m w) = Inr () \<and> wrote E A x w (snd (m w)))"

lemma same_state_refl [simp]: "same_state w w"
  by (simp add: same_state_def)

lemma same_state_trans [trans]: "same_state w w' \<Longrightarrow> same_state w' w'' \<Longrightarrow> same_state w w''"
  by (simp add: same_state_def)

lemma same_state_updates [simp]:
  "same_state w (w'\<lparr>trace := tr\<rparr>) = same_state w w'" "same_state w (w'\<lparr>logs := l\<rparr>) = same_state w w'"
  by (simp_all add: same_state_def)

lemma same_state_state_only:
  assumes "same_state w w'" "state_only f"
  shows "f w' = f w"
proof -
  have "w' = w\<lparr>trace := trace w', logs := logs w'\<rparr>"
    using assms(1) by (simp add: same_state_def)
  then have "f w' = f (w\<lparr>trace := trace w', logs := logs w'\<rparr>)" by simp
  also have "\<dots> = f w" using assms(2) by (simp add: state_only_def)
  finally show ?thesis .
qed

lemma wrote_refl_logs [simp]: "wrote E {} x w w" "wrote E {} x w (w\<lparr>logs := l\<rparr>)"
  by (simp_all add: wrote_def)

lemma wrote_trans: "wrote E A x w w1 \<Longrightarrow> wrote E B x w1 w2 \<Longrightarrow> wrote E (A \<union> B) x w w2"
  by (auto simp: wrote_def in_atomic_def intro: same_state_trans)

lemma wrote_inert: "\<not> carries_var E a \<Longrightarrow> wrote E {} x w w' \<Longrightarrow> wrote E {a} x w w'"
  by (auto simp: wrote_def)

lemma wrote_outside: "\<not> in_atomic E (trace w) a \<Longrightarrow> wrote E {} x w w' \<Longrightarrow> wrote E {a} x w w'"
  by (auto simp: wrote_def)

lemma wrote_event:
  assumes "db_laws E" "carries_var E a"
  shows "wrote E {a} x w (w\<lparr>logs := l, trace := (SetConfig a (DB_SESSION_VAR (conf E)) x, True) # trace w\<rparr>)"
  using assms(2)
  by (auto simp: wrote_def in_atomic_def var_set [OF assms(1)] depth_other [OF assms(1)]
      intro!: var_other [OF assms(1)])

lemma writes_varD: "writes_var E A x m \<Longrightarrow> m w = (Inr (), snd (m w))"
  "writes_var E A x m \<Longrightarrow> wrote E A x w (snd (m w))"
  by (simp_all add: writes_var_def prod_eq_iff)

lemma writes_var_ret: "writes_var E {} x (ret ())"
  by (simp add: writes_var_def)

lemma writes_var_seqc:
  assumes "writes_var E A x m" "writes_var E B x n"
  shows "writes_var E (A \<union> B) x (seqc m n)"
  unfolding writes_var_def
  using writes_varD [OF assms(1)] writes_varD [OF assms(2)] by (metis fst_conv seqc_Inr wrote_trans)

lemma writes_var_for_each:
  assumes "\<And>a. a \<in> set al \<Longrightarrow> writes_var E {a} x (f a)"
  shows "writes_var E (set al) x (for_each al f)"
  using assms
proof (induction al)
  case (Cons a al)
  then have "writes_var E ({a} \<union> set al) x (seqc (f a) (for_each al f))"
    by (intro writes_var_seqc) auto
  then show ?case by simp
qed (simp add: writes_var_ret)

lemma writes_var_try_except:
  assumes "writes_var E A x m"
  shows "writes_var E A x (try_except m h)"
proof -
  have "try_except m h w = m w" for w
    using writes_varD(1) [OF assms, of w] by (metis (no_types, lifting) old.prod.case sum.simps(6) try_except_def)
  then show ?thesis using assms by (simp add: writes_var_def)
qed

lemma is_postgresql_apply:
  "\<exists>l. is_postgresql E a w = (Inr (db_vendor E a = Some ''postgresql''), w\<lparr>logs := l\<rparr>)"
proof (cases "db_vendor E a")
  case (Some v)
  then show ?thesis by (auto simp: is_postgresql_def intro: exI [of _ "logs w"])
qed (auto simp: is_postgresql_def seqc_Inr [OF log_apply])

text \<open>Both writers are one shape: gates, then \<open>set_config\<close> on an open connection.\<close>

definition guarded_write :: "env \<Rightarrow> string \<Rightarrow> string \<Rightarrow> string \<Rightarrow> unit comp" where
  "guarded_write E msg x a =
     (if \<not> SET_DB_SESSION_VAR (conf E) then ret ()
      else bindc (is_postgresql E a) (\<lambda>pg.
        if \<not> pg then ret ()
        else bindc (readc (\<lambda>w. conn_open E (trace w) a)) (\<lambda>opened.
          if opened then performs E (SetConfig a (DB_SESSION_VAR (conf E)) x)
          else log LogWarning msg)))"

lemma set_db_session_guarded:
  "set_db_session E x a =
     guarded_write E ''Skipped setting DB session variable: connection not open'' x a"
  unfolding set_db_session_def guarded_write_def ..

lemma clear_db_session_guarded:
  "clear_db_session E a =
     guarded_write E ''Skipped clearing DB session variable: connection not open'' [] a"
  unfolding clear_db_session_def guarded_write_def ..

lemma guarded_write_writes:
  assumes ok: "db_ok E" and laws: "db_laws E"
  shows "writes_var E {a} x (guarded_write E msg x a)"
  unfolding writes_var_def
proof
  fix w
  obtain l where pg: "is_postgresql E a w = (Inr (db_vendor E a = Some ''postgresql''), w\<lparr>logs := l\<rparr>)"
    using is_postgresql_apply by blast
  consider "\<not> carries_var E a" | "carries_var E a" "conn_open E (trace w) a"
    | "carries_var E a" "\<not> conn_open E (trace w) a" by blast
  then show "fst (guarded_write E msg x a w) = Inr () \<and> wrote E {a} x w (snd (guarded_write E msg x a w))"
  proof cases
    case 1
    with pg show ?thesis
      by (auto simp: guarded_write_def bindc_def carries_var_def intro!: wrote_inert)
  next
    case 2
    with pg wrote_event [OF laws 2(1)] show ?thesis
      by (auto simp: guarded_write_def bindc_def carries_var_def performs_ok [OF ok])
  next
    case 3
    then have "\<not> in_atomic E (trace w) a" using in_atomic_open [OF laws] by blast
    with 3 pg show ?thesis
      by (auto simp: guarded_write_def bindc_def carries_var_def log_def intro!: wrote_outside)
  qed
qed

lemma session_writes:
  assumes "db_ok E" "db_laws E"
  shows "writes_var E {a} x (set_db_session E x a)"
    and "writes_var E {a} [] (clear_db_session E a)"
  unfolding set_db_session_guarded clear_db_session_guarded
  by (rule guarded_write_writes [OF assms])+

section \<open>What runs inside the stack of transactions\<close>

text \<open>The aliases \<open>using()\<close> opens a transaction on: configured ones not in a transaction already.\<close>

definition opens :: "env \<Rightarrow> world \<Rightarrow> string \<Rightarrow> bool" where
  "opens E w a \<longleftrightarrow> db_vendor E a \<noteq> None \<and> \<not> in_atomic E (trace w) a"

definition enters :: "string list \<Rightarrow> history" where
  "enters al = rev (map (\<lambda>a. (AtomicEnter a, True)) al)"

definition exits :: "bool \<Rightarrow> string list \<Rightarrow> history" where
  "exits failed al = map (\<lambda>a. (AtomicExit a failed, True)) al"

lemma enters_Cons: "enters (a # al) = enters al @ [(AtomicEnter a, True)]"
  by (simp add: enters_def)

lemma exits_Cons: "exits f (a # al) = (AtomicExit a f, True) # exits f al"
  by (simp add: exits_def)

lemma ensure_atomic_wrap:
  assumes "WRAP_ATOMIC (conf E)"
  shows "\<exists>l. ensure_atomic E a w = (Inr (if opens E w a then Atomic a else NullContext), w\<lparr>logs := l\<rparr>)"
proof (cases "db_vendor E a")
  case None
  then show ?thesis by (simp add: ensure_atomic_def opens_def seqc_Inr [OF log_apply] exI)
next
  case (Some v)
  then have "ensure_atomic E a w = (Inr (if opens E w a then Atomic a else NullContext), w\<lparr>logs := logs w\<rparr>)"
    using assms by (simp add: ensure_atomic_def opens_def bindc_def)
  then show ?thesis ..
qed

lemma with_cm_Atomic:
  assumes "db_ok E"
  shows "with_cm E (Atomic a) body w =
    (let r = body (w\<lparr>trace := (AtomicEnter a, True) # trace w\<rparr>) in
      (fst r, (snd r)\<lparr>trace := (AtomicExit a (isl (fst r)), True) # trace (snd r)\<rparr>))"
  by (simp add: with_cm_def seqc_Inr [OF performs_ok [OF assms]] performs_ok [OF assms] Let_def
      split: prod.splits)

lemma opens_enter:
  "db_laws E \<Longrightarrow> a \<noteq> b \<Longrightarrow> opens E (w\<lparr>logs := l, trace := (AtomicEnter a, True) # trace w\<rparr>) b = opens E w b"
  by (simp add: opens_def in_atomic_other)

lemma with_stack_ok:
  assumes ok: "db_ok E" and laws: "db_laws E" and wrap: "WRAP_ATOMIC (conf E)" and "distinct al"
  shows "\<exists>l. \<forall>body :: 'a comp. with_stack E al body w =
    (let r = body (w\<lparr>logs := l, trace := enters (filter (opens E w) al) @ trace w\<rparr>) in
      (fst r, (snd r)\<lparr>trace := exits (isl (fst r)) (filter (opens E w) al) @ trace (snd r)\<rparr>))"
  using \<open>distinct al\<close>
proof (induction al arbitrary: w)
  case Nil
  show ?case by (auto simp: enters_def exits_def Let_def intro: exI [of _ "logs w"])
next
  case (Cons a al)
  obtain l where ea: "ensure_atomic E a w =
      (Inr (if opens E w a then Atomic a else NullContext), w\<lparr>logs := l\<rparr>)"
    using ensure_atomic_wrap [OF wrap] by blast
  show ?case
  proof (cases "opens E w a")
    case False
    have eq: "opens E (w\<lparr>logs := l\<rparr>) = opens E w"
      by (rule ext) (simp add: opens_def)
    from Cons.IH [of "w\<lparr>logs := l\<rparr>"] Cons.prems obtain l' where
      "\<forall>body :: 'a comp. with_stack E al body (w\<lparr>logs := l\<rparr>) =
        (let r = body (w\<lparr>logs := l', trace := enters (filter (opens E w) al) @ trace w\<rparr>) in
          (fst r, (snd r)\<lparr>trace := exits (isl (fst r)) (filter (opens E w) al) @ trace (snd r)\<rparr>))"
      by (auto simp: eq)
    with False ea show ?thesis by (auto simp: bindc_def with_cm_def)
  next
    case True
    let ?w1 = "w\<lparr>logs := l, trace := (AtomicEnter a, True) # trace w\<rparr>"
    have eq: "filter (opens E ?w1) al = filter (opens E w) al"
      using Cons.prems by (intro filter_cong refl opens_enter [OF laws]) auto
    from Cons.IH [of ?w1] Cons.prems obtain l' where
      "\<forall>body :: 'a comp. with_stack E al body ?w1 =
        (let r = body (w\<lparr>logs := l', trace := enters (filter (opens E w) (a # al)) @ trace w\<rparr>) in
          (fst r, (snd r)\<lparr>trace := exits (isl (fst r)) (filter (opens E w) al) @ trace (snd r)\<rparr>))"
      using True by (auto simp: eq enters_Cons)
    with True ea show ?thesis
      by (auto simp: bindc_def with_cm_Atomic [OF ok] exits_Cons Let_def)
  qed
qed

lemma depth_enters:
  assumes laws: "db_laws E" and "distinct al"
  shows "atomic_depth E (enters al @ tr) a = (if a \<in> set al then Suc (atomic_depth E tr a) else atomic_depth E tr a)"
  using \<open>distinct al\<close>
proof (induction al arbitrary: tr)
  case (Cons b al)
  show ?case
  proof (cases "a = b")
    case False
    then have "atomic_depth E ((AtomicEnter b, True) # tr) a = atomic_depth E tr a"
      by (intro depth_other [OF laws]) auto
    with False Cons show ?thesis by (auto simp: enters_Cons)
  qed (use Cons in \<open>auto simp: enters_Cons depth_enter [OF laws]\<close>)
qed (simp add: enters_def)

lemma var_enters:
  assumes laws: "db_laws E"
  shows "session_var E (enters al @ tr) a v = session_var E tr a v"
proof (induction al arbitrary: tr)
  case (Cons b al)
  then show ?case by (simp add: enters_Cons) (rule var_other [OF laws], simp_all)
qed (simp add: enters_def)

lemma depth_exits:
  assumes laws: "db_laws E" and "distinct al"
  shows "atomic_depth E (exits f al @ tr) a = (if a \<in> set al then atomic_depth E tr a - 1 else atomic_depth E tr a)"
  using \<open>distinct al\<close>
proof (induction al)
  case (Cons b al)
  show ?case
  proof (cases "a = b")
    case False
    then have "atomic_depth E ((AtomicExit b f, True) # exits f al @ tr) a = atomic_depth E (exits f al @ tr) a"
      by (intro depth_other [OF laws]) auto
    with False Cons show ?thesis by (auto simp: exits_Cons)
  qed (use Cons in \<open>auto simp: exits_Cons depth_exit [OF laws]\<close>)
qed (simp add: exits_def)

lemma var_exits:
  assumes laws: "db_laws E" and "a \<notin> set al"
  shows "session_var E (exits f al @ tr) a v = session_var E tr a v"
  using \<open>a \<notin> set al\<close>
proof (induction al)
  case (Cons b al)
  then show ?case by (simp add: exits_Cons) (subst var_other [OF laws], auto)
qed (simp add: exits_def)

section \<open>A scope as a whole\<close>

lemma tc_set_ok:
  assumes "db_ok E" "db_laws E"
  shows "\<exists>w1. tc_set E (Some te) using w = (Inr (current_tenant w), w1) \<and>
    wrote E (set (aliases_for (conf E) (Some te) using)) (py_str (t_pk te))
      (w\<lparr>current_tenant := Some te\<rparr>) w1"
proof -
  have wr: "writes_var E (set (aliases_for (conf E) (Some te) using)) (py_str (t_pk te))
      (tc_write_session E (Some te) using)"
    using session_writes(1) [OF assms] by (simp add: tc_write_session_def writes_var_for_each)
  let ?w0 = "w\<lparr>current_tenant := Some te\<rparr>"
  obtain w1 where w1: "tc_write_session E (Some te) using ?w0 = (Inr (), w1)"
    using writes_varD(1) [OF wr] by blast
  then have "tc_set E (Some te) using w =
      (Inr (current_tenant w), w1\<lparr>logs := (LogDebug, ''Tenant context set'') # logs w1\<rparr>)"
    by (simp add: tc_set_def tc_get_def bindc_Inr [OF readc_apply] seqc_Inr [OF try_except_Inr]
        seqc_Inr [OF log_apply])
  moreover have "wrote E (set (aliases_for (conf E) (Some te) using)) (py_str (t_pk te)) ?w0 (w1\<lparr>logs := l\<rparr>)" for l
    using writes_varD(2) [OF wr, of ?w0] w1 wrote_trans [OF _ wrote_refl_logs(2)] by fastforce
  ultimately show ?thesis by blast
qed

text \<open>What leaving a scope does: the token, the clears, the writes of the outer tenant.\<close>

definition outer_writes :: "env \<Rightarrow> tenant option \<Rightarrow> string \<Rightarrow> world \<Rightarrow> world \<Rightarrow> bool" where
  "outer_writes E previous using w w' \<longleftrightarrow>
     (case previous of
        None \<Rightarrow> w' = w
      | Some p \<Rightarrow> wrote E (set (aliases_for (conf E) previous using)) (py_str (t_pk p)) w w')"

lemma restore_writes:
  assumes "db_ok E" "db_laws E"
  shows "fst (restore_best_effort E previous using w) = Inr ()"
    and "outer_writes E previous using w (snd (restore_best_effort E previous using w))"
proof -
  have "writes_var E (set (aliases_for (conf E) previous using)) x
      (for_each (aliases_for (conf E) previous using)
         (\<lambda>alias. try_except (set_db_session E x alias)
           (\<lambda>_. log LogWarning ''Failed to restore DB session variable'')))" for x
    using session_writes(1) [OF assms] by (intro writes_var_for_each writes_var_try_except) simp
  note wr = writes_varD [OF this]
  show "fst (restore_best_effort E previous using w) = Inr ()"
    "outer_writes E previous using w (snd (restore_best_effort E previous using w))"
    using wr by (auto simp: restore_best_effort_def outer_writes_def split: option.splits)
      (metis fst_conv)
qed

lemma clear_writes:
  assumes "db_ok E" "db_laws E"
  shows "writes_var E (set al) [] (clear_best_effort E al)"
  unfolding clear_best_effort_def
  using session_writes(2) [OF assms] by (intro writes_var_for_each writes_var_try_except) simp

definition left_scope :: "env \<Rightarrow> string list \<Rightarrow> tenant option \<Rightarrow> string \<Rightarrow> world \<Rightarrow> world \<Rightarrow> bool" where
  "left_scope E al previous using w2 w3 \<longleftrightarrow>
     (\<exists>w'. wrote E (set al) [] (w2\<lparr>current_tenant := previous\<rparr>) w' \<and> outer_writes E previous using w' w3)"

lemma scope_exit:
  assumes "db_ok E" "db_laws E"
  shows "\<exists>w3. seqc (tc_put previous) (seqc (clear_best_effort E al) (restore_best_effort E previous using)) w2
      = (Inr (), w3) \<and> left_scope E al previous using w2 w3"
proof -
  let ?w = "w2\<lparr>current_tenant := previous\<rparr>"
  let ?w' = "snd (clear_best_effort E al ?w)"
  note c = writes_varD [OF clear_writes [OF assms, where al = al], of ?w]
  have "seqc (tc_put previous) (seqc (clear_best_effort E al) (restore_best_effort E previous using)) w2
      = restore_best_effort E previous using ?w'"
    using c(1) by (simp add: seqc_Inr)
  with restore_writes [OF assms] c(2) show ?thesis
    unfolding left_scope_def by (metis prod.collapse)
qed

lemma using_run:
  assumes ok: "db_ok E" and laws: "db_laws E" and wrap: "WRAP_ATOMIC (conf E)"
  shows "\<exists>w1.
    wrote E (set (aliases_for (conf E) (Some te) using)) (py_str (t_pk te))
      (w\<lparr>current_tenant := Some te,
         trace := enters (filter (opens E w) (aliases_for (conf E) (Some te) using)) @ trace w\<rparr>) w1 \<and>
    (\<forall>body :: 'a comp. \<exists>w3.
       left_scope E (aliases_for (conf E) (Some te) using) (current_tenant w) using (snd (body w1)) w3 \<and>
       tc_using E (Some te) using body w =
         (fst (body w1),
          w3\<lparr>trace := exits (isl (fst (body w1)))
               (filter (opens E w) (aliases_for (conf E) (Some te) using)) @ trace w3\<rparr>))"
proof -
  let ?A = "aliases_for (conf E) (Some te) using"
  let ?al = "filter (opens E w) ?A"
  obtain l where stack: "\<forall>body :: 'a comp. with_stack E ?A body w =
      (let r = body (w\<lparr>logs := l, trace := enters ?al @ trace w\<rparr>) in
        (fst r, (snd r)\<lparr>trace := exits (isl (fst r)) ?al @ trace (snd r)\<rparr>))"
    using with_stack_ok [OF ok laws wrap aliases_for_distinct] by blast
  let ?w0 = "w\<lparr>logs := l, trace := enters ?al @ trace w\<rparr>"
  obtain w1 where w1: "tc_set E (Some te) using ?w0 = (Inr (current_tenant w), w1)"
    "wrote E (set ?A) (py_str (t_pk te)) (?w0\<lparr>current_tenant := Some te\<rparr>) w1"
    using tc_set_ok [OF ok laws, of te _ ?w0] by auto
  have "wrote E (set ?A) (py_str (t_pk te))
      (w\<lparr>current_tenant := Some te, trace := enters ?al @ trace w\<rparr>) w1"
    using w1(2) by (simp add: wrote_def same_state_def)
  moreover have "\<exists>w3. left_scope E ?A (current_tenant w) using (snd (body w1)) w3 \<and>
      tc_using E (Some te) using body w =
        (fst (body w1), w3\<lparr>trace := exits (isl (fst (body w1))) ?al @ trace w3\<rparr>)" for body :: "'a comp"
  proof -
    obtain w3 where w3: "seqc (tc_put (current_tenant w))
        (seqc (clear_best_effort E ?A) (restore_best_effort E (current_tenant w) using)) (snd (body w1))
        = (Inr (), w3)" "left_scope E ?A (current_tenant w) using (snd (body w1)) w3"
      using scope_exit [OF ok laws] by blast
    have "tc_using E (Some te) using body w =
        (fst (body w1), w3\<lparr>trace := exits (isl (fst (body w1))) ?al @ trace w3\<rparr>)"
      using w3(1) by (simp add: tc_using_def tc_get_def Let_def bindc_def stack w1(1)
          try_finally_Inr [where u = "()" and w' = w3])
    with w3(2) show ?thesis by blast
  qed
  ultimately show ?thesis by blast
qed

section \<open>The scope's contract\<close>

lemma wrote_in_atomic: "wrote E A x w w' \<Longrightarrow> in_atomic E (trace w') a = in_atomic E (trace w) a"
  by (simp add: wrote_def in_atomic_def)

lemma using_run_atomic:
  assumes "db_laws E" "carries_var E a" "a \<in> set al" "distinct al"
  shows "in_atomic E (enters (filter (opens E w) al) @ trace w) a"
  using assms by (auto simp: in_atomic_def depth_enters opens_def carries_var_def)

text \<open>The state a block runs in when \<open>t\<close> has been activated with base alias \<open>u\<close>.\<close>

definition runs_as :: "env \<Rightarrow> tenant \<Rightarrow> string \<Rightarrow> world \<Rightarrow> bool" where
  "runs_as E t u w1 \<longleftrightarrow> current_tenant w1 = Some t \<and>
     (\<forall>a. a \<in> insert u (set (target_aliases (conf E) (Some t))) \<and> carries_var E a \<longrightarrow>
        in_atomic E (trace w1) a \<and>
        session_var E (trace w1) a (DB_SESSION_VAR (conf E)) = py_str (t_pk t))"

lemma using_block_state:
  assumes "db_ok E" "db_laws E" "WRAP_ATOMIC (conf E)"
  shows "\<exists>w1. runs_as E te u w1 \<and> (\<forall>body :: 'a comp. fst (tc_using E (Some te) u body w) = fst (body w1))"
proof -
  obtain w1 where w1: "wrote E (set (aliases_for (conf E) (Some te) u)) (py_str (t_pk te))
      (w\<lparr>current_tenant := Some te,
         trace := enters (filter (opens E w) (aliases_for (conf E) (Some te) u)) @ trace w\<rparr>) w1"
    and run: "\<forall>body :: 'a comp. fst (tc_using E (Some te) u body w) = fst (body w1)"
    using using_run [OF assms, where 'a = 'a] by (metis fst_conv)
  have "in_atomic E (trace w1) a \<and>
      session_var E (trace w1) a (DB_SESSION_VAR (conf E)) = py_str (t_pk te)"
    if "a \<in> insert u (set (target_aliases (conf E) (Some te)))" "carries_var E a" for a
    using that w1 using_run_atomic [OF assms(2) that(2) _ aliases_for_distinct]
    by (simp add: wrote_in_atomic [OF w1] aliases_for_set [symmetric]) (simp add: wrote_def)
  with w1 run show ?thesis by (intro exI [of _ w1]) (simp add: runs_as_def wrote_def same_state_def)
qed

text \<open>
  C1: On a database without failures and with \<open>BOUNDARY_WRAP_ATOMIC\<close> on, the block of
  \<open>TenantContext.using(tenant)\<close> runs in one fixed state, whatever the block is: the tenant is the
  active one, and on the base alias and on the tenant's regional alias (those on PostgreSQL) a
  transaction is open in which the session variable reads the tenant's primary key. The caller gets
  the block's own value or exception.
\<close>
theorem using_runs_block_as_tenant:
  assumes "db_ok E" "db_laws E" "WRAP_ATOMIC (conf E)"
  shows "\<exists>w1. current_tenant w1 = Some te \<and>
    (\<forall>a. a \<in> insert u (set (target_aliases (conf E) (Some te))) \<and> carries_var E a \<longrightarrow>
       in_atomic E (trace w1) a \<and>
       session_var E (trace w1) a (DB_SESSION_VAR (conf E)) = py_str (t_pk te)) \<and>
    (\<forall>body :: 'a comp. fst (tc_using E (Some te) u body w) = fst (body w1))"
  using using_block_state [OF assms, where 'a = 'a] unfolding runs_as_def by blast

theorem using_runs_block_as_tenant_witness:
  "\<exists>w1. current_tenant w1 = Some (club 1 ''eu'') \<and>
     session_var pg_env (trace w1) ''default'' ''app.current_tenant_id'' = ''1'' \<and>
     session_var pg_env (trace w1) ''eu'' ''app.current_tenant_id'' = ''1'' \<and>
     (\<forall>body :: unit comp. fst (tc_using pg_env (Some (club 1 ''eu'')) ''default'' body fresh_world) = fst (body w1))"
proof -
  have "set (target_aliases regional_settings (Some (club 1 ''eu''))) = {''default'', ''eu''}"
    by (simp add: target_aliases_eq regional_alias_def)
  moreover have "py_str (PInt 1) = ''1''" by code_simp
  ultimately show ?thesis
    using using_runs_block_as_tenant [of pg_env "club 1 ''eu''" "''default''" fresh_world, where 'a = unit]
    by (auto simp: carries_var_def)
qed

text \<open>The value the tenant variable of an alias has when \<open>t\<close> is the active tenant.\<close>

definition scoped_value :: "django_settings \<Rightarrow> tenant option \<Rightarrow> string \<Rightarrow> string \<Rightarrow> string" where
  "scoped_value s t u a =
     (case t of None \<Rightarrow> []
      | Some te \<Rightarrow> if a \<in> insert u (set (target_aliases s t)) then py_str (t_pk te) else [])"

lemma outer_writes_depth:
  "outer_writes E prev u w w' \<Longrightarrow> atomic_depth E (trace w') b = atomic_depth E (trace w) b"
  by (auto simp: outer_writes_def wrote_def split: option.splits)

lemma left_scope_depth:
  "left_scope E al prev u w2 w3 \<Longrightarrow> atomic_depth E (trace w3) b = atomic_depth E (trace w2) b"
  unfolding left_scope_def by (auto simp: wrote_def dest!: outer_writes_depth)

lemma left_scope_var:
  assumes "left_scope E al prev u w2 w3" "in_atomic E (trace w2) a" "carries_var E a"
    and "a \<in> set al \<union> (case prev of None \<Rightarrow> {} | Some p \<Rightarrow> set (aliases_for (conf E) prev u))"
  shows "session_var E (trace w3) a (DB_SESSION_VAR (conf E)) = scoped_value (conf E) prev u a"
  using assms
  by (cases prev)
    (auto simp: left_scope_def outer_writes_def scoped_value_def aliases_for_set wrote_def in_atomic_def)

text \<open>
  C2: Leaving \<open>using()\<close> on a database without failures, on every alias of the left tenant or of the
  tenant active before, whether the block returned or raised: as many transactions are open as
  before, and the session variable reads the earlier tenant's primary key where that tenant reaches
  the alias and the empty string elsewhere, or the empty string where the scope ran without an
  ambient transaction. The block is only asked to leave its own transactions.
\<close>
theorem using_restores_session_variable:
  assumes "db_ok E" "db_laws E" "WRAP_ATOMIC (conf E)"
    and "keeps (\<lambda>w. atomic_depth E (trace w) a) body" "carries_var E a"
    and "a \<in> set (aliases_for (conf E) (Some te) u) \<union>
      (case current_tenant w of None \<Rightarrow> {} | Some p \<Rightarrow> set (aliases_for (conf E) (Some p) u))"
  shows "let w' = snd (tc_using E (Some te) u body w) in
    atomic_depth E (trace w') a = atomic_depth E (trace w) a \<and>
    session_var E (trace w') a (DB_SESSION_VAR (conf E)) =
      (if in_atomic E (trace w) a then scoped_value (conf E) (current_tenant w) u a else [])"
proof -
  let ?A = "aliases_for (conf E) (Some te) u"
  let ?al = "filter (opens E w) ?A"
  obtain w1 where w1: "wrote E (set ?A) (py_str (t_pk te))
      (w\<lparr>current_tenant := Some te, trace := enters ?al @ trace w\<rparr>) w1"
    and "\<exists>w3. left_scope E ?A (current_tenant w) u (snd (body w1)) w3 \<and>
      tc_using E (Some te) u body w = (fst (body w1), w3\<lparr>trace := exits (isl (fst (body w1))) ?al @ trace w3\<rparr>)"
    using using_run [OF assms(1-3), of te u w] by blast
  then obtain w3 where w3: "left_scope E ?A (current_tenant w) u (snd (body w1)) w3"
    and res: "snd (tc_using E (Some te) u body w) = w3\<lparr>trace := exits (isl (fst (body w1))) ?al @ trace w3\<rparr>"
    by (metis snd_conv)
  have "distinct ?al" by (simp add: aliases_for_distinct)
  note depths = depth_enters [OF assms(2) this] depth_exits [OF assms(2) this]
  have d1: "atomic_depth E (trace w1) a = (if a \<in> set ?al then Suc (atomic_depth E (trace w) a) else atomic_depth E (trace w) a)"
    using w1 depths(1) by (simp add: wrote_def)
  have d3: "atomic_depth E (trace w3) a = atomic_depth E (trace w1) a"
    using left_scope_depth [OF w3] keepsD [OF assms(4)] by simp
  have d: "atomic_depth E (exits f ?al @ trace w3) a = atomic_depth E (trace w) a" for f
    using d1 d3 depths(2) by simp
  show ?thesis
  proof (cases "in_atomic E (trace w) a")
    case True
    then have "a \<notin> set ?al" by (simp add: opens_def)
    moreover from True d1 keepsD [OF assms(4)] have "in_atomic E (trace (snd (body w1))) a"
      by (simp add: in_atomic_def)
    moreover have "a \<in> set ?A \<union> (case current_tenant w of None \<Rightarrow> {} | Some p \<Rightarrow> set (aliases_for (conf E) (current_tenant w) u))"
      using assms(6) by (auto split: option.splits)
    ultimately show ?thesis
      using True d left_scope_var [OF w3 _ assms(5)] by (simp add: Let_def res var_exits [OF assms(2)])
  next
    case False
    then show ?thesis using d var_outside [OF assms(2)] by (simp add: Let_def res in_atomic_def)
  qed
qed

theorem using_restores_session_variable_witness:
  "let outer = fresh_world\<lparr>current_tenant := Some (club 7 ''us''), trace := [(AtomicEnter ''default'', True)]\<rparr>;
       w' = snd (tc_using pg_env (Some (club 1 ''eu'')) ''default'' (raise ImproperlyConfigured :: unit comp) outer)
   in session_var pg_env (trace w') ''default'' ''app.current_tenant_id'' = ''7'' \<and>
      session_var pg_env (trace w') ''us'' ''app.current_tenant_id'' = []"
proof -
  let ?w = "fresh_world\<lparr>current_tenant := Some (club 7 ''us''), trace := [(AtomicEnter ''default'', True)]\<rparr>"
  have al: "set (aliases_for regional_settings (Some (club pk r)) ''default'') = {''default'', r}"
    if "r \<in> {''eu'', ''us''}" for pk r
    using that by (auto simp: aliases_for_set target_aliases_eq regional_alias_def)
  note th = using_restores_session_variable [of pg_env _ "raise ImproperlyConfigured :: unit comp"
      "club 1 ''eu''" "''default''" ?w]
  have "py_str (PInt 7) = ''7''" by code_simp
  with th [of "''default''"] th [of "''us''"] show ?thesis
    by (simp add: al keeps_raise carries_var_def scoped_value_def target_aliases_eq Let_def)
qed

text \<open>
  C3: Whatever the database does (a failing transaction, a failing \<open>set_config\<close> on entry or on
  exit) and whatever the block does, \<open>using()\<close> leaves the active tenant as it found it.
\<close>
theorem using_restores_active_tenant:
  "current_tenant (snd (tc_using E t u body w)) = current_tenant w"
  by (rule keepsD [OF keeps_tc_using])

text \<open>
  C32: \<open>set()\<close> is all or nothing on the active tenant (BR-CTX-008): when a database write raises,
  the exception reaches the caller and the active tenant is the earlier one; otherwise the tenant is
  active and the token is the earlier tenant.
\<close>
theorem set_rolls_back_or_activates:
  "case tc_set E t u w of
     (Inl e, w') \<Rightarrow> current_tenant w' = current_tenant w
   | (Inr token, w') \<Rightarrow> token = current_tenant w \<and> current_tenant w' = t"
  by (auto dest: tc_set_Inl tc_set_Inr split: prod.split sum.split)

lemma total_tc_clear: "total (tc_clear E token u)"
  unfolding tc_clear_def tc_get_def tc_put_def by (intro total_intros)

lemma tc_clear_run:
  assumes "db_ok E" "db_laws E"
  shows "\<exists>w3. left_scope E (case current_tenant w of None \<Rightarrow> [u] | Some p \<Rightarrow> aliases_for (conf E) (Some p) u)
      token u w w3 \<and> trace (snd (tc_clear E token u w)) = trace w3"
proof -
  let ?al = "case current_tenant w of None \<Rightarrow> [u] | Some p \<Rightarrow> aliases_for (conf E) (Some p) u"
  obtain w3 where w3: "seqc (tc_put token) (seqc (clear_best_effort E ?al) (restore_best_effort E token u)) w
      = (Inr (), w3)" "left_scope E ?al token u w w3"
    using scope_exit [OF assms] by blast
  obtain w1 where c: "clear_best_effort E ?al (w\<lparr>current_tenant := token\<rparr>) = (Inr (), w1)"
    using total_clear_best_effort by (rule totalE) auto
  with w3(1) have r: "restore_best_effort E token u w1 = (Inr (), w3)" by (simp add: seqc_Inr)
  have "(case current_tenant w of None \<Rightarrow> [u] | Some _ \<Rightarrow> aliases_for (conf E) (current_tenant w) u) = ?al"
    by (simp split: option.splits)
  with c r have "trace (snd (tc_clear E token u w)) = trace w3"
    by (simp add: tc_clear_def tc_get_def bindc_Inr [OF readc_apply] seqc_Inr log_def)
  with w3(2) show ?thesis by blast
qed

lemma current_tc_clear: "current_tenant (snd (tc_clear E token u w)) = token"
proof -
  have "keeps current_tenant (seqc (clear_best_effort E al) (seqc (restore_best_effort E p u) (log lvl msg)))"
    for al p lvl msg by (intro keeps_intros)
  from keepsD [OF this] show ?thesis
    by (simp add: tc_clear_def tc_get_def bindc_Inr [OF readc_apply])
qed

text \<open>
  \<open>clear(token)\<close> never raises, whatever the database does, and makes the token's tenant the
  active one: the tenant that was active when the matching \<open>set()\<close> was called.
\<close>
theorem clear_returns_to_token:
  "fst (tc_clear E token u w) = Inr () \<and> current_tenant (snd (tc_clear E token u w)) = token"
  using current_tc_clear by (metis fst_conv totalE [OF total_tc_clear] unit_eq)

text \<open>
  On a database without failures \<open>clear(token)\<close> also puts the session variable back (issue 13):
  inside a transaction, on each alias of the cleared or of the restored tenant, it reads the
  restored tenant's primary key if that tenant reaches the alias and the empty string otherwise.
\<close>
theorem clear_restores_session_variable:
  assumes "db_ok E" "db_laws E" "in_atomic E (trace w) a" "carries_var E a"
    and "a \<in> insert u (set (target_aliases (conf E) (current_tenant w)) \<union> set (target_aliases (conf E) token))"
    and "current_tenant w \<noteq> None"
  shows "session_var E (trace (snd (tc_clear E token u w))) a (DB_SESSION_VAR (conf E)) =
    scoped_value (conf E) token u a"
proof -
  let ?al = "case current_tenant w of None \<Rightarrow> [u] | Some p \<Rightarrow> aliases_for (conf E) (Some p) u"
  obtain w3 where w3: "left_scope E ?al token u w w3" "trace (snd (tc_clear E token u w)) = trace w3"
    using tc_clear_run [OF assms(1,2)] by blast
  have none: "set (target_aliases (conf E) None) \<subseteq> set (target_aliases (conf E) t)" for t
    by (auto simp: target_aliases_eq regional_alias_def)
  have "a \<in> set ?al \<union> (case token of None \<Rightarrow> {} | Some p \<Rightarrow> set (aliases_for (conf E) token u))"
    using assms(5,6) none [of "current_tenant w"]
    by (auto simp: aliases_for_set split: option.splits)
  with left_scope_var [OF w3(1) assms(3,4)] w3(2) show ?thesis by simp
qed

theorem clear_restores_session_variable_witness:
  "session_var pg_env
     (trace (snd (tc_clear pg_env (Some (club 7 ''us'')) ''default''
       (fresh_world\<lparr>current_tenant := Some (club 1 ''eu''), trace := [(AtomicEnter ''default'', True)]\<rparr>))))
     ''default'' ''app.current_tenant_id'' = ''7''"
proof -
  have "py_str (PInt 7) = ''7''" by code_simp
  with clear_restores_session_variable [of pg_env "fresh_world\<lparr>current_tenant := Some (club 1 ''eu''),
      trace := [(AtomicEnter ''default'', True)]\<rparr>" "''default''" "''default''" "Some (club 7 ''us'')"]
  show ?thesis by (simp add: carries_var_def scoped_value_def)
qed

text \<open>
  A \<open>set()\<close> that fails on the regional alias has already written the base alias: the exception
  is raised and the active tenant rolled back, yet inside the caller's transaction the base alias
  keeps the new tenant's primary key in the session variable.
\<close>
theorem failed_set_leaves_first_alias:
  assumes "db_laws E" "carries_var E ''default''" "in_atomic E (trace w) ''default''"
    and "regional_alias (conf E) (Some te) = Some r" "carries_var E r" "in_atomic E (trace w) r"
    and "\<exists>x. react E (trace w) (SetConfig ''default'' (DB_SESSION_VAR (conf E)) (py_str (t_pk te))) = Inr x"
    and "\<And>tr. react E tr (SetConfig r (DB_SESSION_VAR (conf E)) (py_str (t_pk te))) = Inl e"
  shows "let res = tc_set E (Some te) ''default'' w in
    fst res = Inl (as_exception e) \<and> current_tenant (snd res) = current_tenant w \<and>
    in_atomic E (trace (snd res)) ''default'' \<and>
    session_var E (trace (snd res)) ''default'' (DB_SESSION_VAR (conf E)) = py_str (t_pk te)"
proof -
  let ?v = "DB_SESSION_VAR (conf E)" and ?x = "py_str (t_pk te)"
  have r: "r \<noteq> ''default''" using assms(4) by (simp add: regional_alias_Some)
  have al: "aliases_for (conf E) (Some te) ''default'' = [''default'', r]"
    using r by (simp add: aliases_for_def target_aliases_eq assms(4))
  have pg: "is_postgresql E a = ret True" if "carries_var E a" for a
    using that by (simp add: is_postgresql_def carries_var_def)
  have opened: "conn_open E (trace w) ''default''" by (rule in_atomic_open [OF assms(1,3)])
  let ?tr = "(SetConfig ''default'' ?v ?x, True) # trace w"
  let ?w0 = "w\<lparr>current_tenant := Some te\<rparr>"
  have opened_r: "conn_open E ?tr r"
    using assms(6) by (intro in_atomic_open [OF assms(1)]) (simp add: in_atomic_other [OF assms(1)])
  have first: "set_db_session E ?x ''default'' ?w0 = (Inr (), ?w0\<lparr>trace := ?tr\<rparr>)"
    using assms(2,7) opened
    by (auto simp: set_db_session_def pg carries_var_def performs_def perform_def seqc_def bindc_def)
  have second: "set_db_session E ?x r (?w0\<lparr>trace := ?tr\<rparr>) =
      (Inl (as_exception e), ?w0\<lparr>trace := (SetConfig r ?v ?x, False) # ?tr\<rparr>)"
    using assms(5,8) opened_r
    by (auto simp: set_db_session_def pg carries_var_def performs_def perform_def seqc_def bindc_def)
  have "tc_write_session E (Some te) ''default'' ?w0 = (Inl (as_exception e), ?w0\<lparr>trace := (SetConfig r ?v ?x, False) # ?tr\<rparr>)"
    by (simp add: tc_write_session_def al seqc_def bindc_def first second)
  then have res: "tc_set E (Some te) ''default'' w =
      (Inl (as_exception e), w\<lparr>current_tenant := current_tenant w, trace := (SetConfig r ?v ?x, False) # ?tr\<rparr>)"
    by (simp add: tc_set_def tc_get_def bindc_Inr [OF readc_apply] try_except_def seqc_def [of "try_except _ _"]
        bindc_def)
  have "in_atomic E ?tr ''default''" using assms(3) by (simp add: in_atomic_other [OF assms(1)])
  moreover have "session_var E ((SetConfig r ?v ?x, False) # ?tr) ''default'' ?v = ?x"
    using r assms(3) by (subst var_other [OF assms(1)]) (auto simp: in_atomic_def intro: var_set [OF assms(1)])
  ultimately show ?thesis
    using r by (simp add: res Let_def in_atomic_other [OF assms(1)])
qed

text \<open>The connections by replay, except that a write on the alias \<open>us\<close> raises.\<close>

definition failing_us :: env where
  "failing_us = pg_env\<lparr>react := (\<lambda>tr ev. case ev of
     SetConfig a v x \<Rightarrow> if a = ''us'' then Inl (OperationalError ''server closed the connection'') else Inr None
   | _ \<Rightarrow> replay_react tr ev)\<rparr>"

theorem failed_set_leaves_first_alias_witness:
  "let w = fresh_world\<lparr>trace := [(AtomicEnter ''us'', True), (AtomicEnter ''default'', True)]\<rparr>;
       res = tc_set failing_us (Some (club 7 ''us'')) ''default'' w
   in isl (fst res) \<and> current_tenant (snd res) = None \<and>
      session_var failing_us (trace (snd res)) ''default'' ''app.current_tenant_id'' = ''7''"
proof -
  have "py_str (PInt 7) = ''7''" by code_simp
  with failed_set_leaves_first_alias [of failing_us
      "fresh_world\<lparr>trace := [(AtomicEnter ''us'', True), (AtomicEnter ''default'', True)]\<rparr>"
      "club 7 ''us''" "''us''" "OperationalError ''server closed the connection''"]
  show ?thesis
    by (simp add: failing_us_def carries_var_def in_atomic_def regional_alias_def Let_def)
qed

section \<open>The admin bypass\<close>

lemma fails_with_cm: "fails body \<Longrightarrow> fails (with_cm E c body)"
  by (cases c)
    (auto simp: fails_def with_cm_def seqc_def bindc_def split: prod.splits sum.splits, metis fst_conv)

lemma with_one: "bindc (ensure_atomic E u) (\<lambda>c. with_cm E c body) = with_stack E [u] body"
  by simp

text \<open>What the flag's read-back must not be for the bypass to refuse.\<close>

lemma admin_block_unconfirmed:
  assumes "\<And>tr. react E tr (CurrentSetting u (ADMIN_FLAG_VAR (conf E))) \<noteq> Inr (Some ''true'')"
  shows "admin_block E u ac body =
    seqc (performs E (SetConfig u (ADMIN_FLAG_VAR (conf E)) ''true''))
      (bindc (perform E (CurrentSetting u (ADMIN_FLAG_VAR (conf E))))
        (\<lambda>_. raise (AdminBypassNotActiveError (ADMIN_FLAG_VAR (conf E)) u)))"
proof -
  have "x \<noteq> Some ''true''" if "perform E (CurrentSetting u (ADMIN_FLAG_VAR (conf E))) w = (Inr x, w')" for w x w'
    using assms [of "trace w"] that by (auto simp: perform_def split: sum.splits)
  then show ?thesis
    unfolding admin_block_def by (intro arg_cong2 [where f = seqc] refl bindc_cong_values) auto
qed

text \<open>
  C11: On a PostgreSQL alias whose flag never reads back \<open>'true'\<close>, \<open>admin_bypass\<close> raises, and the
  block is not run: result and state are the same for any two blocks. Beyond the alias being PostgreSQL
  (on any other the block runs without a flag) nothing is assumed of the database, of transactions or of
  the signal receivers, which may all fail.
\<close>
theorem admin_bypass_refuses_unconfirmed_flag:
  assumes "db_vendor E u = Some ''postgresql''"
    and "\<And>tr. react E tr (CurrentSetting u (ADMIN_FLAG_VAR (conf E))) \<noteq> Inr (Some ''true'')"
  shows "isl (fst (admin_bypass E u body w)) \<and> admin_bypass E u body w = admin_bypass E u body' w"
proof -
  have "fails (admin_block E u ac body)" for ac
    unfolding admin_block_unconfirmed [OF assms(2)] by (intro fails_seqc fails_bindc fails_raise)
  then have "fails (admin_bypass E u body)"
    using assms(1) unfolding admin_bypass_def Let_def
    by (simp add: is_postgresql_def fails_bindc fails_seqc fails_try_finally fails_with_cm)
  moreover have "admin_bypass E u body = admin_bypass E u body'"
    using assms by (simp add: admin_bypass_def admin_block_unconfirmed is_postgresql_def)
  ultimately show ?thesis by (simp add: fails_def)
qed

text \<open>With \<open>WRAP_ATOMIC\<close> off and no transaction, the replayed flag is gone before it is read.\<close>

theorem admin_bypass_refuses_unconfirmed_flag_witness:
  "isl (fst (admin_bypass (pg_env\<lparr>react := (\<lambda>_ _. Inr (Some []))\<rparr>) ''default''
     (raise ImproperlyConfigured :: unit comp) fresh_world))"
  by (rule admin_bypass_refuses_unconfirmed_flag [THEN conjunct1]) simp_all

text \<open>
  Whatever the block and the database do, leaving \<open>admin_bypass\<close> on a PostgreSQL alias puts the
  nesting depths back, so a later call sees whether it is the outermost one.
\<close>
theorem admin_bypass_restores_depth:
  assumes "db_vendor E u = Some ''postgresql''"
  shows "admin_bypass_depth (snd (admin_bypass E u body w)) = admin_bypass_depth w"
proof -
  have "admin_bypass_depth (snd (try_finally m (writec (\<lambda>w. w\<lparr>admin_bypass_depth := d\<rparr>)) w')) = d"
    for m :: "'a comp" and d w'
    by (rule try_finally_keeps_only_fin) simp
  then show ?thesis
    using assms by (simp add: admin_bypass_def is_postgresql_def Let_def seqc_def bindc_def)
qed

theorem admin_bypass_restores_depth_witness:
  "admin_bypass_depth (snd (admin_bypass pg_env ''default'' (raise ImproperlyConfigured :: unit comp)
     (fresh_world\<lparr>admin_bypass_depth := Some [(''eu'', 1)]\<rparr>))) = Some [(''eu'', 1)]"
  using admin_bypass_restores_depth [of pg_env "''default''" "raise ImproperlyConfigured :: unit comp"
      "fresh_world\<lparr>admin_bypass_depth := Some [(''eu'', 1)]\<rparr>"] by simp

definition entry_depth :: "world \<Rightarrow> string \<Rightarrow> nat" where
  "entry_depth w u = depth_of (case admin_bypass_depth w of None \<Rightarrow> [] | Some d \<Rightarrow> d) u"

lemma admin_block_run:
  assumes ok: "db_ok E" and rb: "reads_back E" and laws: "db_laws E" and tx: "in_atomic E (trace w) u"
  shows "\<exists>l. \<forall>body :: 'a comp. admin_block E u ac body w =
    (let w1 = w\<lparr>trace :=
           (SendSignal (AdminBypassActivated (ADMIN_FLAG_VAR (conf E)) u), True) #
           (CurrentSetting u (ADMIN_FLAG_VAR (conf E)), True) #
           (SetConfig u (ADMIN_FLAG_VAR (conf E)) ''true'', True) # trace w, logs := l\<rparr>;
         r = body w1
     in (fst r, if ac then snd r
                else (snd r)\<lparr>trace := (SetConfig u (ADMIN_FLAG_VAR (conf E)) [], True) # trace (snd r)\<rparr>))"
proof -
  let ?f = "ADMIN_FLAG_VAR (conf E)"
  let ?w2 = "w\<lparr>trace := (SetConfig u ?f ''true'', True) # trace w\<rparr>"
  let ?w3 = "?w2\<lparr>trace := (CurrentSetting u ?f, True) # trace ?w2\<rparr>"
  have "session_var E (trace ?w2) u ?f = ''true''"
    using tx by (simp add: in_atomic_def var_set [OF laws])
  then have "perform E (CurrentSetting u ?f) ?w2 = (Inr (Some ''true''), ?w3)"
    using rb by (simp add: perform_def reads_back_def)
  moreover have "clear_admin_flag E u w' = (Inr (), w'\<lparr>trace := (SetConfig u ?f [], True) # trace w'\<rparr>)" for w'
    by (simp add: clear_admin_flag_def try_except_Inr performs_ok [OF ok])
  ultimately have "\<forall>body :: 'a comp. admin_block E u ac body w =
    (let w1 = w\<lparr>trace :=
           (SendSignal (AdminBypassActivated ?f u), True) # (CurrentSetting u ?f, True) #
           (SetConfig u ?f ''true'', True) # trace w,
           logs := (LogWarning, ''RLS admin bypass activated'') # logs w\<rparr>;
         r = body w1
     in (fst r, if ac then snd r
                else (snd r)\<lparr>trace := (SetConfig u ?f [], True) # trace (snd r)\<rparr>))"
    by (auto simp: admin_block_def announce_bypass_def seqc_Inr bindc_Inr performs_ok [OF ok]
        log_def Let_def intro!: try_finally_Inr [THEN trans])
  then show ?thesis by blast
qed

lemma admin_bypass_run:
  assumes ok: "db_ok E" and rb: "reads_back E" and laws: "db_laws E" and wrap: "WRAP_ATOMIC (conf E)"
    and pg: "db_vendor E u = Some ''postgresql''"
  shows "\<exists>d l. depth_of d u = Suc (entry_depth w u) \<and> (\<forall>body :: 'a comp. admin_bypass E u body w =
    (let w1 = w\<lparr>admin_bypass_depth := Some d, trace :=
           (SendSignal (AdminBypassActivated (ADMIN_FLAG_VAR (conf E)) u), True) #
           (CurrentSetting u (ADMIN_FLAG_VAR (conf E)), True) #
           (SetConfig u (ADMIN_FLAG_VAR (conf E)) ''true'', True) #
           enters (filter (opens E w) [u]) @ trace w, logs := l\<rparr>;
         r = body w1;
         w2 = (if 0 < entry_depth w u then snd r
               else (snd r)\<lparr>trace := (SetConfig u (ADMIN_FLAG_VAR (conf E)) [], True) # trace (snd r)\<rparr>)
     in (fst r, w2\<lparr>trace := exits (isl (fst r)) (filter (opens E w) [u]) @ trace w2,
                   admin_bypass_depth := admin_bypass_depth w\<rparr>)))"
proof -
  let ?d0 = "case admin_bypass_depth w of None \<Rightarrow> [] | Some d \<Rightarrow> d"
  let ?d = "dict_set u (depth_of ?d0 u + 1) ?d0"
  let ?w0 = "w\<lparr>admin_bypass_depth := Some ?d\<rparr>"
  let ?al = "filter (opens E w) [u]"
  have al: "opens E ?w0 = opens E w" by (rule ext) (simp add: opens_def)
  obtain l where stack: "\<forall>body :: 'a comp. with_stack E [u] body ?w0 =
    (let r = body (?w0\<lparr>logs := l, trace := enters ?al @ trace ?w0\<rparr>) in
      (fst r, (snd r)\<lparr>trace := exits (isl (fst r)) ?al @ trace (snd r)\<rparr>))"
    using with_stack_ok [OF ok laws wrap distinct_singleton, of u ?w0, where 'a = 'a]
    unfolding al by blast
  let ?w1 = "?w0\<lparr>logs := l, trace := enters ?al @ trace w\<rparr>"
  have tx: "in_atomic E (trace ?w1) u"
    using pg by (auto simp: opens_def enters_def in_atomic_enter [OF laws])
  obtain l' where blk: "\<forall>body :: 'a comp. admin_block E u (0 < entry_depth w u) body ?w1 =
    (let w1 = ?w1\<lparr>trace :=
           (SendSignal (AdminBypassActivated (ADMIN_FLAG_VAR (conf E)) u), True) #
           (CurrentSetting u (ADMIN_FLAG_VAR (conf E)), True) #
           (SetConfig u (ADMIN_FLAG_VAR (conf E)) ''true'', True) # trace ?w1, logs := l'\<rparr>;
         r = body w1
     in (fst r, if 0 < entry_depth w u then snd r
                else (snd r)\<lparr>trace := (SetConfig u (ADMIN_FLAG_VAR (conf E)) [], True) # trace (snd r)\<rparr>))"
    using admin_block_run [OF ok rb laws tx, where 'a = 'a] by blast
  have "depth_of ?d u = Suc (entry_depth w u)" by (simp add: depth_of_def entry_depth_def)
  moreover have "admin_bypass E u body w =
      (let r = with_stack E [u] (admin_block E u (0 < entry_depth w u) body) ?w0
       in (fst r, (snd r)\<lparr>admin_bypass_depth := admin_bypass_depth w\<rparr>))" for body :: "'a comp"
    by (simp add: admin_bypass_def is_postgresql_def pg Let_def with_one bindc_Inr seqc_Inr entry_depth_def
        del: with_stack.simps) (rule try_finally_Inr [THEN trans], simp_all)
  then have "admin_bypass E u body w =
      (let r = admin_block E u (0 < entry_depth w u) body ?w1;
           w2 = (snd r)\<lparr>trace := exits (isl (fst r)) ?al @ trace (snd r)\<rparr>
       in (fst r, w2\<lparr>admin_bypass_depth := admin_bypass_depth w\<rparr>))" for body :: "'a comp"
    unfolding stack [rule_format] by (simp only: Let_def fst_conv snd_conv) simp
  ultimately show ?thesis
    unfolding blk [rule_format]
    by (intro exI [of _ ?d] exI [of _ l']) (simp add: Let_def del: filter.simps split del: if_split)
qed

lemma bypass_entry_var:
  assumes "db_laws E" "db_vendor E u = Some ''postgresql''"
  shows "let tr = (SendSignal sg, True) # (CurrentSetting u f, True) # (SetConfig u f ''true'', True) #
           enters (filter (opens E w) [u]) @ trace w
    in in_atomic E tr u \<and> session_var E tr u f = ''true'' \<and>
       atomic_depth E tr u = (if opens E w u then Suc (atomic_depth E (trace w) u) else atomic_depth E (trace w) u)"
proof -
  let ?tr = "enters (filter (opens E w) [u]) @ trace w"
  have "atomic_depth E ?tr u = (if opens E w u then Suc (atomic_depth E (trace w) u) else atomic_depth E (trace w) u)"
    by (subst depth_enters [OF assms(1)]) auto
  moreover from this have "0 < atomic_depth E ?tr u"
    using assms(2) by (auto simp: opens_def in_atomic_def)
  ultimately show ?thesis
    by (simp add: Let_def in_atomic_def depth_other [OF assms(1)] var_other [OF assms(1)]
        var_set [OF assms(1)] del: filter.simps)
qed

text \<open>
  C10: On a database without failures and with \<open>BOUNDARY_WRAP_ATOMIC\<close> on, the block of
  \<open>admin_bypass\<close> on a PostgreSQL alias runs in one fixed state: a transaction is open on the alias,
  the flag reads \<open>'true'\<close> in it, the nesting depth is one more than outside and the active tenant is
  unchanged; the caller gets the block's own value or exception.
\<close>
theorem admin_bypass_runs_block_with_flag:
  assumes "db_ok E" "reads_back E" "db_laws E" "WRAP_ATOMIC (conf E)" "db_vendor E u = Some ''postgresql''"
  shows "\<exists>w1. in_atomic E (trace w1) u \<and> session_var E (trace w1) u (ADMIN_FLAG_VAR (conf E)) = ''true'' \<and>
    entry_depth w1 u = Suc (entry_depth w u) \<and> current_tenant w1 = current_tenant w \<and>
    (\<forall>body :: 'a comp. fst (admin_bypass E u body w) = fst (body w1))"
proof -
  obtain d l where d: "depth_of d u = Suc (entry_depth w u)"
    and run: "\<forall>body :: 'a comp. fst (admin_bypass E u body w) = fst (body (w\<lparr>admin_bypass_depth := Some d, trace :=
           (SendSignal (AdminBypassActivated (ADMIN_FLAG_VAR (conf E)) u), True) #
           (CurrentSetting u (ADMIN_FLAG_VAR (conf E)), True) #
           (SetConfig u (ADMIN_FLAG_VAR (conf E)) ''true'', True) #
           enters (filter (opens E w) [u]) @ trace w, logs := l\<rparr>))" (is "\<forall>body. _ = fst (body ?w1)")
    using admin_bypass_run [OF assms, where 'a = 'a] by (metis fst_conv)
  show ?thesis
    using bypass_entry_var [OF assms(3,5), of "AdminBypassActivated (ADMIN_FLAG_VAR (conf E)) u"
        "ADMIN_FLAG_VAR (conf E)" w] d
    by (intro exI [of _ ?w1]) (simp add: run Let_def entry_depth_def del: filter.simps)
qed

theorem admin_bypass_runs_block_with_flag_witness:
  "\<exists>w1. session_var pg_env (trace w1) ''default'' ''app.boundary_admin'' = ''true'' \<and>
    (\<forall>body :: unit comp. fst (admin_bypass pg_env ''default'' body fresh_world) = fst (body w1))"
  using admin_bypass_runs_block_with_flag [of pg_env "''default''" fresh_world, where 'a = unit] by auto

text \<open>
  C12: Leaving \<open>admin_bypass\<close> on a PostgreSQL alias, on a database without failures and with
  \<open>BOUNDARY_WRAP_ATOMIC\<close> on, for every block (returning or raising, and with further bypasses inside)
  that closes the transactions it opened on the alias: as many are open as before, the nesting depths
  are as before, and the flag reads empty unless the call was nested in another bypass of the alias in
  an open transaction; then it is left as the block left it, which the block found at \<open>'true'\<close>. So only
  the outermost call turns the flag off.
\<close>
theorem admin_bypass_outermost_clears_flag:
  assumes "db_ok E" "reads_back E" "db_laws E" "WRAP_ATOMIC (conf E)" "db_vendor E u = Some ''postgresql''"
  shows "\<exists>w1. session_var E (trace w1) u (ADMIN_FLAG_VAR (conf E)) = ''true'' \<and> in_atomic E (trace w1) u \<and>
    entry_depth w1 u = Suc (entry_depth w u) \<and>
    (\<forall>body :: 'a comp. let w2 = snd (body w1); w' = snd (admin_bypass E u body w) in
      fst (admin_bypass E u body w) = fst (body w1) \<and>
      (atomic_depth E (trace w2) u = atomic_depth E (trace w1) u \<longrightarrow>
        atomic_depth E (trace w') u = atomic_depth E (trace w) u \<and>
        admin_bypass_depth w' = admin_bypass_depth w \<and>
        session_var E (trace w') u (ADMIN_FLAG_VAR (conf E)) =
          (if in_atomic E (trace w) u \<and> 0 < entry_depth w u
           then session_var E (trace w2) u (ADMIN_FLAG_VAR (conf E)) else [])))"
proof -
  let ?f = "ADMIN_FLAG_VAR (conf E)" and ?al = "filter (opens E w) [u]"
  obtain d l where d: "depth_of d u = Suc (entry_depth w u)" and run: "\<forall>body :: 'a comp. admin_bypass E u body w =
    (let w1 = w\<lparr>admin_bypass_depth := Some d, trace :=
           (SendSignal (AdminBypassActivated ?f u), True) # (CurrentSetting u ?f, True) #
           (SetConfig u ?f ''true'', True) # enters ?al @ trace w, logs := l\<rparr>;
         r = body w1;
         w2 = (if 0 < entry_depth w u then snd r
               else (snd r)\<lparr>trace := (SetConfig u ?f [], True) # trace (snd r)\<rparr>)
     in (fst r, w2\<lparr>trace := exits (isl (fst r)) ?al @ trace w2, admin_bypass_depth := admin_bypass_depth w\<rparr>))"
    using admin_bypass_run [OF assms(1-5), where 'a = 'a] by blast
  define w1 where "w1 = w\<lparr>admin_bypass_depth := Some d, trace :=
           (SendSignal (AdminBypassActivated ?f u), True) # (CurrentSetting u ?f, True) #
           (SetConfig u ?f ''true'', True) # enters ?al @ trace w, logs := l\<rparr>"
  have e: "session_var E (trace w1) u ?f = ''true''" "in_atomic E (trace w1) u"
    "atomic_depth E (trace w1) u = (if opens E w u then Suc (atomic_depth E (trace w) u) else atomic_depth E (trace w) u)"
    using bypass_entry_var [OF assms(3,5)] by (simp_all add: w1_def Let_def del: filter.simps)
  have depth: "entry_depth w1 u = Suc (entry_depth w u)" by (simp add: w1_def entry_depth_def d)
  have "distinct ?al" by simp
  note dx = depth_exits [OF assms(3) this]
  show ?thesis
  proof (intro exI [of _ w1] conjI allI, rule e(1), rule e(2), rule depth)
    fix body :: "'a comp"
    define w2 where "w2 = (if 0 < entry_depth w u then snd (body w1)
                 else (snd (body w1))\<lparr>trace := (SetConfig u ?f [], True) # trace (snd (body w1))\<rparr>)"
    have res: "trace (snd (admin_bypass E u body w)) = exits (isl (fst (body w1))) ?al @ trace w2"
      "admin_bypass_depth (snd (admin_bypass E u body w)) = admin_bypass_depth w"
      "fst (admin_bypass E u body w) = fst (body w1)"
      by (simp_all add: run w1_def [symmetric] w2_def Let_def del: filter.simps split del: if_split)
    have left: "atomic_depth E (trace (snd (admin_bypass E u body w))) u = atomic_depth E (trace w) u \<and>
        session_var E (trace (snd (admin_bypass E u body w))) u ?f =
          (if in_atomic E (trace w) u \<and> 0 < entry_depth w u then session_var E (trace (snd (body w1))) u ?f else [])"
      if b: "atomic_depth E (trace (snd (body w1))) u = atomic_depth E (trace w1) u"
    proof -
      have "atomic_depth E (trace w2) u = atomic_depth E (trace w1) u"
        using b by (simp add: w2_def depth_other [OF assms(3)])
      then have dep: "atomic_depth E (exits g ?al @ trace w2) u = atomic_depth E (trace w) u" for g
        using dx e(3) by auto
      show ?thesis
      proof (cases "in_atomic E (trace w) u")
        case True
        then have no: "u \<notin> set ?al" by (simp add: opens_def)
        from e(2) b have "0 < atomic_depth E (trace (snd (body w1))) u" by (simp add: in_atomic_def)
        then have "session_var E (trace w2) u ?f =
            (if 0 < entry_depth w u then session_var E (trace (snd (body w1))) u ?f else [])"
          by (simp add: w2_def var_set [OF assms(3)])
        then show ?thesis using True dep
          by (simp add: res(1) var_exits [OF assms(3) no] del: filter.simps)
      next
        case False
        then show ?thesis using dep var_outside [OF assms(3)]
          by (simp add: res(1) in_atomic_def del: filter.simps)
      qed
    qed
    show "let w2 = snd (body w1); w' = snd (admin_bypass E u body w) in
      fst (admin_bypass E u body w) = fst (body w1) \<and>
      (atomic_depth E (trace w2) u = atomic_depth E (trace w1) u \<longrightarrow>
        atomic_depth E (trace w') u = atomic_depth E (trace w) u \<and>
        admin_bypass_depth w' = admin_bypass_depth w \<and>
        session_var E (trace w') u ?f =
          (if in_atomic E (trace w) u \<and> 0 < entry_depth w u then session_var E (trace w2) u ?f else []))"
      unfolding Let_def using left res(2,3) by blast
  qed
qed

text \<open>
  A bypass inside another in one transaction: leaving the inner one the flag still reads \<open>'true'\<close>,
  leaving the outer one it reads empty.
\<close>

theorem admin_bypass_outermost_clears_flag_witness:
  "let w = fresh_world\<lparr>trace := [(AtomicEnter ''default'', True)]\<rparr>;
       inner = admin_bypass pg_env ''default'' (raise ImproperlyConfigured :: unit comp)
   in session_var pg_env (trace (snd (admin_bypass pg_env ''default'' inner w))) ''default'' ''app.boundary_admin'' = [] \<and>
      (\<exists>w1. session_var pg_env (trace (snd (inner w1))) ''default'' ''app.boundary_admin'' = ''true'' \<and>
        fst (admin_bypass pg_env ''default'' inner w) = fst (inner w1))"
proof -
  let ?w = "fresh_world\<lparr>trace := [(AtomicEnter ''default'', True)]\<rparr>" and ?f = "''app.boundary_admin''"
  let ?inner = "admin_bypass pg_env ''default'' (raise ImproperlyConfigured :: unit comp)"
  have pg: "db_ok pg_env" "reads_back pg_env" "db_laws pg_env" "WRAP_ATOMIC (conf pg_env)"
    "db_vendor pg_env ''default'' = Some ''postgresql''" and f: "ADMIN_FLAG_VAR (conf pg_env) = ?f"
    by simp_all
  note call = admin_bypass_outermost_clears_flag [where 'a = unit, OF pg, unfolded f Let_def]
  obtain w1 where w1: "in_atomic pg_env (trace w1) ''default''" "entry_depth w1 ''default'' = Suc (entry_depth ?w ''default'')"
    and outer: "\<And>body :: unit comp. fst (admin_bypass pg_env ''default'' body ?w) = fst (body w1)"
      "\<And>body :: unit comp. atomic_depth pg_env (trace (snd (body w1))) ''default'' = atomic_depth pg_env (trace w1) ''default''
        \<Longrightarrow> session_var pg_env (trace (snd (admin_bypass pg_env ''default'' body ?w))) ''default'' ?f =
          (if in_atomic pg_env (trace ?w) ''default'' \<and> 0 < entry_depth ?w ''default''
           then session_var pg_env (trace (snd (body w1))) ''default'' ?f else [])"
    using call [of ?w] by blast
  obtain w2 where w2: "session_var pg_env (trace w2) ''default'' ?f = ''true''"
    and body: "\<And>body :: unit comp. atomic_depth pg_env (trace (snd (body w2))) ''default'' = atomic_depth pg_env (trace w2) ''default''
        \<Longrightarrow> atomic_depth pg_env (trace (snd (admin_bypass pg_env ''default'' body w1))) ''default''
              = atomic_depth pg_env (trace w1) ''default'' \<and>
            session_var pg_env (trace (snd (admin_bypass pg_env ''default'' body w1))) ''default'' ?f =
          (if in_atomic pg_env (trace w1) ''default'' \<and> 0 < entry_depth w1 ''default''
           then session_var pg_env (trace (snd (body w2))) ''default'' ?f else [])"
    using call [of w1] by blast
  have inner: "atomic_depth pg_env (trace (snd (?inner w1))) ''default'' = atomic_depth pg_env (trace w1) ''default''"
    "session_var pg_env (trace (snd (?inner w1))) ''default'' ?f = ''true''"
    using body [of "raise ImproperlyConfigured"] w1 w2 by simp_all
  have "entry_depth ?w ''default'' = 0" by (simp add: entry_depth_def depth_of_def)
  with outer(2) [of ?inner] inner(1) have "session_var pg_env (trace (snd (admin_bypass pg_env ''default'' ?inner ?w))) ''default'' ?f = []"
    by simp
  with outer(1) [of ?inner] inner(2) show ?thesis unfolding Let_def by blast
qed

text \<open>
  A receiver of \<open>admin_bypass_activated\<close> that raises stops the block from running, and the flag
  it announced stays on: inside the caller's transaction it still reads \<open>'true'\<close> after
  \<open>admin_bypass\<close> has raised, while the nesting depths say no bypass is active.
\<close>
theorem raising_receiver_leaves_flag_on:
  assumes "db_laws E" "reads_back E" "db_vendor E u = Some ''postgresql''" "in_atomic E (trace w) u"
    and "\<And>tr x. \<exists>y. react E tr (SetConfig u (ADMIN_FLAG_VAR (conf E)) x) = Inr y"
    and "\<And>tr sg. react E tr (SendSignal sg) = Inl e"
  shows "let res = admin_bypass E u body w in
    fst res = Inl (as_exception e) \<and> in_atomic E (trace (snd res)) u \<and>
    session_var E (trace (snd res)) u (ADMIN_FLAG_VAR (conf E)) = ''true'' \<and>
    admin_bypass_depth (snd res) = admin_bypass_depth w"
proof -
  let ?f = "ADMIN_FLAG_VAR (conf E)"
  let ?ev = "SendSignal (AdminBypassActivated ?f u)"
  let ?tr = "(CurrentSetting u ?f, True) # (SetConfig u ?f ''true'', True) # trace w"
  have flag: "session_var E ((SetConfig u ?f ''true'', True) # tr) u ?f = ''true''" if "in_atomic E tr u" for tr
    using that by (simp add: in_atomic_def var_set [OF assms(1)])
  have "admin_block E u ac body w' = (Inl (as_exception e), w'\<lparr>trace := (?ev, False) # ?tr\<rparr>)" if "trace w' = trace w" for ac w'
  proof -
    have "performs E (SetConfig u ?f ''true'') w' = (Inr (), w'\<lparr>trace := (SetConfig u ?f ''true'', True) # trace w\<rparr>)"
      using assms(5) [of "trace w" "''true''"] that by (auto simp: performs_def perform_def seqc_def bindc_def)
    moreover have "perform E (CurrentSetting u ?f) (w'\<lparr>trace := (SetConfig u ?f ''true'', True) # trace w\<rparr>)
        = (Inr (Some ''true''), w'\<lparr>trace := ?tr\<rparr>)"
      using assms(2,4) by (simp add: perform_def reads_back_def flag)
    moreover have "announce_bypass E u msg (w'\<lparr>trace := ?tr\<rparr>) = (Inl (as_exception e), w'\<lparr>trace := (?ev, False) # ?tr\<rparr>)" for msg
      by (simp add: announce_bypass_def performs_def perform_def seqc_def bindc_def assms(6))
    ultimately show ?thesis by (simp add: admin_block_def seqc_def bindc_def)
  qed
  moreover have "ensure_atomic E u w' = (Inr NullContext, w')" if "trace w' = trace w" for w'
    using assms(3,4) that by (simp add: ensure_atomic_def bindc_def seqc_def)
  ultimately have "admin_bypass E u body w =
      (Inl (as_exception e), w\<lparr>trace := (?ev, False) # ?tr, admin_bypass_depth := admin_bypass_depth w\<rparr>)"
    by (simp add: admin_bypass_def is_postgresql_def assms(3) Let_def seqc_Inr bindc_def try_finally_def with_cm_def)
  moreover have "in_atomic E ((?ev, False) # ?tr) u"
    using assms(4) by (simp add: in_atomic_other [OF assms(1)])
  moreover have "session_var E ((?ev, False) # ?tr) u ?f = ''true''"
    using flag [OF assms(4)] by (simp add: var_other [OF assms(1)])
  ultimately show ?thesis by (simp add: Let_def)
qed

text \<open>The connections by replay, with a signal receiver that raises.\<close>

definition raising_receiver :: env where
  "raising_receiver = pg_env\<lparr>react := (\<lambda>tr ev. case ev of
     SendSignal sg \<Rightarrow> Inl (PyValueError ''audit sink down'') | _ \<Rightarrow> replay_react tr ev)\<rparr>"

theorem raising_receiver_leaves_flag_on_witness:
  "let res = admin_bypass raising_receiver ''default'' (ret ())
       (fresh_world\<lparr>trace := [(AtomicEnter ''default'', True)]\<rparr>)
   in isl (fst res) \<and>
      session_var raising_receiver (trace (snd res)) ''default'' ''app.boundary_admin'' = ''true''"
  using raising_receiver_leaves_flag_on [of raising_receiver "''default''"
      "fresh_world\<lparr>trace := [(AtomicEnter ''default'', True)]\<rparr>" "PyValueError ''audit sink down''" "ret ()"]
  by (simp add: raising_receiver_def in_atomic_def reads_back_def replay_react_def Let_def)

section \<open>set() and clear() around a block\<close>

text \<open>
  The pattern of the callers that use the explicit interface (middleware, Celery):
  \<open>token = set(tenant)\<close>, then \<open>try: ... finally: clear(token)\<close>.
\<close>

definition set_and_clear :: "env \<Rightarrow> tenant \<Rightarrow> (tenant option \<Rightarrow> 'a comp) \<Rightarrow> 'a comp" where
  "set_and_clear E t body =
     bindc (tc_set E (Some t) ''default'') (\<lambda>token. try_finally (body token) (tc_clear E token ''default''))"

lemma keeps_set_and_clear: "keeps current_tenant (set_and_clear E t body)"
proof -
  have "current_tenant (snd (set_and_clear E t body w)) = current_tenant w" for w
  proof (cases "tc_set E (Some t) ''default'' w")
    case (Pair r w1)
    show ?thesis
    proof (cases r)
      case (Inl e)
      with Pair tc_set_Inl show ?thesis by (auto simp: set_and_clear_def bindc_def)
    next
      case (Inr token)
      with Pair have "token = current_tenant w" by (auto dest: tc_set_Inr(1))
      with Pair Inr show ?thesis
        by (simp add: set_and_clear_def bindc_def
            try_finally_keeps_only_fin [where f = current_tenant, OF current_tc_clear])
    qed
  qed
  then show ?thesis by (simp add: keeps_def)
qed

text \<open>
  What a caller that opens a transaction on \<open>default\<close> only gets: the block runs with the tenant
  active, the variable set on \<open>default\<close>, and on an alias outside a transaction no variable.
\<close>

lemma set_and_clear_run:
  assumes "db_ok E" "db_laws E"
  shows "\<exists>w1. current_tenant w1 = Some t \<and> region_override w1 = region_override w \<and>
    (\<forall>a. atomic_depth E (trace w1) a = atomic_depth E (trace w) a) \<and>
    (\<forall>a. in_atomic E (trace w) a \<and> a \<in> set (target_aliases (conf E) (Some t)) \<and> carries_var E a \<longrightarrow>
       session_var E (trace w1) a (DB_SESSION_VAR (conf E)) = py_str (t_pk t)) \<and>
    (\<forall>body :: tenant option \<Rightarrow> 'a comp.
       fst (set_and_clear E t body w) = fst (body (current_tenant w) w1))"
proof -
  obtain w1 where w1: "tc_set E (Some t) ''default'' w = (Inr (current_tenant w), w1)"
    "wrote E (set (aliases_for (conf E) (Some t) ''default'')) (py_str (t_pk t)) (w\<lparr>current_tenant := Some t\<rparr>) w1"
    using tc_set_ok [OF assms, of t _ w] by blast
  have "fst (set_and_clear E t body w) = fst (body (current_tenant w) w1)" for body :: "tenant option \<Rightarrow> 'a comp"
    by (simp add: set_and_clear_def bindc_def w1(1) try_finally_total [OF total_tc_clear])
  with w1(2) show ?thesis
    by (intro exI [of _ w1]) (auto simp: wrote_def same_state_def aliases_for_set)
qed

section \<open>Where SQL is issued\<close>

text \<open>Only PostgreSQL aliases are sent the two statements of the context layer.\<close>

definition sql_gated :: "env \<Rightarrow> event \<times> bool \<Rightarrow> bool" where
  "sql_gated E e = (case fst e of
     SetConfig a v x \<Rightarrow> db_vendor E a = Some ''postgresql''
   | CurrentSetting a v \<Rightarrow> db_vendor E a = Some ''postgresql''
   | _ \<Rightarrow> True)"

lemma bindc_is_postgresql:
  "bindc (is_postgresql E a) k =
     (case db_vendor E a of
        Some v \<Rightarrow> k (v = ''postgresql'')
      | None \<Rightarrow> seqc (log LogDebug ''Alias is not configured in DATABASES'') (k False))"
  by (rule ext) (simp add: is_postgresql_def pyc_defs log_def split: option.splits)

lemma gated_set [emits_intros]: "emits (sql_gated E) (set_db_session E x a)"
  unfolding set_db_session_def bindc_is_postgresql
  by (auto simp: sql_gated_def intro!: emits_intros split: option.splits)

lemma gated_clear [emits_intros]: "emits (sql_gated E) (clear_db_session E a)"
  unfolding clear_db_session_def bindc_is_postgresql
  by (auto simp: sql_gated_def intro!: emits_intros split: option.splits)

lemma gated_ensure [emits_intros]: "emits P (ensure_atomic E a)"
  unfolding ensure_atomic_def by (auto intro!: emits_intros split: option.splits)

lemma gated_cleanup [emits_intros]:
  "emits (sql_gated E) (clear_best_effort E al)" "emits (sql_gated E) (restore_best_effort E p u)"
  unfolding clear_best_effort_def restore_best_effort_def
  by (auto intro!: emits_intros split: option.splits)

lemma gated_put [emits_intros]: "emits P (tc_put t)" "emits P tc_get"
  unfolding tc_put_def tc_get_def by (auto intro!: emits_intros)

lemma gated_tc_set [emits_intros]: "emits (sql_gated E) (tc_set E t u)"
  unfolding tc_set_def tc_write_session_def by (auto intro!: emits_intros split: option.splits)

lemma gated_with_cm [emits_intros]:
  assumes "emits (sql_gated E) body"
  shows "emits (sql_gated E) (with_cm E c body)"
proof (cases c)
  case (Atomic a)
  have enter: "emits (sql_gated E) (performs E (AtomicEnter a))"
    by (intro emits_intros) (simp add: sql_gated_def)
  have "emits (sql_gated E) (\<lambda>w. case body w of (r, w') \<Rightarrow>
      (case performs E (AtomicExit a (isl r)) w' of (Inl e, w'') \<Rightarrow> (Inl e, w'') | (Inr _, w'') \<Rightarrow> (r, w'')))"
    by (rule emits_compose [OF assms])
      (auto simp: performs_def perform_def seqc_def bindc_def sql_gated_def split: prod.splits sum.splits)
  with enter show ?thesis by (simp add: Atomic with_cm_def emits_seqc)
qed (simp add: with_cm_def assms)

lemma gated_with_stack [emits_intros]:
  "emits (sql_gated E) body \<Longrightarrow> emits (sql_gated E) (with_stack E al body)"
  by (induction al) (auto intro!: emits_intros)

text \<open>
  C33: No operation of the context layer sends a statement to an alias that is not PostgreSQL
  (BR-ENV-002): every \<open>set_config\<close> and every \<open>current_setting\<close> performed by \<open>set\<close>, \<open>clear\<close>, \<open>using\<close>
  or \<open>admin_bypass\<close>, nested as the block pleases and failing wherever the database fails, goes to an
  alias whose vendor is \<open>postgresql\<close>.
\<close>
theorem context_sql_only_on_postgresql:
  assumes "emits (sql_gated E) body"
  shows "emits (sql_gated E) (tc_set E t u) \<and> emits (sql_gated E) (tc_clear E token u) \<and>
    emits (sql_gated E) (tc_using E t u body) \<and> emits (sql_gated E) (admin_bypass E u body)"
proof (intro conjI)
  show "emits (sql_gated E) (tc_clear E token u)"
    unfolding tc_clear_def by (intro emits_intros)
  show "emits (sql_gated E) (tc_using E t u body)"
    unfolding tc_using_def Let_def by (intro emits_intros assms)
  have ann: "emits (sql_gated E) (announce_bypass E u msg)" for msg
    unfolding announce_bypass_def by (intro emits_intros) (simp add: sql_gated_def)
  have "emits (sql_gated E) (admin_block E u ac body)" if "db_vendor E u = Some ''postgresql''" for ac
    unfolding admin_block_def clear_admin_flag_def using that
    by (auto simp: sql_gated_def intro!: emits_intros assms ann)
  then show "emits (sql_gated E) (admin_bypass E u body)"
    unfolding admin_bypass_def bindc_is_postgresql Let_def
    by (auto intro!: emits_intros ann assms split: option.splits)
qed (intro emits_intros)

text \<open>An installation whose archive is on another backend: a tenant's block that opens a bypass there.\<close>

definition archive_env :: env where
  "archive_env = pg_env\<lparr>db_vendor := (\<lambda>a. if a = ''archive'' then Some ''sqlite'' else Some ''postgresql'')\<rparr>"

theorem context_sql_only_on_postgresql_witness:
  "\<forall>v x. SetConfig ''archive'' v x \<notin> fst ` set (trace (snd (tc_using archive_env (Some (club 1 ''eu'')) ''archive''
     (admin_bypass archive_env ''archive'' (ret ())) fresh_world)))"
proof -
  have "emits (sql_gated archive_env) (admin_bypass archive_env ''archive'' (ret ()))"
    by (rule context_sql_only_on_postgresql [THEN conjunct2, THEN conjunct2, THEN conjunct2]) (rule emits_ret)
  then have "emits (sql_gated archive_env) (tc_using archive_env (Some (club 1 ''eu'')) ''archive''
      (admin_bypass archive_env ''archive'' (ret ())))"
    by (rule context_sql_only_on_postgresql [THEN conjunct2, THEN conjunct2, THEN conjunct1])
  then obtain es where "trace (snd (tc_using archive_env (Some (club 1 ''eu'')) ''archive''
      (admin_bypass archive_env ''archive'' (ret ())) fresh_world)) = es @ trace fresh_world"
    and "list_all (sql_gated archive_env) es"
    unfolding emits_def by blast
  then show ?thesis by (fastforce simp: list_all_iff sql_gated_def archive_env_def fresh_world_def)
qed

section \<open>Which tenant a decorated call runs for\<close>

lemma sig_bind_keys: "sig_bind sig args kwargs = Inr b \<Longrightarrow> dict_keys b = map fst sig"
  by (induction sig args kwargs arbitrary: b rule: sig_bind.induct)
    (auto split: if_splits sum.splits option.splits)

lemma sig_bind_positional:
  "sig_bind sig args kwargs = Inr b \<Longrightarrow> length args \<le> length sig \<and> map snd (take (length args) b) = args"
  by (induction sig args kwargs arbitrary: b rule: sig_bind.induct)
    (auto split: if_splits sum.splits option.splits)

text \<open>The value a parameter not given positionally gets: the keyword's, else the default.\<close>

lemma sig_bind_rest:
  "sig_bind sig [] kwargs = Inr b \<Longrightarrow> distinct (map fst sig) \<Longrightarrow> (p, d) \<in> set sig \<Longrightarrow>
    map_of b p = (case map_of kwargs p of Some v \<Rightarrow> Some v | None \<Rightarrow> d)"
proof (induction sig "[] :: pyarg list" kwargs arbitrary: b rule: sig_bind.induct)
  case (4 q e ps kwargs)
  show ?case
  proof (cases "map_of kwargs q")
    case (Some v)
    with "4.prems"(1) obtain b' where b': "sig_bind ps [] (dict_del q kwargs) = Inr b'" "b = (q, v) # b'"
      by (auto split: sum.splits)
    show ?thesis
    proof (cases "p = q")
      case False
      with "4.prems"(2,3) "4.hyps"(2) [OF Some b'(1)] b'(2) show ?thesis by auto
    qed (use b'(2) Some in simp)
  next
    case None
    with "4.prems"(1) obtain v b' where b': "e = Some v" "sig_bind ps [] kwargs = Inr b'" "b = (q, v) # b'"
      by (auto split: sum.splits option.splits)
    show ?thesis
    proof (cases "p = q")
      case True
      with "4.prems"(2,3) have "d = e" by (auto simp: rev_image_eqI)
      with True b' None show ?thesis by simp
    next
      case False
      with "4.prems"(2,3) "4.hyps"(1) [OF None b'(1,2)] b'(3) show ?thesis by auto
    qed
  qed
qed simp

text \<open>How a call supplies parameter \<open>p\<close>: by position, by keyword, or by default.\<close>

fun supplied :: "signature \<Rightarrow> pyarg list \<Rightarrow> (string, pyarg) dict \<Rightarrow> string \<Rightarrow> pyarg option" where
  "supplied [] args kwargs p = None"
| "supplied ((q, d) # ps) (a # args) kwargs p = (if q = p then Some a else supplied ps args kwargs p)"
| "supplied ((q, d) # ps) [] kwargs p =
     (if q = p then (case map_of kwargs p of Some v \<Rightarrow> Some v | None \<Rightarrow> d) else supplied ps [] kwargs p)"

lemma supplied_rest:
  "(p, d) \<in> set sig \<Longrightarrow> distinct (map fst sig) \<Longrightarrow>
    supplied sig [] kwargs p = (case map_of kwargs p of Some v \<Rightarrow> Some v | None \<Rightarrow> d)"
  by (induction sig) (auto simp: rev_image_eqI)

lemma sig_bind_supplied:
  "sig_bind sig args kwargs = Inr b \<Longrightarrow> distinct (map fst sig) \<Longrightarrow> p \<in> set (map fst sig) \<Longrightarrow>
    map_of b p = supplied sig args kwargs p"
proof (induction sig args kwargs arbitrary: b rule: sig_bind.induct)
  case (3 q e ps a args kwargs)
  then show ?case by (auto split: if_splits sum.splits) force
next
  case (4 q e ps kwargs)
  from "4.prems"(3) obtain d where d: "(p, d) \<in> set ((q, e) # ps)" by force
  show ?case using sig_bind_rest [OF "4.prems"(1,2) d] supplied_rest [OF d "4.prems"(2)] by simp
qed auto

text \<open>
  A call of a \<open>tenant_scoped\<close> function whose arguments fit the signature runs the function, with
  the very arguments of the call, inside \<open>using()\<close> of the tenant supplied for the named parameter,
  by position, by keyword or by the parameter's default.
\<close>
theorem tenant_scoped_runs_for_supplied_tenant:
  assumes "sig_bind sig args kwargs = Inr bound" "distinct (map fst sig)" "p \<in> set (map fst sig)" "p \<noteq> []"
    and "supplied sig args kwargs p = Some (TenantArg t)"
  shows "tenant_scoped E (Some p) sig func args kwargs = tc_using E t ''default'' (func args kwargs)"
proof -
  have "map_of bound p = Some (TenantArg t)"
    using sig_bind_supplied [OF assms(1-3)] assms(5) by simp
  with assms(1,4) show ?thesis by (simp add: tenant_scoped_def)
qed

theorem tenant_scoped_runs_for_supplied_tenant_witness:
  "tenant_scoped pg_env (Some ''merchant'') [(''since'', None), (''merchant'', None), (''full'', Some (ValueArg (PBool False)))]
     (\<lambda>_ _. tc_require pg_env) [ValueArg (PInt 3)] [(''merchant'', TenantArg (Some (club 1 ''eu'')))]
   = tc_using pg_env (Some (club 1 ''eu'')) ''default'' (tc_require pg_env)"
  by (rule tenant_scoped_runs_for_supplied_tenant) (simp_all add: dict_del_def)

text \<open>
  A call that does not fit the signature, or a function without the named parameter, raises
  \<open>TypeError\<close> and changes nothing: no tenant is entered, no statement is sent, the function is not run.
\<close>
theorem tenant_scoped_refuses:
  assumes "p \<noteq> []" and "isl (sig_bind sig args kwargs) \<or> p \<notin> set (map fst sig)"
  shows "\<exists>e. tenant_scoped E (Some p) sig func args kwargs = raise e \<and>
    (case sig_bind sig args kwargs of Inl e' \<Rightarrow> e = e' | Inr _ \<Rightarrow> e = PyTypeError (''tenant_scoped: no argument '' @ p))"
proof (cases "sig_bind sig args kwargs")
  case (Inl e)
  then show ?thesis by (simp add: tenant_scoped_def)
next
  case (Inr b)
  with assms(2) sig_bind_keys [OF Inr] have "\<not> dict_has p b" by (simp add: dict_has_def)
  with Inr assms(1) show ?thesis by (simp add: tenant_scoped_def dict_has_map_of)
qed

theorem tenant_scoped_refuses_witness:
  "\<exists>e. tenant_scoped pg_env (Some ''merchant'') [(''since'', None)] (\<lambda>_ _. tc_require pg_env) [ValueArg (PInt 3)] []
     = raise e"
  using tenant_scoped_refuses [of "''merchant''" "[(''since'', None)]" "[ValueArg (PInt 3)]" "[]" pg_env
      "\<lambda>_ _. tc_require pg_env"] by auto

end
