(* ===== verification/Resolvers.thy ===== *)
theory Resolvers
  imports Context
begin

text \<open>
  Tenant resolution (\<open>src/boundary/resolvers.py\<close>): the process-wide cache (a dictionary in insertion
  order, every operation of which runs under one lock and so is one step here), the host parsing of
  \<open>SubdomainResolver\<close> and the five resolvers. A request is what the resolvers read of it; reading the
  tenant model is an effect whose outcome the environment gives. Strings are ASCII where the code
  changes case. Decoding a token's payload (base64, then JSON) is an argument.
\<close>

section \<open>uuid.UUID\<close>

text \<open>
  \<open>int(text, 16)\<close>: surrounding white space, a sign, a \<open>0x\<close> prefix and single underscores between
  digits are accepted. The constructor of \<open>uuid.UUID\<close> strips its decorations, asks for 32 characters
  and reads them with it; the value is held as the canonical text.
\<close>

definition hex_val :: "char \<Rightarrow> nat option" where
  "hex_val c = (let n = of_char c :: nat in
     if 48 \<le> n \<and> n \<le> 57 then Some (n - 48)
     else if 97 \<le> n \<and> n \<le> 102 then Some (n - 87)
     else if 65 \<le> n \<and> n \<le> 70 then Some (n - 55)
     else None)"

fun hex_run :: "nat \<Rightarrow> string \<Rightarrow> nat option" where
  "hex_run acc [] = Some acc"
| "hex_run acc (c # cs) =
     (if c = CHR ''_'' then
        (case cs of
           [] \<Rightarrow> None
         | d # ds \<Rightarrow> (case hex_val d of None \<Rightarrow> None | Some v \<Rightarrow> hex_run (16 * acc + v) ds))
      else (case hex_val c of None \<Rightarrow> None | Some v \<Rightarrow> hex_run (16 * acc + v) cs))"

definition hex_digits :: "string \<Rightarrow> nat option" where
  "hex_digits s =
     (case s of [] \<Rightarrow> None | c # cs \<Rightarrow> (case hex_val c of None \<Rightarrow> None | Some v \<Rightarrow> hex_run v cs))"

definition white_space :: "char list" where
  "white_space = map char_of [9, 10, 11, 12, 13, 28, 29, 30, 31, 32, 133, 160 :: nat]"

definition int_base16 :: "string \<Rightarrow> nat option" where
  "int_base16 text =
     (let s = strip_chars white_space text;
          s = (if starts_with s ''+'' then tl s else s)
      in if starts_with (lower s) ''0x'' then hex_digits (let r = drop 2 s in if starts_with r ''_'' then tl r else r)
         else hex_digits s)"

fun hex_text :: "nat \<Rightarrow> nat \<Rightarrow> string" where
  "hex_text 0 n = []"
| "hex_text (Suc k) n = hex_text k (n div 16) @
     [(let d = n mod 16 in if d < 10 then char_of (48 + d) else char_of (87 + d))]"

definition canonical_uuid :: "nat \<Rightarrow> string" where
  "canonical_uuid n = (let h = hex_text 32 n in
     take 8 h @ ''-'' @ take 4 (drop 8 h) @ ''-'' @ take 4 (drop 12 h) @ ''-'' @ take 4 (drop 16 h) @ ''-'' @ drop 20 h)"

definition parse_uuid :: "string \<Rightarrow> exn + pyval" where
  "parse_uuid value =
     (let h = replace_all ''uuid:'' [] (replace_all ''urn:'' [] value);
          h = replace_all ''-'' [] (strip_chars ''{}'' h)
      in if length h \<noteq> 32 then Inl (PyValueError ''badly formed hexadecimal UUID string'')
         else case int_base16 h of
                None \<Rightarrow> Inl (PyValueError ''invalid literal for int() with base 16'')
              | Some n \<Rightarrow> Inr (PUuid (canonical_uuid n)))"

section \<open>The cache\<close>

definition cache_get :: "env \<Rightarrow> string \<Rightarrow> tenant option comp" where
  "cache_get E key =
     bindc (readc resolver_cache) (\<lambda>cache.
       case map_of cache key of
         None \<Rightarrow> ret None
       | Some (t, ts) \<Rightarrow>
           bindc (readc (\<lambda>w. clock E (trace w))) (\<lambda>now.
             if now - ts > of_int (RESOLVER_CACHE_TTL (conf E))
             then seqc (writec (\<lambda>w. w\<lparr>resolver_cache := dict_del key (resolver_cache w)\<rparr>)) (ret None)
             else ret (Some t)))"

text \<open>\<open>min(_cache, key=...)\<close>: the first key with the least time stamp; of an empty dictionary it raises.\<close>

fun oldest_key :: "(string, tenant \<times> real) dict \<Rightarrow> exn + string" where
  "oldest_key [] = Inl (PyValueError ''min() iterable argument is empty'')"
| "oldest_key [(k, _)] = Inr k"
| "oldest_key ((k, t, ts) # kv # rest) =
     (case oldest_key (kv # rest) of
        Inl e \<Rightarrow> Inl e
      | Inr k' \<Rightarrow>
          (case map_of (kv # rest) k' of
             None \<Rightarrow> Inr k
           | Some (_, ts') \<Rightarrow> if ts' < ts then Inr k' else Inr k))"

definition cache_set :: "env \<Rightarrow> string \<Rightarrow> tenant \<Rightarrow> unit comp" where
  "cache_set E key t =
     bindc (readc resolver_cache) (\<lambda>cache.
       seqc (if int (length cache) \<ge> RESOLVER_CACHE_SIZE (conf E) \<and> \<not> dict_has key cache
             then bindc (liftc (oldest_key cache)) (\<lambda>oldest.
                    writec (\<lambda>w. w\<lparr>resolver_cache := dict_del oldest (resolver_cache w)\<rparr>))
             else ret ())
         (bindc (readc (\<lambda>w. clock E (trace w))) (\<lambda>now.
            writec (\<lambda>w. w\<lparr>resolver_cache := dict_set key (t, now) (resolver_cache w)\<rparr>))))"

text \<open>A tenant is compared by its primary key; any other argument is taken for the key itself.\<close>

definition cache_invalidate :: "pyarg \<Rightarrow> unit comp" where
  "cache_invalidate arg =
     (let pk = (case arg of TenantArg (Some t) \<Rightarrow> t_pk t | TenantArg None \<Rightarrow> PNone | ValueArg v \<Rightarrow> v)
      in writec (\<lambda>w. w\<lparr>resolver_cache := filter (\<lambda>(k, t, ts). t_pk t \<noteq> pk) (resolver_cache w)\<rparr>))"

definition cache_clear :: "unit comp" where
  "cache_clear = writec (\<lambda>w. w\<lparr>resolver_cache := []\<rparr>)"

text \<open>\<open>TenantContext.invalidate_cache\<close>\<close>

definition invalidate_cache :: "pyarg \<Rightarrow> unit comp" where
  "invalidate_cache arg = cache_invalidate arg"

section \<open>Requests and reads of the tenant model\<close>

text \<open>\<open>get_host()\<close> raises on a host Django does not allow; \<open>r_session\<close> is \<open>None\<close> without session middleware.\<close>

record request =
  r_host :: "exn + string"
  r_meta :: "(string, string) dict"
  r_session :: "(string, pyval) dict option"
  r_boundary_tenant :: "tenant option"

definition fetch_tenant :: "env \<Rightarrow> lookup \<Rightarrow> tenant comp" where
  "fetch_tenant E lk w =
     (case tenant_get E (trace w) lk of
        Inl e \<Rightarrow> (Inl e, w\<lparr>trace := (GetTenant lk, False) # trace w\<rparr>)
      | Inr t \<Rightarrow> (Inr t, w\<lparr>trace := (GetTenant lk, True) # trace w\<rparr>))"

text \<open>\<open>self.get_tenant_model()\<close>: the setting may be missing.\<close>

definition checked_model :: "env \<Rightarrow> unit comp" where
  "checked_model E = seqc (liftc (resolve_tenant_model_setting (conf E))) (ret ())"

fun is_does_not_exist :: "exn \<Rightarrow> bool" where
  "is_does_not_exist ObjectDoesNotExist = True"
| "is_does_not_exist _ = False"

fun is_value_error :: "exn \<Rightarrow> bool" where
  "is_value_error (PyValueError _) = True"
| "is_value_error _ = False"

fun is_type_error :: "exn \<Rightarrow> bool" where
  "is_type_error (PyTypeError _) = True"
| "is_type_error _ = False"

lemma specific_exceptions [simp]:
  "is_does_not_exist e \<Longrightarrow> is_exception e" "is_value_error e \<Longrightarrow> is_exception e" "is_type_error e \<Longrightarrow> is_exception e"
  by (cases e; simp)+

definition except_when :: "(exn \<Rightarrow> bool) \<Rightarrow> 'a comp \<Rightarrow> 'a comp \<Rightarrow> 'a comp" where
  "except_when P m handler = try_except m (\<lambda>e. if P e then handler else raise e)"

text \<open>The look-aside the caching resolvers share: the cache, else the model, and then the cache is filled.\<close>

definition through_cache ::
  "(string \<Rightarrow> ('w, 't option) pyc) \<Rightarrow> (string \<Rightarrow> 't \<Rightarrow> ('w, unit) pyc) \<Rightarrow> string \<Rightarrow> ('w, 't option) pyc
     \<Rightarrow> ('w, 't option) pyc" where
  "through_cache get put key fetch =
     bindc (get key) (\<lambda>cached.
       case cached of
         Some t \<Rightarrow> ret (Some t)
       | None \<Rightarrow>
           bindc fetch (\<lambda>tenant. case tenant of
             None \<Rightarrow> ret None
           | Some t \<Rightarrow> seqc (put key t) (ret (Some t))))"

section \<open>The resolvers\<close>

fun slug_for_configured_parent :: "string \<Rightarrow> string list \<Rightarrow> string option" where
  "slug_for_configured_parent host [] = None"
| "slug_for_configured_parent host (parent # parents) =
     (let host_labels = split_on CHR ''.'' host; parent_labels = split_on CHR ''.'' (lower parent) in
      if length host_labels = length parent_labels + 1 \<and> tl host_labels = parent_labels
      then Some (hd host_labels)
      else slug_for_configured_parent host parents)"

text \<open>The host as the resolver reads it, and the slug it carries.\<close>

definition clean_host :: "string \<Rightarrow> string" where
  "clean_host raw = lower (rstrip_char CHR ''.'' (hd (split_on CHR '':'' raw)))"

definition subdomain_slug :: "django_settings \<Rightarrow> string \<Rightarrow> string option" where
  "subdomain_slug s raw =
     (let host = clean_host raw; labels = split_on CHR ''.'' host in
      if \<not> list_all (\<lambda>l. l \<noteq> []) labels then None
      else case SUBDOMAIN_PARENT_DOMAIN s of
             Some parents \<Rightarrow> slug_for_configured_parent host parents
           | None \<Rightarrow> if length labels < 3 then None else Some (hd labels))"

definition subdomain_resolve :: "env \<Rightarrow> request \<Rightarrow> tenant option comp" where
  "subdomain_resolve E req =
     bindc (liftc (r_host req)) (\<lambda>raw.
       case subdomain_slug (conf E) raw of
         None \<Rightarrow> ret None
       | Some slug \<Rightarrow>
           seqc (log LogDebug ''SubdomainResolver attempt'')
             (through_cache (cache_get E) (cache_set E) (''subdomain:'' @ slug)
                (seqc (checked_model E)
                  (except_when is_does_not_exist
                     (bindc (fetch_tenant E (ByField (SUBDOMAIN_FIELD (conf E)) slug)) (\<lambda>t. ret (Some t)))
                     (ret None)))))"

definition header_meta_key :: "django_settings \<Rightarrow> string" where
  "header_meta_key s = ''HTTP_'' @ replace_all ''-'' ''_'' (upper (HEADER_NAME s))"

text \<open>UUID first, then the value as the primary key, then the slug; each step catches its own errors.\<close>

definition header_fetch :: "env \<Rightarrow> string \<Rightarrow> tenant option comp" where
  "header_fetch E v =
     except_when (\<lambda>e. is_value_error e \<or> is_does_not_exist e)
       (bindc (liftc (parse_uuid v)) (\<lambda>u. bindc (fetch_tenant E (ByPk u)) (\<lambda>t. ret (Some t))))
       (except_when (\<lambda>e. is_does_not_exist e \<or> is_value_error e \<or> is_type_error e)
          (bindc (fetch_tenant E (ByPk (PStr v))) (\<lambda>t. ret (Some t)))
          (except_when is_does_not_exist
             (bindc (fetch_tenant E (ByField (SUBDOMAIN_FIELD (conf E)) v)) (\<lambda>t. ret (Some t)))
             (ret None)))"

definition header_resolve :: "env \<Rightarrow> request \<Rightarrow> tenant option comp" where
  "header_resolve E req =
     (case map_of (r_meta req) (header_meta_key (conf E)) of
        None \<Rightarrow> ret None
      | Some v \<Rightarrow>
          if v = [] then ret None
          else seqc (log LogDebug ''HeaderResolver attempt'')
            (through_cache (cache_get E) (cache_set E) (''header:'' @ v)
               (seqc (checked_model E) (header_fetch E v))))"

text \<open>The payload of a token: a JSON object, or a JSON value that has no \<open>get\<close>.\<close>

datatype json = JObject "(string, pyval) dict" | JOther

definition jwt_resolve :: "env \<Rightarrow> (string \<Rightarrow> json option) \<Rightarrow> request \<Rightarrow> tenant option comp" where
  "jwt_resolve E decode_payload req =
     (let auth_header = (case map_of (r_meta req) ''HTTP_AUTHORIZATION'' of None \<Rightarrow> [] | Some h \<Rightarrow> h) in
      if \<not> starts_with auth_header ''Bearer '' then ret None
      else let parts = split_on CHR ''.'' (drop 7 auth_header) in
        if length parts \<noteq> 3 then ret None
        else let padding = 4 - length (parts ! 1) mod 4 in
          case decode_payload (parts ! 1 @ replicate padding (CHR ''='')) of
            None \<Rightarrow> ret None
          | Some JOther \<Rightarrow> raise (PyAttributeError ''get'')
          | Some (JObject payload) \<Rightarrow>
              (let tenant_id = (case map_of payload (JWT_CLAIM (conf E)) of None \<Rightarrow> PNone | Some v \<Rightarrow> v) in
               if \<not> truthy tenant_id then ret None
               else seqc (log LogDebug ''JWTClaimResolver attempt'')
                 (seqc (checked_model E)
                    (except_when (\<lambda>e. is_does_not_exist e \<or> is_value_error e)
                       (bindc (fetch_tenant E (ByPk tenant_id)) (\<lambda>t. ret (Some t)))
                       (ret None)))))"

definition session_resolve :: "env \<Rightarrow> request \<Rightarrow> tenant option comp" where
  "session_resolve E req =
     (case r_session req of
        None \<Rightarrow> ret None
      | Some session \<Rightarrow>
          (let tenant_id = (case map_of session (SESSION_KEY (conf E)) of None \<Rightarrow> PNone | Some v \<Rightarrow> v) in
           if \<not> truthy tenant_id then ret None
           else seqc (log LogDebug ''SessionResolver attempt'')
             (through_cache (cache_get E) (cache_set E) (''session:'' @ py_str tenant_id)
                (seqc (checked_model E)
                  (except_when (\<lambda>e. is_does_not_exist e \<or> is_value_error e)
                     (bindc (fetch_tenant E (ByPk tenant_id)) (\<lambda>t. ret (Some t)))
                     (ret None))))))"

definition explicit_resolve :: "request \<Rightarrow> tenant option comp" where
  "explicit_resolve req = ret (r_boundary_tenant req)"

section \<open>Hosts and labels\<close>

lemma split_on_not_Nil [simp]: "split_on c s \<noteq> []"
  by (induction c s rule: split_on.induct) (auto split: list.splits)

lemma split_on_free: "c \<notin> set s \<Longrightarrow> split_on c s = [s]"
  by (induction s) auto

lemma split_on_append: "c \<notin> set a \<Longrightarrow> split_on c (a @ c # b) = a # split_on c b"
  by (induction a) auto

fun join_on :: "char \<Rightarrow> string list \<Rightarrow> string" where
  "join_on c [] = []"
| "join_on c [s] = s"
| "join_on c (s # t # ts) = s @ c # join_on c (t # ts)"

lemma join_split: "join_on c (split_on c s) = s"
proof (induction c s rule: split_on.induct)
  case (2 c x xs)
  obtain y ys where y: "split_on c xs = y # ys" by (cases "split_on c xs") auto
  have "join_on c ((x # y) # ys) = x # join_on c (y # ys)" by (cases ys) auto
  with 2 y show ?case by (auto split: if_splits)
qed simp

lemma hd_split_free: "c \<notin> set (hd (split_on c s))"
  by (induction c s rule: split_on.induct) (auto split: list.splits)

lemma label_above:
  "length (split_on c host) = length (split_on c p) + 1 \<and> tl (split_on c host) = split_on c p \<and> hd (split_on c host) = s
    \<longleftrightarrow> host = s @ c # p \<and> c \<notin> set s"
proof
  assume l: "length (split_on c host) = length (split_on c p) + 1 \<and> tl (split_on c host) = split_on c p \<and> hd (split_on c host) = s"
  obtain q qs where q: "split_on c p = q # qs" by (cases "split_on c p") auto
  with l have "split_on c host = s # q # qs" by (cases "split_on c host") auto
  then have "host = join_on c (s # q # qs)" by (metis join_split)
  also have "\<dots> = s @ c # p" using q join_split [of c p] by simp
  finally show "host = s @ c # p \<and> c \<notin> set s" using l hd_split_free [of c host] by simp
qed (auto simp: split_on_append)

text \<open>
  With parent domains configured, a host carries the slug \<open>s\<close> exactly when it is the single
  label \<open>s\<close>, a dot and one of the parents in lower case (BR-RES-010): neither a host that merely ends
  with the parent's characters nor one at another depth matches.
\<close>
theorem slug_is_one_label_above_parent:
  "slug_for_configured_parent host parents = Some s \<longleftrightarrow>
     (\<exists>p \<in> set parents. host = s @ ''.'' @ lower p) \<and> CHR ''.'' \<notin> set s"
proof (induction parents)
  case (Cons p parents)
  note above = label_above [of "CHR ''.''" host "lower p"]
  show ?case
  proof (cases "length (split_on CHR ''.'' host) = length (split_on CHR ''.'' (lower p)) + 1 \<and>
      tl (split_on CHR ''.'' host) = split_on CHR ''.'' (lower p)")
    case True
    then have host: "host = hd (split_on CHR ''.'' host) @ CHR ''.'' # lower p"
      "CHR ''.'' \<notin> set (hd (split_on CHR ''.'' host))"
      using above [of "hd (split_on CHR ''.'' host)"] by simp_all
    have "s = hd (split_on CHR ''.'' host)" if "host = s @ CHR ''.'' # b" "CHR ''.'' \<notin> set s" for b
      using that by (simp add: split_on_append)
    with True host show ?thesis by (auto simp: Let_def)
  next
    case False
    then have "\<not> (host = s @ CHR ''.'' # lower p \<and> CHR ''.'' \<notin> set s)" using above [of s] by blast
    with False Cons show ?thesis by (auto simp: Let_def)
  qed
qed simp

text \<open>
  A host with an empty label (BR-RES-011), and with parent domains configured a host that is not
  one label above a parent, resolves to no tenant, and neither the cache nor the tenant model is
  consulted: the state does not change at all.
\<close>
theorem malformed_host_not_looked_up:
  assumes "r_host req = Inr raw"
    and "[] \<in> set (split_on CHR ''.'' (clean_host raw)) \<or>
      (\<exists>parents. SUBDOMAIN_PARENT_DOMAIN (conf E) = Some parents \<and>
        \<not> (\<exists>p \<in> set parents. \<exists>s. clean_host raw = s @ ''.'' @ lower p \<and> CHR ''.'' \<notin> set s))"
  shows "subdomain_resolve E req w = (Inr None, w)"
proof -
  have "subdomain_slug (conf E) raw = None"
  proof (cases "[] \<in> set (split_on CHR ''.'' (clean_host raw))")
    case True
    then show ?thesis by (auto simp: subdomain_slug_def Let_def list_all_iff)
  next
    case False
    with assms(2) obtain parents where p: "SUBDOMAIN_PARENT_DOMAIN (conf E) = Some parents"
      "\<not> (\<exists>p \<in> set parents. \<exists>s. clean_host raw = s @ ''.'' @ lower p \<and> CHR ''.'' \<notin> set s)" by blast
    have "slug_for_configured_parent (clean_host raw) parents \<noteq> Some s" for s
    proof
      assume "slug_for_configured_parent (clean_host raw) parents = Some s"
      moreover have "slug_for_configured_parent h ps = Some s \<Longrightarrow> \<exists>p \<in> set ps. h = s @ CHR ''.'' # lower p \<and> CHR ''.'' \<notin> set s" for h ps
        by (induction ps) (auto simp: Let_def label_above [symmetric] split: if_splits)
      ultimately show False using p(2) by force
    qed
    with p(1) show ?thesis by (auto simp: subdomain_slug_def Let_def)
  qed
  with assms(1) show ?thesis by (simp add: subdomain_resolve_def bindc_liftc)
qed

definition host_request :: "string \<Rightarrow> request" where
  "host_request host = \<lparr> r_host = Inr host, r_meta = [], r_session = None, r_boundary_tenant = None \<rparr>"

theorem malformed_host_not_looked_up_witness:
  "subdomain_resolve pg_env (host_request ''shop..example.com'') fresh_world = (Inr None, fresh_world)"
proof -
  have "[] \<in> set (split_on CHR ''.'' (clean_host ''shop..example.com''))" by code_simp
  then show ?thesis
    by (intro malformed_host_not_looked_up [where raw = "''shop..example.com''"]) (simp_all add: host_request_def)
qed

section \<open>The cache's contract\<close>

text \<open>
  What a caching resolver relies on: a hit was held, no operation invents an entry, and storing adds
  the one entry. For any such cache, a look-aside read whose stored entries are right answers right
  and keeps them right, and as long as storing does not fail it answers what the fetch would.
\<close>

locale lookaside =
  fixes get :: "string \<Rightarrow> ('w, 't option) pyc"
    and put :: "string \<Rightarrow> 't \<Rightarrow> ('w, unit) pyc"
    and holds :: "'w \<Rightarrow> string \<Rightarrow> 't \<Rightarrow> bool"
  assumes get_hit: "get k w = (Inr (Some t), w') \<Longrightarrow> holds w k t"
    and get_total: "total (get k)"
    and get_keeps: "holds (snd (get k w)) k' t' \<Longrightarrow> holds w k' t'"
    and put_keeps: "holds (snd (put k t w)) k' t' \<Longrightarrow> k' = k \<and> t' = t \<or> holds w k' t'"
begin

lemma through_invariant:
  assumes entries: "\<And>k t. holds w k t \<Longrightarrow> P k t"
    and fetch_keeps: "\<And>w k t. holds (snd (fetch w)) k t \<Longrightarrow> holds w k t"
    and fetch_right: "\<And>w w' t. fetch w = (Inr (Some t), w') \<Longrightarrow> P key t"
    and held: "holds (snd (through_cache get put key fetch w)) k t"
  shows "P k t"
proof -
  obtain c w1 where c: "get key w = (Inr c, w1)" using get_total by (rule totalE)
  have w1: "holds w1 k t \<Longrightarrow> P k t" for k t
    using entries get_keeps [of key w k t] c by simp
  show ?thesis
  proof (cases c)
    case (Some t0)
    with c held w1 show ?thesis by (simp add: through_cache_def bindc_Inr)
  next
    case None
    obtain r w2 where f: "fetch w1 = (r, w2)" by (cases "fetch w1")
    have w2: "holds w2 k t \<Longrightarrow> P k t" for k t using fetch_keeps [of w1 k t] f w1 by simp
    show ?thesis
    proof (cases r)
      case (Inl e)
      with c None f held w2 show ?thesis by (simp add: through_cache_def bindc_def)
    next
      case (Inr x)
      show ?thesis
      proof (cases x)
        case None
        with c \<open>c = None\<close> f Inr held w2 show ?thesis by (simp add: through_cache_def bindc_def)
      next
        case (Some t0)
        have "snd (through_cache get put key fetch w) = snd (put key t0 w2)"
          using c \<open>c = None\<close> f Inr Some
          by (auto simp: through_cache_def bindc_def seqc_def split: prod.splits sum.splits)
        with held put_keeps [of key t0 w2 k t] w2 fetch_right [of w1 t0 w2] f Inr Some show ?thesis by auto
      qed
    qed
  qed
qed

lemma through_answer:
  assumes entries: "\<And>t. holds w key t \<Longrightarrow> answer = Inr (Some t)"
    and fetch: "\<And>w. fst (fetch w) = answer"
    and put_total: "\<And>t. total (put key t)"
  shows "fst (through_cache get put key fetch w) = answer"
proof -
  obtain c w1 where c: "get key w = (Inr c, w1)" using get_total by (rule totalE)
  show ?thesis
  proof (cases c)
    case (Some t0)
    with c have "holds w key t0" by (auto intro: get_hit)
    then have "answer = Inr (Some t0)" by (rule entries)
    with c Some show ?thesis by (simp add: through_cache_def bindc_Inr)
  next
    case None
    obtain r w2 where f: "fetch w1 = (r, w2)" by (cases "fetch w1")
    with fetch [of w1] have r: "r = answer" by simp
    have "fst (seqc (put key t) (ret x) w2) = Inr x" for t and x :: "'t option"
      using totalE [OF put_total, where w = w2] by (metis fst_conv ret_apply seqc_Inr)
    with c None f r show ?thesis by (auto simp: through_cache_def bindc_def split: sum.splits option.splits)
  qed
qed

end

section \<open>The resolver cache provides it\<close>

definition cached :: "world \<Rightarrow> string \<Rightarrow> tenant \<Rightarrow> bool" where
  "cached w k t \<longleftrightarrow> (\<exists>ts. (k, t, ts) \<in> set (resolver_cache w))"

definition fresh_entry :: "env \<Rightarrow> world \<Rightarrow> real \<Rightarrow> bool" where
  "fresh_entry E w ts \<longleftrightarrow> clock E (trace w) - ts \<le> of_int (RESOLVER_CACHE_TTL (conf E))"

lemma cache_get_run:
  "cache_get E k w =
    (case map_of (resolver_cache w) k of
       None \<Rightarrow> (Inr None, w)
     | Some (t, ts) \<Rightarrow>
         if fresh_entry E w ts then (Inr (Some t), w)
         else (Inr None, w\<lparr>resolver_cache := dict_del k (resolver_cache w)\<rparr>))"
  by (auto simp: cache_get_def fresh_entry_def pyc_defs split: option.splits)

lemma oldest_key_least:
  assumes "c \<noteq> []" "dict_wf c"
  shows "\<exists>k t ts. oldest_key c = Inr k \<and> (k, t, ts) \<in> set c \<and> (\<forall>(k', t', ts') \<in> set c. ts \<le> ts')"
  using assms
proof (induction c rule: oldest_key.induct)
  case (3 k t ts kv rest)
  then have wf: "dict_wf (kv # rest)" by (auto simp: dict_wf_def dict_keys_def)
  with "3.IH" obtain k' t' ts' where o: "oldest_key (kv # rest) = Inr k'" "(k', t', ts') \<in> set (kv # rest)"
    "\<forall>(k'', t'', ts'') \<in> set (kv # rest). ts' \<le> ts''" by blast
  from o(2) have m: "map_of (kv # rest) k' = Some (t', ts')" by (rule map_of_dict_wf [OF wf, THEN iffD2])
  have run: "oldest_key ((k, t, ts) # kv # rest) = (if ts' < ts then Inr k' else Inr k)"
    by (simp only: oldest_key.simps o(1) m sum.case option.case prod.case)
  show ?case
  proof (cases "ts' < ts")
    case True
    then have "\<forall>(k'', t'', ts'') \<in> set ((k, t, ts) # kv # rest). ts' \<le> ts''" using o(3) by auto
    moreover have "(k', t', ts') \<in> set ((k, t, ts) # kv # rest)" using o(2) by (rule list.set_intros(2))
    ultimately show ?thesis unfolding run using True by (simp only: if_True) blast
  next
    case False
    then have "ts \<le> ts''" if "(k'', t'', ts'') \<in> set (kv # rest)" for k'' t'' ts''
      using that o(3) by fastforce
    then have "\<forall>(k'', t'', ts'') \<in> set ((k, t, ts) # kv # rest). ts \<le> ts''" by auto
    moreover have "(k, t, ts) \<in> set ((k, t, ts) # kv # rest)" by (rule list.set_intros(1))
    ultimately show ?thesis unfolding run using False by (simp only: if_False) blast
  qed
qed auto

text \<open>The dictionary \<open>_cache_set\<close> stores into: without its oldest entry when full.\<close>

definition room_for :: "env \<Rightarrow> string \<Rightarrow> world \<Rightarrow> (string, tenant \<times> real) dict" where
  "room_for E k w =
     (if int (length (resolver_cache w)) \<ge> RESOLVER_CACHE_SIZE (conf E) \<and> \<not> dict_has k (resolver_cache w)
      then (case oldest_key (resolver_cache w) of Inl _ \<Rightarrow> resolver_cache w | Inr o' \<Rightarrow> dict_del o' (resolver_cache w))
      else resolver_cache w)"

lemma cache_set_run:
  "cache_set E k t w =
    (if int (length (resolver_cache w)) \<ge> RESOLVER_CACHE_SIZE (conf E) \<and> \<not> dict_has k (resolver_cache w)
        \<and> isl (oldest_key (resolver_cache w))
     then (Inl (projl (oldest_key (resolver_cache w))), w)
     else (Inr (), w\<lparr>resolver_cache := dict_set k (t, clock E (trace w)) (room_for E k w)\<rparr>))"
  by (auto simp: cache_set_def room_for_def pyc_defs split: sum.splits)

lemma room_for_subset: "set (room_for E k w) \<subseteq> set (resolver_cache w)"
  by (auto simp: room_for_def dict_del_def split: sum.splits)

interpretation resolver_cache: lookaside "cache_get E" "cache_set E" cached for E
proof unfold_locales
  fix k w t w' assume "cache_get E k w = (Inr (Some t), w')"
  then show "cached w k t"
    by (auto simp: cache_get_run cached_def split: option.splits prod.splits if_splits dest: map_of_SomeD)
next
  fix k show "total (cache_get E k)"
    by (auto simp: total_def cache_get_run split: option.splits prod.splits)
next
  fix k w k' t' assume "cached (snd (cache_get E k w)) k' t'"
  then show "cached w k' t'"
    by (auto simp: cache_get_run cached_def dict_del_def split: option.splits prod.splits if_splits)
next
  fix k t w k' t' assume "cached (snd (cache_set E k t w)) k' t'"
  then show "k' = k \<and> t' = t \<or> cached w k' t'"
    using room_for_subset [of E k w]
    by (auto simp: cache_set_run cached_def split: if_splits dest!: dict_set_elem)
qed

lemma oldest_key_Inr: "c \<noteq> [] \<Longrightarrow> \<exists>k. oldest_key c = Inr k"
  by (induction c rule: oldest_key.induct) (auto split: option.splits)

lemma cache_set_total: "0 < RESOLVER_CACHE_SIZE (conf E) \<Longrightarrow> total (cache_set E k t)"
proof -
  assume size: "0 < RESOLVER_CACHE_SIZE (conf E)"
  have "\<not> isl (oldest_key (resolver_cache w))" if "int (length (resolver_cache w)) \<ge> RESOLVER_CACHE_SIZE (conf E)" for w
    using that size oldest_key_Inr [of "resolver_cache w"] by fastforce
  then show ?thesis by (auto simp: total_def cache_set_run)
qed

text \<open>
  Whatever is done to the cache, it holds no key twice and not more entries than it may; storing keeps
  that for every configured size, zero and negative ones included.
\<close>

definition cache_bounded :: "env \<Rightarrow> world \<Rightarrow> bool" where
  "cache_bounded E w \<longleftrightarrow> dict_wf (resolver_cache w) \<and>
     int (length (resolver_cache w)) \<le> max 0 (RESOLVER_CACHE_SIZE (conf E))"

lemma cache_bounded_filter:
  assumes "cache_bounded E w"
  shows "cache_bounded E (w\<lparr>resolver_cache := filter P (resolver_cache w)\<rparr>)"
proof -
  have "int (length (filter P (resolver_cache w))) \<le> int (length (resolver_cache w))" by simp
  also have "\<dots> \<le> max 0 (RESOLVER_CACHE_SIZE (conf E))" using assms by (simp add: cache_bounded_def)
  finally show ?thesis
    using assms by (simp add: cache_bounded_def dict_wf_def dict_keys_def distinct_map_filter)
qed

lemma cache_bounded_set:
  assumes "cache_bounded E w"
  shows "cache_bounded E (snd (cache_set E k t w))"
proof (cases "int (length (resolver_cache w)) \<ge> RESOLVER_CACHE_SIZE (conf E) \<and> \<not> dict_has k (resolver_cache w)")
  case False
  have "int (length (dict_set k v (resolver_cache w))) \<le> max 0 (RESOLVER_CACHE_SIZE (conf E))" for v
    using False assms by (cases "dict_has k (resolver_cache w)")
      (auto simp: dict_set_length_present dict_set_new cache_bounded_def)
  with False assms show ?thesis by (auto simp: cache_set_run room_for_def cache_bounded_def)
next
  case True
  show ?thesis
  proof (cases "oldest_key (resolver_cache w)")
    case (Inl e)
    with assms show ?thesis by (simp add: cache_set_run cache_bounded_def True)
  next
    case (Inr gone)
    then have ne: "resolver_cache w \<noteq> []" by auto
    from assms have wf: "dict_wf (resolver_cache w)" by (simp add: cache_bounded_def)
    from oldest_key_least [OF ne wf] Inr have "dict_has gone (resolver_cache w)"
      by (auto simp: dict_has_def dict_keys_def rev_image_eqI)
    then have "Suc (length (dict_del gone (resolver_cache w))) = length (resolver_cache w)"
      by (rule dict_del_length [OF wf])
    moreover have "\<not> dict_has k (dict_del gone (resolver_cache w))" using True by (auto simp: dict_has_map_of)
    ultimately have "length (dict_set k v (dict_del gone (resolver_cache w))) = length (resolver_cache w)" for v
      by (simp add: dict_set_new)
    with True Inr assms show ?thesis by (auto simp: cache_set_run room_for_def cache_bounded_def)
  qed
qed

text \<open>
  C35: The cache never outgrows \<open>BOUNDARY_RESOLVER_CACHE_SIZE\<close> and never holds a key twice. Storing
  puts the tenant with the current time under its key. When the key was there already or the cache was
  not full, every other entry stays as it was. Otherwise exactly one entry is dropped, one stored no
  later than any other, and the rest stay: the entry stored longest ago goes, however often it is read.
\<close>
theorem cache_set_evicts_oldest:
  assumes "0 < RESOLVER_CACHE_SIZE (conf E)" "dict_wf (resolver_cache w)"
    and "int (length (resolver_cache w)) \<le> RESOLVER_CACHE_SIZE (conf E)"
  shows "let c = resolver_cache w; c' = resolver_cache (snd (cache_set E k t w)) in
    fst (cache_set E k t w) = Inr () \<and> dict_wf c' \<and> int (length c') \<le> RESOLVER_CACHE_SIZE (conf E) \<and>
    map_of c' k = Some (t, clock E (trace w)) \<and>
    (if map_of c k \<noteq> None \<or> int (length c) < RESOLVER_CACHE_SIZE (conf E)
     then \<forall>k'. k' \<noteq> k \<longrightarrow> map_of c' k' = map_of c k'
     else \<exists>gone t' ts. gone \<noteq> k \<and> map_of c gone = Some (t', ts) \<and> (\<forall>(_, _, ts') \<in> set c. ts \<le> ts') \<and>
       map_of c' gone = None \<and> (\<forall>k'. k' \<noteq> k \<and> k' \<noteq> gone \<longrightarrow> map_of c' k' = map_of c k'))"
proof (cases "int (length (resolver_cache w)) \<ge> RESOLVER_CACHE_SIZE (conf E) \<and> \<not> dict_has k (resolver_cache w)")
  case False
  have "int (length (dict_set k v (resolver_cache w))) \<le> RESOLVER_CACHE_SIZE (conf E)" for v
    using False assms(3) by (cases "dict_has k (resolver_cache w)") (auto simp: dict_set_length_present dict_set_new)
  with False assms(2) show ?thesis by (auto simp: cache_set_run room_for_def Let_def dict_has_map_of)
next
  case True
  then have ne: "resolver_cache w \<noteq> []" using assms(1) by auto
  obtain o' t' ts where o': "oldest_key (resolver_cache w) = Inr o'" "(o', t', ts) \<in> set (resolver_cache w)"
    "\<forall>(k', t', ts') \<in> set (resolver_cache w). ts \<le> ts'"
    using oldest_key_least [OF ne assms(2)] by blast
  have m: "map_of (resolver_cache w) o' = Some (t', ts)" using o'(2) by (rule map_of_dict_wf [OF assms(2), THEN iffD2])
  then have has: "dict_has o' (resolver_cache w)" by (simp add: dict_has_map_of)
  then have len: "Suc (length (dict_del o' (resolver_cache w))) = length (resolver_cache w)"
    by (rule dict_del_length [OF assms(2)])
  have "\<not> dict_has k (dict_del o' (resolver_cache w))" using True by (auto simp: dict_has_map_of)
  then have "length (dict_set k v (dict_del o' (resolver_cache w))) = length (resolver_cache w)" for v
    using len by (simp add: dict_set_new)
  moreover have "o' \<noteq> k" using True has by auto
  moreover have "map_of (resolver_cache w) k = None"
    using True by (cases "map_of (resolver_cache w) k") (auto simp: dict_has_map_of)
  ultimately show ?thesis using True o' m assms
    by (simp add: cache_set_run room_for_def Let_def)
qed

definition tiny_cache :: env where
  "tiny_cache = pg_env\<lparr>conf := regional_settings\<lparr>BOUNDARY_RESOLVER_CACHE_SIZE := Some 2\<rparr>\<rparr>"

lemma tiny_cache_size [simp]: "RESOLVER_CACHE_SIZE (conf tiny_cache) = 2"
  by (simp add: tiny_cache_def RESOLVER_CACHE_SIZE_def)

definition full_world :: world where
  "full_world = fresh_world\<lparr>resolver_cache := [(''subdomain:a'', club 1 ''eu'', 5), (''subdomain:b'', club 2 ''eu'', 4)]\<rparr>"

theorem cache_set_evicts_oldest_witness:
  "let store = (\<lambda>k t. resolver_cache (snd (cache_set tiny_cache k t full_world))) in
    map_of (store ''subdomain:c'' (club 3 ''eu'')) ''subdomain:b'' = None \<and>
    map_of (store ''subdomain:c'' (club 3 ''eu'')) ''subdomain:a'' = Some (club 1 ''eu'', 5) \<and>
    map_of (store ''subdomain:a'' (club 1 ''us'')) ''subdomain:b'' = Some (club 2 ''eu'', 4)"
proof -
  let ?c = "[(''subdomain:a'', club 1 ''eu'', 5 :: real), (''subdomain:b'', club 2 ''eu'', 4)]"
  let ?store = "\<lambda>k t. resolver_cache (snd (cache_set tiny_cache k t full_world))"
  have cache: "resolver_cache full_world = ?c" by (simp add: full_world_def)
  have bounds: "0 < RESOLVER_CACHE_SIZE (conf tiny_cache)" "dict_wf (resolver_cache full_world)"
    "int (length (resolver_cache full_world)) \<le> RESOLVER_CACHE_SIZE (conf tiny_cache)"
    by (simp_all add: cache dict_wf_def)
  from cache_set_evicts_oldest [OF bounds, of "''subdomain:c''" "club 3 ''eu''"] obtain gone t' ts where
    gone: "map_of ?c gone = Some (t', ts)" "ts \<le> 4" "map_of (?store ''subdomain:c'' (club 3 ''eu'')) gone = None"
    "\<forall>k'. k' \<noteq> ''subdomain:c'' \<and> k' \<noteq> gone \<longrightarrow> map_of (?store ''subdomain:c'' (club 3 ''eu'')) k' = map_of ?c k'"
    by (auto simp: Let_def cache)
  then have "gone = ''subdomain:b''" by (auto split: if_splits)
  moreover have "map_of (?store ''subdomain:a'' (club 1 ''us'')) ''subdomain:b'' = Some (club 2 ''eu'', 4)"
    using cache_set_evicts_oldest [OF bounds, of "''subdomain:a''" "club 1 ''us''"] by (simp add: Let_def cache)
  ultimately show ?thesis using gone by (simp add: Let_def)
qed

text \<open>
  What is stored is served under its key, from any later state in which the cache is as the store
  left it, until the configured time to live has passed since; after that the look-up misses and
  drops that entry, and only that one.
\<close>
theorem cached_until_ttl:
  assumes "0 < RESOLVER_CACHE_SIZE (conf E)" "resolver_cache w' = resolver_cache (snd (cache_set E k t w))"
  shows "cache_get E k w' =
    (if clock E (trace w') - clock E (trace w) \<le> of_int (RESOLVER_CACHE_TTL (conf E)) then (Inr (Some t), w')
     else (Inr None, w'\<lparr>resolver_cache := dict_del k (resolver_cache w')\<rparr>))"
proof -
  have "\<not> isl (fst (cache_set E k t w))"
    using totalE [OF cache_set_total [OF assms(1)], of k t w] by (metis fst_conv isl_def Inl_Inr_False)
  then have "map_of (resolver_cache w') k = Some (t, clock E (trace w))"
    using assms(2) by (auto simp: cache_set_run split: if_splits)
  then show ?thesis by (simp add: cache_get_run fresh_entry_def)
qed

theorem cached_until_ttl_witness:
  "fst (cache_get pg_env ''subdomain:a'' (snd (cache_set pg_env ''subdomain:a'' (club 1 ''eu'') fresh_world)))
     = Inr (Some (club 1 ''eu''))"
proof -
  have c: "RESOLVER_CACHE_SIZE (conf pg_env) = 1000" "RESOLVER_CACHE_TTL (conf pg_env) = 60"
    by (simp_all add: RESOLVER_CACHE_SIZE_def RESOLVER_CACHE_TTL_def regional_settings_def default_settings_def)
  have "trace (snd (cache_set pg_env ''subdomain:a'' (club 1 ''eu'') fresh_world)) = []"
    by (simp add: cache_set_run c)
  with c show ?thesis
    using cached_until_ttl [of pg_env "snd (cache_set pg_env ''subdomain:a'' (club 1 ''eu'') fresh_world)"
        "''subdomain:a''" "club 1 ''eu''" fresh_world] by simp
qed

text \<open>
  \<open>invalidate_cache\<close>, given a tenant or its bare primary key, removes every entry of the tenants
  with that key, under whatever key and resolver, and no other entry; no look-up serves such a tenant
  afterwards.
\<close>
theorem invalidate_removes_tenant:
  "let w' = snd (invalidate_cache (TenantArg (Some t)) w) in
    snd (invalidate_cache (ValueArg (t_pk t)) w) = w' \<and>
    (\<forall>k t'. cached w' k t' \<longleftrightarrow> cached w k t' \<and> t_pk t' \<noteq> t_pk t) \<and>
    (\<forall>k. case fst (cache_get E k w') of Inr (Some t') \<Rightarrow> t_pk t' \<noteq> t_pk t | _ \<Rightarrow> True)"
proof -
  let ?w' = "snd (invalidate_cache (TenantArg (Some t)) w)"
  have held: "cached ?w' k t' \<longleftrightarrow> cached w k t' \<and> t_pk t' \<noteq> t_pk t" for k t'
    by (auto simp: invalidate_cache_def cache_invalidate_def cached_def)
  have "case fst (cache_get E k ?w') of Inr (Some t') \<Rightarrow> t_pk t' \<noteq> t_pk t | _ \<Rightarrow> True" for k
    using resolver_cache.get_hit [of E k ?w'] held by (cases "cache_get E k ?w'") (auto split: sum.splits option.splits)
  with held show ?thesis by (auto simp: Let_def invalidate_cache_def cache_invalidate_def)
qed

text \<open>
  With \<open>BOUNDARY_RESOLVER_CACHE_SIZE\<close> set to 0 nothing can be stored: the cache counts as full
  while it is empty, the search for its oldest entry raises \<open>ValueError\<close>, and a caching resolver
  raises after it has found the tenant.
\<close>
theorem zero_cache_size_fails:
  assumes "RESOLVER_CACHE_SIZE (conf E) = 0" "resolver_cache w = []"
    and "\<And>w. resolver_cache (snd (fetch w)) = resolver_cache w" "\<exists>w'. fetch w = (Inr (Some t), w')"
  shows "\<exists>e. fst (through_cache (cache_get E) (cache_set E) k fetch w) = Inl (PyValueError e)"
proof -
  obtain w' where w': "fetch w = (Inr (Some t), w')" using assms(4) by blast
  with assms(2) assms(3) [of w] have "resolver_cache w' = []" by simp
  then have "cache_set E k t w' = (Inl (PyValueError ''min() iterable argument is empty''), w')"
    by (simp add: cache_set_run assms(1))
  moreover have "cache_get E k w = (Inr None, w)" by (simp add: cache_get_run assms(2))
  ultimately show ?thesis using w' by (simp add: through_cache_def bindc_Inr seqc_def bindc_def)
qed

definition no_cache :: env where
  "no_cache = pg_env\<lparr>conf := regional_settings\<lparr>BOUNDARY_RESOLVER_CACHE_SIZE := Some 0\<rparr>,
     tenant_get := (\<lambda>_ _. Inr (club 1 ''eu''))\<rparr>"

theorem zero_cache_size_fails_witness:
  "\<exists>e. fst (through_cache (cache_get no_cache) (cache_set no_cache) ''subdomain:a''
     (bindc (fetch_tenant no_cache (ByField ''slug'' ''a'')) (\<lambda>t. ret (Some t))) fresh_world) = Inl (PyValueError e)"
proof (rule zero_cache_size_fails [where t = "club 1 ''eu''"])
  show "RESOLVER_CACHE_SIZE (conf no_cache) = 0" by (simp add: no_cache_def RESOLVER_CACHE_SIZE_def)
qed (auto simp: fetch_tenant_def no_cache_def bindc_def)

section \<open>Resolving with and without the cache\<close>

text \<open>\<open>get_stable\<close>: the tenant table does not change, so a read answers the same at any time.\<close>

definition get_stable :: "env \<Rightarrow> (lookup \<Rightarrow> exn + tenant) \<Rightarrow> bool" where
  "get_stable E get \<longleftrightarrow> (\<forall>tr. tenant_get E tr = get)"

text \<open>The answer of a slug look-up, and what each entry a resolver stored must then hold.\<close>

definition slug_answer :: "env \<Rightarrow> (lookup \<Rightarrow> exn + tenant) \<Rightarrow> string \<Rightarrow> exn + tenant option" where
  "slug_answer E get slug =
     (case resolve_tenant_model_setting (conf E) of
        Inl e \<Rightarrow> Inl e
      | Inr _ \<Rightarrow> (case get (ByField (SUBDOMAIN_FIELD (conf E)) slug) of
            Inr t \<Rightarrow> Inr (Some t)
          | Inl e \<Rightarrow> if is_does_not_exist e then Inr None else Inl e))"

definition cache_consistent :: "env \<Rightarrow> (lookup \<Rightarrow> exn + tenant) \<Rightarrow> world \<Rightarrow> bool" where
  "cache_consistent E get w \<longleftrightarrow>
     (\<forall>slug t. cached w (''subdomain:'' @ slug) t \<longrightarrow> slug_answer E get slug = Inr (Some t))"

definition slug_fetch :: "env \<Rightarrow> string \<Rightarrow> tenant option comp" where
  "slug_fetch E slug = seqc (checked_model E)
     (except_when is_does_not_exist
        (bindc (fetch_tenant E (ByField (SUBDOMAIN_FIELD (conf E)) slug)) (\<lambda>t. ret (Some t))) (ret None))"

lemma keeps_fetch_tenant [keeps_intros]: "state_only f \<Longrightarrow> keeps f (fetch_tenant E lk)"
  by (auto simp: keeps_def fetch_tenant_def state_only_def split: sum.splits)

lemma keeps_except_when [keeps_intros]: "keeps f m \<Longrightarrow> keeps f h \<Longrightarrow> keeps f (except_when P m h)"
  unfolding except_when_def by (intro keeps_intros)

lemma keeps_slug_fetch: "keeps resolver_cache (slug_fetch E slug)"
  unfolding slug_fetch_def checked_model_def by (intro keeps_intros)

lemma slug_fetch_answer: "get_stable E get \<Longrightarrow> fst (slug_fetch E slug w) = slug_answer E get slug"
  by (auto simp: slug_fetch_def slug_answer_def checked_model_def except_when_def get_stable_def
      fetch_tenant_def pyc_defs split: sum.splits dest: specific_exceptions)

lemma cached_cong: "resolver_cache w = resolver_cache w' \<Longrightarrow> cached w k t = cached w' k t"
  by (simp add: cached_def)

lemma subdomain_resolve_run:
  "subdomain_resolve E req w =
    (case r_host req of
       Inl e \<Rightarrow> (Inl e, w)
     | Inr raw \<Rightarrow>
         (case subdomain_slug (conf E) raw of
            None \<Rightarrow> (Inr None, w)
          | Some slug \<Rightarrow>
              through_cache (cache_get E) (cache_set E) (''subdomain:'' @ slug) (slug_fetch E slug)
                (w\<lparr>logs := (LogDebug, ''SubdomainResolver attempt'') # logs w\<rparr>)))"
  by (simp add: subdomain_resolve_def slug_fetch_def bindc_liftc seqc_Inr [OF log_apply] split: sum.splits option.splits)

text \<open>
  C34: The cache is an optimisation only: while the tenant table stands still, a \<open>SubdomainResolver\<close>
  whose cached entries agree with it answers every request (tenant, none or exception) exactly as
  with an empty cache, and leaves a cache that agrees with the table again.
\<close>
theorem subdomain_cache_transparent:
  assumes "get_stable E get" "0 < RESOLVER_CACHE_SIZE (conf E)" "cache_consistent E get w"
  shows "fst (subdomain_resolve E req w) = fst (subdomain_resolve E req (w\<lparr>resolver_cache := []\<rparr>)) \<and>
    cache_consistent E get (snd (subdomain_resolve E req w))"
proof (cases "\<exists>raw slug. r_host req = Inr raw \<and> subdomain_slug (conf E) raw = Some slug")
  case False
  with assms(3) show ?thesis by (auto simp: subdomain_resolve_run split: sum.splits option.splits)
next
  case True
  then obtain raw slug where host: "r_host req = Inr raw" "subdomain_slug (conf E) raw = Some slug" by blast
  let ?lg = "\<lambda>w. w\<lparr>logs := (LogDebug, ''SubdomainResolver attempt'') # logs w\<rparr>"
  have run: "subdomain_resolve E req w =
      through_cache (cache_get E) (cache_set E) (''subdomain:'' @ slug) (slug_fetch E slug) (?lg w)" for w
    using host by (simp add: subdomain_resolve_run)
  have answer: "fst (subdomain_resolve E req w) = slug_answer E get slug" if "cache_consistent E get w" for w
    unfolding run
  proof (rule resolver_cache.through_answer)
    fix t assume "cached (?lg w) (''subdomain:'' @ slug) t"
    with that show "slug_answer E get slug = Inr (Some t)" by (simp add: cache_consistent_def cached_def)
  qed (use assms in \<open>auto simp: slug_fetch_answer cache_set_total\<close>)
  have "cache_consistent E get (w\<lparr>resolver_cache := []\<rparr>)" by (simp add: cache_consistent_def cached_def)
  moreover have "cache_consistent E get (snd (subdomain_resolve E req w))"
    unfolding cache_consistent_def
  proof (intro allI impI)
    fix slug' t assume held: "cached (snd (subdomain_resolve E req w)) (''subdomain:'' @ slug') t"
    have "\<forall>s. ''subdomain:'' @ slug' = ''subdomain:'' @ s \<longrightarrow> slug_answer E get s = Inr (Some t)"
    proof (rule resolver_cache.through_invariant [where
          P = "\<lambda>k t. \<forall>s. k = ''subdomain:'' @ s \<longrightarrow> slug_answer E get s = Inr (Some t)"])
      show "cached (snd (through_cache (cache_get E) (cache_set E) (''subdomain:'' @ slug) (slug_fetch E slug) (?lg w)))
          (''subdomain:'' @ slug') t"
        using held run by simp
    next
      fix k t assume "cached (?lg w) k t"
      with assms(3) show "\<forall>s. k = ''subdomain:'' @ s \<longrightarrow> slug_answer E get s = Inr (Some t)"
        by (auto simp: cache_consistent_def cached_def)
    next
      fix w k t assume "cached (snd (slug_fetch E slug w)) k t"
      then show "cached w k t" using cached_cong [OF keepsD [OF keeps_slug_fetch]] by blast
    next
      fix w w' t assume "slug_fetch E slug w = (Inr (Some t), w')"
      then show "\<forall>s. ''subdomain:'' @ slug = ''subdomain:'' @ s \<longrightarrow> slug_answer E get s = Inr (Some t)"
        using slug_fetch_answer [OF assms(1), of slug w] by simp
    qed
    then show "slug_answer E get slug' = Inr (Some t)" by simp
  qed
  ultimately show ?thesis using answer assms(3) by simp
qed

text \<open>A club under its slug, cached and in the table.\<close>

definition club_lookup :: "lookup \<Rightarrow> exn + tenant" where
  "club_lookup lk = (if lk = ByField ''slug'' ''eu'' then Inr (club 1 ''eu'') else Inl ObjectDoesNotExist)"

definition club_env :: env where
  "club_env = pg_env\<lparr>tenant_get := (\<lambda>_. club_lookup)\<rparr>"

definition warm_world :: world where
  "warm_world = fresh_world\<lparr>resolver_cache := [(''subdomain:eu'', club 1 ''eu'', 0)]\<rparr>"

theorem subdomain_cache_transparent_witness:
  "fst (subdomain_resolve club_env (host_request ''eu.club.example.com'') warm_world) = Inr (Some (club 1 ''eu'')) \<and>
    fst (subdomain_resolve club_env (host_request ''eu.club.example.com'') (warm_world\<lparr>resolver_cache := []\<rparr>)) =
      Inr (Some (club 1 ''eu'')) \<and>
    trace (snd (subdomain_resolve club_env (host_request ''eu.club.example.com'') warm_world)) = []"
proof -
  have size: "0 < RESOLVER_CACHE_SIZE (conf club_env)" and ttl: "RESOLVER_CACHE_TTL (conf club_env) = 60"
    by (simp_all add: club_env_def RESOLVER_CACHE_SIZE_def RESOLVER_CACHE_TTL_def regional_settings_def default_settings_def)
  have clock: "clock club_env tr = real (length tr)" for tr
    by (simp add: club_env_def pg_env_def replay_env_def)
  have stable: "get_stable club_env club_lookup" by (simp add: get_stable_def club_env_def)
  have answer: "slug_answer club_env club_lookup ''eu'' = Inr (Some (club 1 ''eu''))"
    by (simp add: slug_answer_def club_env_def club_lookup_def SUBDOMAIN_FIELD_def regional_settings_def
        default_settings_def resolve_tenant_model_setting_def str_or_def)
  then have consistent: "cache_consistent club_env club_lookup warm_world"
    by (auto simp: cache_consistent_def cached_def warm_world_def)
  have slug: "subdomain_slug (conf club_env) ''eu.club.example.com'' = Some ''eu''"
    by (simp add: club_env_def) code_simp
  have hit: "fst (subdomain_resolve club_env (host_request ''eu.club.example.com'') warm_world) = Inr (Some (club 1 ''eu'')) \<and>
      trace (snd (subdomain_resolve club_env (host_request ''eu.club.example.com'') warm_world)) = []"
    by (simp add: subdomain_resolve_run host_request_def slug through_cache_def bindc_def cache_get_run fresh_entry_def warm_world_def ttl clock)
  show ?thesis
    using subdomain_cache_transparent [OF stable size consistent, of "host_request ''eu.club.example.com''"] hit by simp
qed

section \<open>The header resolver's fallbacks\<close>

text \<open>
  The slug fallback of \<open>HeaderResolver\<close> is out of reach when the tenant model validates its
  primary key (a \<open>UUIDField\<close> raises \<open>ValidationError\<close> for text that is no UUID): that exception is
  none of those the second step catches, so the resolver raises, and no look-up by slug is made.
\<close>
theorem header_slug_fallback_unreachable:
  assumes "map_of (r_meta req) (header_meta_key (conf E)) = Some v" "v \<noteq> []"
    and "map_of (resolver_cache w) (''header:'' @ v) = None" "parse_uuid v = Inl (PyValueError why)"
    and "resolve_tenant_model_setting (conf E) = Inr path"
    and "tenant_get E (trace w) (ByPk (PStr v)) = Inl (ValidationError errs)"
  shows "fst (header_resolve E req w) = Inl (ValidationError errs) \<and>
    trace (snd (header_resolve E req w)) = (GetTenant (ByPk (PStr v)), False) # trace w"
  using assms
  by (simp add: header_resolve_def through_cache_def cache_get_run log_apply bindc_liftc
      checked_model_def header_fetch_def except_when_def fetch_tenant_def try_except_def seqc_def bindc_def)

definition uuid_keyed :: env where
  "uuid_keyed = pg_env\<lparr>tenant_get := (\<lambda>_ lk. case lk of
     ByPk (PUuid _) \<Rightarrow> Inl ObjectDoesNotExist
   | ByPk _ \<Rightarrow> Inl (ValidationError [(''id'', ''is not a valid UUID.'')])
   | ByField _ _ \<Rightarrow> Inr (club 1 ''eu''))\<rparr>"

theorem header_slug_fallback_unreachable_witness:
  "\<not> (\<exists>t. fst (header_resolve uuid_keyed
       (host_request ''example.com''\<lparr>r_meta := [(''HTTP_X_TENANT_ID'', ''club-a'')]\<rparr>) fresh_world) = Inr (Some t))"
proof -
  have "parse_uuid ''club-a'' = Inl (PyValueError ''badly formed hexadecimal UUID string'')" by code_simp
  moreover have "header_meta_key regional_settings = ''HTTP_X_TENANT_ID''"
  proof -
    have "HEADER_NAME regional_settings = ''X-Tenant-ID''"
      by (simp add: HEADER_NAME_def regional_settings_def default_settings_def)
    moreover have "''HTTP_'' @ replace_all ''-'' ''_'' (upper ''X-Tenant-ID'') = ''HTTP_X_TENANT_ID''" by code_simp
    ultimately show ?thesis by (simp add: header_meta_key_def)
  qed
  moreover have "resolve_tenant_model_setting regional_settings = Inr ''tenants.Club''" by code_simp
  ultimately show ?thesis
    using header_slug_fallback_unreachable [of "host_request ''example.com''\<lparr>r_meta := [(''HTTP_X_TENANT_ID'', ''club-a'')]\<rparr>"
        uuid_keyed "''club-a''" fresh_world]
    by (simp add: uuid_keyed_def host_request_def)
qed

text \<open>
  What a token resolves to: a payload that cannot be decoded, or without the claim, yields \<open>None\<close>
  without touching the tenant model, but a payload that is a JSON value other than an object raises.
\<close>

lemma jwt_payload_shapes:
  assumes "map_of (r_meta req) ''HTTP_AUTHORIZATION'' = Some (''Bearer '' @ token)"
    and "split_on CHR ''.'' token = [header, body, signature]"
    and "decode (body @ replicate (4 - length body mod 4) (CHR ''='')) = payload"
  shows "payload = None \<Longrightarrow> jwt_resolve E decode req w = (Inr None, w)"
    and "payload = Some JOther \<Longrightarrow> jwt_resolve E decode req w = (Inl (PyAttributeError ''get''), w)"
    and "payload = Some (JObject obj) \<Longrightarrow> map_of obj (JWT_CLAIM (conf E)) = None \<Longrightarrow>
      jwt_resolve E decode req w = (Inr None, w)"
  using assms by (simp_all add: jwt_resolve_def starts_with_def Let_def)

end
