(* ===== verification/Models.thy ===== *)
theory Models
  imports Context
begin

text \<open>
  The ORM layer (\<open>src/boundary/models.py\<close>): which models are tenant-scoped and by what, the managers
  that filter reads and guard writes, the tenant stamped by \<open>save()\<close>, the cross-tenant foreign key
  check and per-tenant uniqueness. Django is not under \<open>src/\<close>: the overridden \<open>super()\<close> methods and
  the look-ups that reach the database are arguments. A model class is a record of the class
  attributes the code reads; an instance holds its column values by \<open>attname\<close>.
\<close>

section \<open>Model classes and instances\<close>

record model_field =
  f_name :: string
  f_attname :: string
  f_many_to_one :: bool
  f_foreign_key :: bool
  f_target :: "string option"

text \<open>
  \<open>m_registered\<close>: the class is in \<open>_tenant_model_registry\<close>. \<open>m_tenant_path\<close> and \<open>m_fk_field\<close>: the
  class attributes \<open>boundary_tenant_path\<close> and \<open>_boundary_fk_field\<close>, \<open>None\<close> when absent.
\<close>

record model_class =
  m_name :: string
  m_registered :: bool
  m_tenant_path :: "string option"
  m_fk_field :: "string option"
  m_fields :: "model_field list"

record instance_of =
  i_model :: model_class
  i_pk :: pyval
  i_attrs :: "(string, pyval) dict"
  i_skip_auto_populate :: bool

text \<open>\<open>getattr(obj, name)\<close>, which raises when the attribute is missing, and \<open>getattr(obj, name, None)\<close>\<close>

definition attr :: "instance_of \<Rightarrow> string \<Rightarrow> exn + pyval" where
  "attr obj name = (case map_of (i_attrs obj) name of None \<Rightarrow> Inl (PyAttributeError name) | Some v \<Rightarrow> Inr v)"

definition attr_or_None :: "instance_of \<Rightarrow> string \<Rightarrow> pyval" where
  "attr_or_None obj name = (case map_of (i_attrs obj) name of None \<Rightarrow> PNone | Some v \<Rightarrow> v)"

definition id_field :: "string \<Rightarrow> string" where
  "id_field fk = fk @ ''_id''"

text \<open>\<open>setattr(obj, fk_field, tenant)\<close>: a foreign key's descriptor stores the target's key.\<close>

definition stamp :: "string \<Rightarrow> tenant \<Rightarrow> instance_of \<Rightarrow> instance_of" where
  "stamp fk t obj = obj\<lparr>i_attrs := dict_set (id_field fk) (t_pk t) (i_attrs obj)\<rparr>"

section \<open>What scopes a model\<close>

definition path_declared :: "model_class \<Rightarrow> bool" where
  "path_declared m \<longleftrightarrow> (case m_tenant_path m of None \<Rightarrow> False | Some p \<Rightarrow> p \<noteq> [])"

definition is_tenant_model :: "model_class \<Rightarrow> bool" where
  "is_tenant_model m =
     (if m_registered m then True
      else if path_declared m then True
      else m_fk_field m \<noteq> None)"

definition get_tenant_fk_field :: "model_class \<Rightarrow> string option" where
  "get_tenant_fk_field m =
     (if path_declared m then None
      else case m_fk_field m of Some fk \<Rightarrow> Some fk | None \<Rightarrow> None)"

definition get_tenant_lookup :: "model_class \<Rightarrow> string option" where
  "get_tenant_lookup m = (if path_declared m then m_tenant_path m else m_fk_field m)"

definition has_tenant_column :: "model_class \<Rightarrow> bool" where
  "has_tenant_column m = (if path_declared m then False else m_fk_field m \<noteq> None)"

text \<open>\<open>getattr(self.model, "_boundary_fk_field", "tenant")\<close>\<close>

definition fk_field_or_tenant :: "model_class \<Rightarrow> string" where
  "fk_field_or_tenant m = (case m_fk_field m of None \<Rightarrow> ''tenant'' | Some fk \<Rightarrow> fk)"

section \<open>The cross-tenant foreign key check\<close>

text \<open>
  \<open>model_named\<close> gives the class a foreign key points at; \<open>first_value model column pk\<close> is
  \<open>model.unscoped.filter(pk=pk).values_list(column, flat=True).first()\<close>.
\<close>

definition cross_tenant_message :: "django_settings \<Rightarrow> instance_of \<Rightarrow> model_field \<Rightarrow> pyval \<Rightarrow> pyval \<Rightarrow> string" where
  "cross_tenant_message s obj f target_tenant own =
     f_name f @ '' belongs to a different '' @ TENANT_LABEL s @ '' ('' @ py_str target_tenant @
     '') than this '' @ m_name (i_model obj) @ '' ('' @ py_str own @ '').''"

definition checked_field :: "(string \<Rightarrow> model_class) \<Rightarrow> string \<Rightarrow> model_field \<Rightarrow> bool" where
  "checked_field model_named own_fk f \<longleftrightarrow>
     (f_many_to_one f \<and> f_foreign_key f) \<and> f_name f \<noteq> own_fk \<and>
     (case f_target f of
        None \<Rightarrow> False
      | Some m \<Rightarrow> is_tenant_model (model_named m) \<and> has_tenant_column (model_named m))"

definition field_error ::
  "django_settings \<Rightarrow> (string \<Rightarrow> model_class) \<Rightarrow> (string \<Rightarrow> string \<Rightarrow> pyval \<Rightarrow> pyval) \<Rightarrow> instance_of
     \<Rightarrow> string \<Rightarrow> pyval \<Rightarrow> model_field \<Rightarrow> string option" where
  "field_error s model_named first_value obj own_fk own f =
     (if \<not> checked_field model_named own_fk f then None
      else let target_id = attr_or_None obj (f_attname f); m = the (f_target f) in
        if target_id = PNone then None
        else let target_fk = the (get_tenant_fk_field (model_named m));
                 target_tenant = first_value m (id_field target_fk) target_id in
          if target_tenant = PNone then None
          else if target_tenant \<noteq> own
               then Some (cross_tenant_message s obj f target_tenant own)
               else None)"

definition validate_cross_tenant_fks ::
  "django_settings \<Rightarrow> (string \<Rightarrow> model_class) \<Rightarrow> (string \<Rightarrow> string \<Rightarrow> pyval \<Rightarrow> pyval) \<Rightarrow> instance_of
     \<Rightarrow> exn + unit" where
  "validate_cross_tenant_fks s model_named first_value obj =
     (case get_tenant_fk_field (i_model obj) of
        None \<Rightarrow> Inr ()
      | Some own_fk \<Rightarrow>
          (let own = attr_or_None obj (id_field own_fk) in
           if own = PNone then Inr ()
           else let errors = foldl (\<lambda>errs f.
                    case field_error s model_named first_value obj own_fk own f of
                      None \<Rightarrow> errs
                    | Some msg \<Rightarrow> dict_set (f_name f) msg errs) [] (m_fields (i_model obj))
                in if errors \<noteq> [] then Inl (ValidationError errors) else Inr ()))"

section \<open>TenantManager\<close>

text \<open>A queryset is its model, its database alias and the filters put on it.\<close>

record queryset =
  q_model :: model_class
  q_db :: "string option"
  q_filters :: "(string \<times> tenant) list"

definition get_queryset :: "env \<Rightarrow> model_class \<Rightarrow> string option \<Rightarrow> queryset comp" where
  "get_queryset E m db =
     bindc tc_get (\<lambda>tenant.
       let qs = \<lparr> q_model = m, q_db = db, q_filters = [] \<rparr> in
       case tenant of
         Some t \<Rightarrow>
           (let lookup = (case get_tenant_lookup m of
                            Some l \<Rightarrow> if l = [] then ''tenant'' else l
                          | None \<Rightarrow> ''tenant'')
            in ret (qs\<lparr>q_filters := [(lookup, t)]\<rparr>))
       | None \<Rightarrow>
           if STRICT_MODE (conf E)
           then seqc (performs E (SendSignal (StrictModeViolation (m_name m))))
                  (raise (TenantNotSetError (TENANT_LABEL (conf E)) (m_name m)))
           else ret qs)"

text \<open>The loop of \<open>bulk_create\<close>: objects are stamped in place, in order.\<close>

fun stamp_unset :: "string \<Rightarrow> tenant \<Rightarrow> instance_of list \<Rightarrow> exn + instance_of list" where
  "stamp_unset fk t [] = Inr []"
| "stamp_unset fk t (obj # objs) =
     (case attr obj (id_field fk) of
        Inl e \<Rightarrow> Inl e
      | Inr v \<Rightarrow>
          (case stamp_unset fk t objs of
             Inl e \<Rightarrow> Inl e
           | Inr objs' \<Rightarrow> Inr ((if v = PNone then stamp fk t obj else obj) # objs')))"

definition tm_bulk_create ::
  "env \<Rightarrow> (instance_of list \<Rightarrow> 'a comp) \<Rightarrow> model_class \<Rightarrow> instance_of list \<Rightarrow> 'a comp" where
  "tm_bulk_create E super_bulk_create m objs =
     (if \<not> has_tenant_column m then super_bulk_create objs
      else bindc (tc_require E) (\<lambda>t.
        bindc (liftc (stamp_unset (fk_field_or_tenant m) t objs)) super_bulk_create))"

definition belongs_message :: "django_settings \<Rightarrow> instance_of \<Rightarrow> pyval \<Rightarrow> tenant \<Rightarrow> string" where
  "belongs_message s obj owner t =
     m_name (i_model obj) @ '' (pk='' @ py_str (i_pk obj) @ '') belongs to '' @ TENANT_LABEL s @ '' '' @
     py_str owner @ '', not the active '' @ TENANT_LABEL s @ '' '' @ py_str (t_pk t) @
     ''. Cross-'' @ TENANT_LABEL s @ '' bulk_update is not allowed.''"

fun check_owned :: "django_settings \<Rightarrow> string \<Rightarrow> tenant \<Rightarrow> instance_of list \<Rightarrow> exn + unit" where
  "check_owned s fk t [] = Inr ()"
| "check_owned s fk t (obj # objs) =
     (case attr obj (id_field fk) of
        Inl e \<Rightarrow> Inl e
      | Inr v \<Rightarrow>
          if v \<noteq> t_pk t then Inl (PyValueError (belongs_message s obj v t))
          else check_owned s fk t objs)"

definition tm_bulk_update ::
  "env \<Rightarrow> (instance_of list \<Rightarrow> string list \<Rightarrow> 'a comp) \<Rightarrow> model_class \<Rightarrow> instance_of list \<Rightarrow> string list \<Rightarrow> 'a comp" where
  "tm_bulk_update E super_bulk_update m objs update_fields =
     (if \<not> has_tenant_column m then super_bulk_update objs update_fields
      else bindc (tc_require E) (\<lambda>t.
        bindc (liftc (check_owned (conf E) (fk_field_or_tenant m) t objs)) (\<lambda>_.
          super_bulk_update objs update_fields)))"

text \<open>
  Keyword arguments of \<open>get_or_create\<close> and \<open>update_or_create\<close>: the look-up, and the optional
  \<open>defaults\<close> dictionaries. A tenant is passed as itself, any other value by its Python value.
\<close>

type_synonym kwargs = "(string, pyarg) dict"

definition inject_into :: "string \<Rightarrow> tenant \<Rightarrow> kwargs \<Rightarrow> kwargs" where
  "inject_into fk t d =
     (if \<not> dict_has fk d \<and> \<not> dict_has (id_field fk) d then dict_set fk (TenantArg (Some t)) d else d)"

definition inject_tenant_kwargs ::
  "env \<Rightarrow> model_class \<Rightarrow> kwargs \<Rightarrow> kwargs option list \<Rightarrow> (kwargs \<times> kwargs option list) comp" where
  "inject_tenant_kwargs E m lookup defaults_dicts =
     (if \<not> has_tenant_column m then ret (lookup, defaults_dicts)
      else bindc (tc_require E) (\<lambda>t.
        ret (inject_into (fk_field_or_tenant m) t lookup,
             map (map_option (inject_into (fk_field_or_tenant m) t)) defaults_dicts)))"

definition tm_get_or_create ::
  "env \<Rightarrow> (kwargs option \<Rightarrow> kwargs \<Rightarrow> 'a comp) \<Rightarrow> model_class \<Rightarrow> kwargs option \<Rightarrow> kwargs \<Rightarrow> 'a comp" where
  "tm_get_or_create E super_get_or_create m defaults lookup =
     bindc (inject_tenant_kwargs E m lookup [defaults]) (\<lambda>(lookup', ds).
       super_get_or_create (ds ! 0) lookup')"

definition tm_update_or_create ::
  "env \<Rightarrow> (kwargs option \<Rightarrow> kwargs option \<Rightarrow> kwargs \<Rightarrow> 'a comp) \<Rightarrow> model_class \<Rightarrow> kwargs option
     \<Rightarrow> kwargs option \<Rightarrow> kwargs \<Rightarrow> 'a comp" where
  "tm_update_or_create E super_update_or_create m defaults create_defaults lookup =
     bindc (inject_tenant_kwargs E m lookup [defaults, create_defaults]) (\<lambda>(lookup', ds).
       super_update_or_create (ds ! 0) (ds ! 1) lookup')"

section \<open>save() and UnscopedManager\<close>

text \<open>\<open>save\<close> of the mixins; \<open>fk\<close> is \<open>"tenant"\<close> in \<open>TenantMixin\<close>, the chosen name in the factory's.\<close>

definition mixin_save :: "env \<Rightarrow> (instance_of \<Rightarrow> 'a comp) \<Rightarrow> string \<Rightarrow> instance_of \<Rightarrow> 'a comp" where
  "mixin_save E super_save fk obj =
     (if has_tenant_column (i_model obj)
      then bindc (liftc (attr obj (id_field fk))) (\<lambda>v.
             if v = PNone \<and> \<not> i_skip_auto_populate obj
             then bindc (tc_require E) (\<lambda>t. super_save (stamp fk t obj))
             else super_save obj)
      else super_save obj)"

definition mixin_clean ::
  "django_settings \<Rightarrow> (string \<Rightarrow> model_class) \<Rightarrow> (string \<Rightarrow> string \<Rightarrow> pyval \<Rightarrow> pyval) \<Rightarrow> (instance_of \<Rightarrow> exn + unit)
     \<Rightarrow> instance_of \<Rightarrow> exn + unit" where
  "mixin_clean s model_named first_value super_clean obj =
     (case super_clean obj of
        Inl e \<Rightarrow> Inl e
      | Inr _ \<Rightarrow> validate_cross_tenant_fks s model_named first_value obj)"

definition um_create :: "(instance_of \<Rightarrow> 'a comp) \<Rightarrow> (kwargs \<Rightarrow> instance_of) \<Rightarrow> kwargs \<Rightarrow> 'a comp" where
  "um_create save model kw = save ((model kw)\<lparr>i_skip_auto_populate := True\<rparr>)"

definition um_bulk_create :: "(instance_of list \<Rightarrow> 'a comp) \<Rightarrow> instance_of list \<Rightarrow> 'a comp" where
  "um_bulk_create super_bulk_create objs =
     super_bulk_create (map (\<lambda>obj. obj\<lparr>i_skip_auto_populate := True\<rparr>) objs)"

section \<open>Building a mixin\<close>

text \<open>The keyword arguments of the foreign key a mixin adds, as \<open>make_tenant_mixin\<close> passes them.\<close>

record tenant_fk =
  fk_to :: string
  fk_on_delete :: string
  fk_db_index :: bool
  fk_null :: bool
  fk_related_name :: string
  fk_verbose_name :: string

definition make_tenant_mixin ::
  "django_settings \<Rightarrow> string option \<Rightarrow> string \<Rightarrow> string \<Rightarrow> bool \<Rightarrow> bool \<Rightarrow> exn + model_class \<times> string \<times> tenant_fk" where
  "make_tenant_mixin s fk_field on_delete related_name db_index null =
     (let fk = (case fk_field of None \<Rightarrow> TENANT_FK_FIELD s | Some f \<Rightarrow> f) in
      case resolve_tenant_model_setting s of
        Inl e \<Rightarrow> Inl e
      | Inr path \<Rightarrow>
          Inr (\<lparr> m_name = ''TenantMixin['' @ fk @ '']'', m_registered = True, m_tenant_path = None,
                 m_fk_field = Some fk,
                 m_fields = [\<lparr> f_name = fk, f_attname = id_field fk, f_many_to_one = True,
                               f_foreign_key = True, f_target = Some path \<rparr>] \<rparr>,
               fk,
               \<lparr> fk_to = path, fk_on_delete = on_delete, fk_db_index = db_index, fk_null = null,
                 fk_related_name = related_name, fk_verbose_name = TENANT_LABEL s \<rparr>))"

definition make_tenant_path_mixin :: "string \<Rightarrow> model_class" where
  "make_tenant_path_mixin tenant_path =
     \<lparr> m_name = ''TenantPathMixin['' @ tenant_path @ '']'', m_registered = True,
       m_tenant_path = Some tenant_path, m_fk_field = None, m_fields = [] \<rparr>"

text \<open>\<open>TenantMixin\<close>: the fixed field name, the defaults of a foreign key.\<close>

definition tenant_mixin :: "django_settings \<Rightarrow> exn + model_class \<times> tenant_fk" where
  "tenant_mixin s =
     (case resolve_tenant_model_setting s of
        Inl e \<Rightarrow> Inl e
      | Inr path \<Rightarrow>
          Inr (\<lparr> m_name = ''TenantMixin'', m_registered = False, m_tenant_path = None,
                 m_fk_field = Some ''tenant'',
                 m_fields = [\<lparr> f_name = ''tenant'', f_attname = ''tenant_id'', f_many_to_one = True,
                               f_foreign_key = True, f_target = Some path \<rparr>] \<rparr>,
               \<lparr> fk_to = path, fk_on_delete = ''CASCADE'', fk_db_index = True, fk_null = False,
                 fk_related_name = ''%(app_label)s_%(class)s_set'', fk_verbose_name = ''tenant'' \<rparr>))"

section \<open>Per-tenant uniqueness\<close>

record tuc =
  c_fields :: "string list"
  c_tenant_fields :: "string list"
  c_name :: string

text \<open>\<open>__init__\<close>: \<open>fields\<close> stands for the keyword argument, absent on a fresh declaration.\<close>

definition tuc_init :: "string list \<Rightarrow> string list option \<Rightarrow> string \<Rightarrow> tuc" where
  "tuc_init tenant_fields fields_arg name =
     \<lparr> c_fields = (case fields_arg of None \<Rightarrow> tenant_fields | Some fs \<Rightarrow> fs),
       c_tenant_fields = tenant_fields, c_name = name \<rparr>"

text \<open>\<open>deconstruct()\<close> returns the keyword arguments; \<open>clone()\<close> builds the constraint anew from them.\<close>

definition tuc_deconstruct :: "tuc \<Rightarrow> string list \<times> string list \<times> string" where
  "tuc_deconstruct c = (c_tenant_fields c, c_fields c, c_name c)"

definition tuc_clone :: "tuc \<Rightarrow> tuc" where
  "tuc_clone c = (case tuc_deconstruct c of (tf, fs, n) \<Rightarrow> tuc_init tf (Some fs) n)"

definition tuc_resolve :: "model_class \<Rightarrow> tuc \<Rightarrow> exn + tuc" where
  "tuc_resolve m c =
     (if c_fields c \<noteq> c_tenant_fields c then Inr c
      else case m_fk_field m of
             None \<Rightarrow> Inl (PyValueError (''tenant_unique() cannot be used on '' @ m_name m))
           | Some fk \<Rightarrow>
               if fk = [] then Inl (PyValueError (''tenant_unique() cannot be used on '' @ m_name m))
               else Inr (c\<lparr>c_fields := fk # c_tenant_fields c\<rparr>))"

definition derive_constraint_name :: "(string list \<Rightarrow> nat \<Rightarrow> string) \<Rightarrow> string list \<Rightarrow> string" where
  "derive_constraint_name names_digest field_names =
     ''%(app_label)s_%(class)s_tenant_uniq_'' @ names_digest field_names 8"

definition tenant_unique ::
  "(string list \<Rightarrow> nat \<Rightarrow> string) \<Rightarrow> string list \<Rightarrow> string option \<Rightarrow> exn + tuc" where
  "tenant_unique names_digest field_names name =
     (if field_names = [] then Inl (PyValueError ''tenant_unique() requires at least one field name.'')
      else Inr (tuc_init field_names None
             (case name of None \<Rightarrow> derive_constraint_name names_digest field_names | Some n \<Rightarrow> n)))"

datatype model_constraint = TenantUniq tuc | OtherConstraint string

text \<open>The \<open>class_prepared\<close> receiver, over \<open>Meta.constraints\<close>.\<close>

fun resolve_tenant_unique_constraints ::
  "model_class \<Rightarrow> model_constraint list \<Rightarrow> exn + model_constraint list" where
  "resolve_tenant_unique_constraints m [] = Inr []"
| "resolve_tenant_unique_constraints m (OtherConstraint n # cs) =
     (case resolve_tenant_unique_constraints m cs of
        Inl e \<Rightarrow> Inl e
      | Inr cs' \<Rightarrow> Inr (OtherConstraint n # cs'))"
| "resolve_tenant_unique_constraints m (TenantUniq c # cs) =
     (case tuc_resolve m c of
        Inl e \<Rightarrow> Inl e
      | Inr c' \<Rightarrow>
          (case resolve_tenant_unique_constraints m cs of
             Inl e \<Rightarrow> Inl e
           | Inr cs' \<Rightarrow> Inr (TenantUniq c' # cs')))"

section \<open>The predicates on model classes\<close>

lemma has_tenant_column_iff:
  "has_tenant_column m \<longleftrightarrow> get_tenant_fk_field m \<noteq> None"
  by (auto simp: has_tenant_column_def get_tenant_fk_field_def split: option.splits)

lemma has_tenant_column_is_tenant: "has_tenant_column m \<Longrightarrow> is_tenant_model m"
  by (auto simp: has_tenant_column_def is_tenant_model_def)

lemma has_tenant_column_lookup:
  "has_tenant_column m \<Longrightarrow> get_tenant_lookup m = m_fk_field m \<and> m_fk_field m = Some (fk_field_or_tenant m)"
  by (auto simp: has_tenant_column_def get_tenant_lookup_def fk_field_or_tenant_def split: if_splits option.splits)

section \<open>Instances\<close>

lemma attr_stamp [simp]: "attr (stamp fk t obj) (id_field fk) = Inr (t_pk t)"
  by (simp add: stamp_def attr_def)

lemma attr_or_None_stamp [simp]: "attr_or_None (stamp fk t obj) (id_field fk) = t_pk t"
  by (simp add: stamp_def attr_or_None_def)

lemma stamp_other: "name \<noteq> id_field fk \<Longrightarrow> attr (stamp fk t obj) name = attr obj name"
  by (simp add: stamp_def attr_def)

lemma stamp_model [simp]: "i_model (stamp fk t obj) = i_model obj" "i_pk (stamp fk t obj) = i_pk obj"
  "i_skip_auto_populate (stamp fk t obj) = i_skip_auto_populate obj"
  by (simp_all add: stamp_def)

section \<open>Reading through TenantManager\<close>

text \<open>
  The rows a queryset returns. \<open>follow row lookup\<close> is what Django reaches from a row by a look-up
  path (the key of the tenant there); \<open>plain_lookup\<close> says that for a foreign key of the row itself
  it is the row's own column.
\<close>

definition selects :: "(instance_of \<Rightarrow> string \<Rightarrow> pyval) \<Rightarrow> queryset \<Rightarrow> instance_of \<Rightarrow> bool" where
  "selects follow qs row = list_all (\<lambda>(l, t). follow row l = t_pk t) (q_filters qs)"

definition plain_lookup :: "(instance_of \<Rightarrow> string \<Rightarrow> pyval) \<Rightarrow> bool" where
  "plain_lookup follow \<longleftrightarrow>
     (\<forall>row fk. m_fk_field (i_model row) = Some fk \<longrightarrow> follow row fk = attr_or_None row (id_field fk))"

lemma get_queryset_active:
  assumes "current_tenant w = Some t" "get_tenant_lookup m = Some l" "l \<noteq> []"
  shows "get_queryset E m db w = (Inr \<lparr> q_model = m, q_db = db, q_filters = [(l, t)] \<rparr>, w)"
  using assms by (simp add: get_queryset_def tc_get_def bindc_def Let_def)

text \<open>
  How a class says where its tenant is, by its two attributes alone: a non-empty \<open>boundary_tenant_path\<close>
  is the declared path, whatever else the class has; without one \<open>_boundary_fk_field\<close> names the column.
\<close>

definition declared_path :: "model_class \<Rightarrow> string \<Rightarrow> bool" where
  "declared_path m path \<longleftrightarrow> m_tenant_path m = Some path \<and> path \<noteq> []"

definition declared_column :: "model_class \<Rightarrow> string \<Rightarrow> bool" where
  "declared_column m fk \<longleftrightarrow> m_tenant_path m \<in> {None, Some []} \<and> m_fk_field m = Some fk"

lemma declared_lookup:
  "declared_path m path \<Longrightarrow> get_tenant_lookup m = Some path \<and> path \<noteq> []"
  "declared_column m fk \<Longrightarrow> get_tenant_lookup m = Some fk \<and> get_tenant_fk_field m = Some fk \<and> has_tenant_column m"
  by (auto simp: declared_path_def declared_column_def get_tenant_lookup_def get_tenant_fk_field_def
      has_tenant_column_def path_declared_def)

text \<open>
  C4: With a tenant active, a query through \<open>objects\<close> on a model that declares a path returns exactly
  the rows from which that path leads to the tenant, even where the model has a foreign key attribute
  as well; on a model with a tenant column and no path, exactly the rows whose column holds the tenant's
  key: no row of another tenant, and every row of this one.
\<close>
theorem manager_returns_active_tenants_rows:
  assumes "current_tenant w = Some t" "plain_lookup follow" "\<forall>row \<in> set rows. i_model row = m"
  shows "(\<forall>path. declared_path m path \<longrightarrow> (\<exists>qs. get_queryset E m db w = (Inr qs, w) \<and>
      filter (selects follow qs) rows = filter (\<lambda>row. follow row path = t_pk t) rows)) \<and>
    (\<forall>fk. declared_column m fk \<and> fk \<noteq> [] \<longrightarrow> (\<exists>qs. get_queryset E m db w = (Inr qs, w) \<and>
      filter (selects follow qs) rows = filter (\<lambda>row. attr_or_None row (id_field fk) = t_pk t) rows))"
proof (intro conjI allI impI)
  fix path assume "declared_path m path"
  from get_queryset_active [OF assms(1) declared_lookup(1) [OF this, THEN conjunct1] declared_lookup(1) [OF this, THEN conjunct2]]
  show "\<exists>qs. get_queryset E m db w = (Inr qs, w) \<and>
      filter (selects follow qs) rows = filter (\<lambda>row. follow row path = t_pk t) rows"
    by (auto simp: selects_def [abs_def])
next
  fix fk assume c: "declared_column m fk \<and> fk \<noteq> []"
  then have "m_fk_field m = Some fk" by (simp add: declared_column_def)
  with assms(2,3) have "filter (selects follow \<lparr> q_model = m, q_db = db, q_filters = [(fk, t)] \<rparr>) rows =
      filter (\<lambda>row. attr_or_None row (id_field fk) = t_pk t) rows"
    by (intro filter_cong) (auto simp: selects_def plain_lookup_def)
  with get_queryset_active [OF assms(1)] declared_lookup(2) c
  show "\<exists>qs. get_queryset E m db w = (Inr qs, w) \<and>
      filter (selects follow qs) rows = filter (\<lambda>row. attr_or_None row (id_field fk) = t_pk t) rows"
    by blast
qed

text \<open>Two models for the witnesses: a direct foreign key and a relation path.\<close>

definition booking :: model_class where
  "booking = \<lparr> m_name = ''Booking'', m_registered = True, m_tenant_path = None,
     m_fk_field = Some ''tenant'',
     m_fields = [\<lparr> f_name = ''court'', f_attname = ''court_id'', f_many_to_one = True,
                   f_foreign_key = True, f_target = Some ''Court'' \<rparr>] \<rparr>"

definition booking_of :: "pyval \<Rightarrow> instance_of" where
  "booking_of pk = \<lparr> i_model = booking, i_pk = PInt 10, i_attrs = [(''tenant_id'', pk), (''court_id'', PInt 5)],
     i_skip_auto_populate = False \<rparr>"

definition own_column :: "instance_of \<Rightarrow> string \<Rightarrow> pyval" where
  "own_column row l = attr_or_None row (id_field l)"

lemma booking_simps [simp]:
  "m_fk_field booking = Some ''tenant''" "has_tenant_column booking"
  "get_tenant_lookup booking = Some ''tenant''" "fk_field_or_tenant booking = ''tenant''"
  "i_model (booking_of pk) = booking" "i_skip_auto_populate (booking_of pk) = False"
  "attr (booking_of pk) ''tenant_id'' = Inr pk" "attr_or_None (booking_of pk) ''tenant_id'' = pk"
  "id_field ''tenant'' = ''tenant_id''" "plain_lookup own_column"
  by (simp_all add: booking_def booking_of_def has_tenant_column_def path_declared_def get_tenant_lookup_def
      fk_field_or_tenant_def attr_def attr_or_None_def id_field_def own_column_def plain_lookup_def)

text \<open>A model scoped by a path that also inherits a foreign key attribute; the path leads elsewhere.\<close>

definition slot :: model_class where
  "slot = booking\<lparr>m_name := ''Slot'', m_tenant_path := Some ''court__tenant''\<rparr>"

definition slot_of :: "pyval \<Rightarrow> instance_of" where
  "slot_of pk = (booking_of pk)\<lparr>i_model := slot\<rparr>"

definition two_ways :: "instance_of \<Rightarrow> string \<Rightarrow> pyval" where
  "two_ways row l = (if l = ''court__tenant'' \<and> m_fk_field (i_model row) \<noteq> Some l then PInt 2 else own_column row l)"

lemma slot_simps [simp]:
  "declared_path slot path \<longleftrightarrow> path = ''court__tenant''" "i_model (slot_of pk) = slot" "declared_column booking ''tenant''"
  "plain_lookup two_ways" "two_ways (slot_of pk) ''court__tenant'' = PInt 2"
  by (auto simp: slot_def slot_of_def declared_path_def declared_column_def two_ways_def plain_lookup_def own_column_def
      booking_def id_field_def)

theorem manager_returns_active_tenants_rows_witness:
  "(\<exists>qs. get_queryset pg_env booking None (fresh_world\<lparr>current_tenant := Some (club 1 ''eu'')\<rparr>)
       = (Inr qs, fresh_world\<lparr>current_tenant := Some (club 1 ''eu'')\<rparr>) \<and>
     filter (selects own_column qs) [booking_of (PInt 1), booking_of (PInt 2)] = [booking_of (PInt 1)]) \<and>
   (\<exists>qs. get_queryset pg_env slot None (fresh_world\<lparr>current_tenant := Some (club 1 ''eu'')\<rparr>)
       = (Inr qs, fresh_world\<lparr>current_tenant := Some (club 1 ''eu'')\<rparr>) \<and>
     filter (selects two_ways qs) [slot_of (PInt 1)] = [])"
proof -
  let ?w = "fresh_world\<lparr>current_tenant := Some (club 1 ''eu'')\<rparr>"
  note rows = manager_returns_active_tenants_rows [where w = ?w and t = "club 1 ''eu''" and E = pg_env and db = None]
  have "\<exists>qs. get_queryset pg_env booking None ?w = (Inr qs, ?w) \<and>
      filter (selects own_column qs) [booking_of (PInt 1), booking_of (PInt 2)] =
      filter (\<lambda>row. attr_or_None row (id_field ''tenant'') = PInt 1) [booking_of (PInt 1), booking_of (PInt 2)]"
    using rows [of own_column "[booking_of (PInt 1), booking_of (PInt 2)]" booking, THEN conjunct2, THEN spec [of _ "''tenant''"]]
    by (simp del: filter.simps)
  moreover have "\<exists>qs. get_queryset pg_env slot None ?w = (Inr qs, ?w) \<and>
      filter (selects two_ways qs) [slot_of (PInt 1)] = filter (\<lambda>row. two_ways row ''court__tenant'' = PInt 1) [slot_of (PInt 1)]"
    using rows [of two_ways "[slot_of (PInt 1)]" slot, THEN conjunct1, THEN spec [of _ "''court__tenant''"]]
    by (simp del: filter.simps)
  ultimately show ?thesis by simp
qed

text \<open>
  Without an active tenant a query through \<open>objects\<close> is refused in strict mode, whatever the
  receivers of \<open>strict_mode_violation\<close> do, after telling them which model was queried; only with
  \<open>BOUNDARY_STRICT_MODE\<close> off does it return unfiltered rows.
\<close>
theorem strict_mode_refuses_unscoped_query:
  assumes "current_tenant w = None"
  shows "if STRICT_MODE (conf E)
    then isl (fst (get_queryset E m db w)) \<and>
         (\<exists>ok. trace (snd (get_queryset E m db w)) = (SendSignal (StrictModeViolation (m_name m)), ok) # trace w)
    else get_queryset E m db w = (Inr \<lparr> q_model = m, q_db = db, q_filters = [] \<rparr>, w)"
  using assms
  by (auto simp: get_queryset_def tc_get_def Let_def bindc_def seqc_def performs_def perform_def split: sum.splits)

theorem strict_mode_refuses_unscoped_query_witness:
  "isl (fst (get_queryset pg_env booking None fresh_world))"
proof -
  have "STRICT_MODE regional_settings"
    by (simp add: STRICT_MODE_def regional_settings_def default_settings_def)
  then show ?thesis using strict_mode_refuses_unscoped_query [of fresh_world pg_env booking None] by simp
qed

section \<open>Writing\<close>

text \<open>
  What \<open>save()\<close> hands to Django. On a model with a tenant column whose column is unset, and
  unless the instance came from \<open>unscoped\<close>, the active tenant is stamped first, and without an
  active tenant \<open>TenantNotSetError\<close> is raised and nothing is saved. A tenant given explicitly is kept,
  and a path-scoped model is saved as it is.
\<close>
theorem save_stamps_active_tenant:
  assumes "attr obj (id_field fk) = Inr v"
  shows "mixin_save E super_save fk obj w =
    (if has_tenant_column (i_model obj) \<and> v = PNone \<and> \<not> i_skip_auto_populate obj
     then (case current_tenant w of
             Some t \<Rightarrow> super_save (stamp fk t obj) w
           | None \<Rightarrow> (Inl (TenantNotSetError (TENANT_LABEL (conf E)) []), w))
     else super_save obj w)"
  using assms by (simp add: mixin_save_def context_source.bind_require bindc_Inr split: option.splits)

theorem save_stamps_active_tenant_witness:
  "mixin_save pg_env ret ''tenant'' (booking_of PNone) (fresh_world\<lparr>current_tenant := Some (club 1 ''eu'')\<rparr>)
     = (Inr (booking_of (PInt 1)), fresh_world\<lparr>current_tenant := Some (club 1 ''eu'')\<rparr>)"
proof -
  have "stamp ''tenant'' (club 1 ''eu'') (booking_of PNone) = booking_of (PInt 1)"
    by (simp add: stamp_def booking_of_def)
  then show ?thesis
  using save_stamps_active_tenant [of "booking_of PNone" "''tenant''" PNone pg_env ret
      "fresh_world\<lparr>current_tenant := Some (club 1 ''eu'')\<rparr>"]
    by simp
qed

text \<open>
  C5: A row saved without an explicit tenant while \<open>t\<close> is active is found by \<open>objects\<close> again while a
  tenant with the same key is active, and by no other tenant.
\<close>
theorem saved_row_visible_to_its_tenant_only:
  assumes "has_tenant_column (i_model obj)" "m_fk_field (i_model obj) = Some fk" "fk \<noteq> []"
    and "attr obj (id_field fk) = Inr PNone" "\<not> i_skip_auto_populate obj" "plain_lookup follow"
    and "current_tenant w = Some t" "current_tenant w' = Some t'"
  shows "\<exists>row qs. mixin_save E ret fk obj w = (Inr row, w) \<and>
    get_queryset E (i_model obj) db w' = (Inr qs, w') \<and>
    (selects follow qs row \<longleftrightarrow> t_pk t' = t_pk t)"
proof -
  have "get_tenant_lookup (i_model obj) = Some fk"
    using has_tenant_column_lookup [OF assms(1)] assms(2) by simp
  note qs = get_queryset_active [OF assms(8) this assms(3)]
  have "mixin_save E ret fk obj w = (Inr (stamp fk t obj), w)"
    using assms(1,4,5,7) by (simp add: mixin_save_def bindc_Inr context_source.guarded_tenant)
  with qs show ?thesis
    using assms(2,6) by (auto simp: selects_def plain_lookup_def)
qed

theorem saved_row_visible_to_its_tenant_only_witness:
  "\<exists>row qs. mixin_save pg_env ret ''tenant'' (booking_of PNone) (fresh_world\<lparr>current_tenant := Some (club 1 ''eu'')\<rparr>)
       = (Inr row, fresh_world\<lparr>current_tenant := Some (club 1 ''eu'')\<rparr>) \<and>
     get_queryset pg_env booking None (fresh_world\<lparr>current_tenant := Some (club 2 ''eu'')\<rparr>)
       = (Inr qs, fresh_world\<lparr>current_tenant := Some (club 2 ''eu'')\<rparr>) \<and> \<not> selects own_column qs row"
  using saved_row_visible_to_its_tenant_only [of "booking_of PNone" "''tenant''" own_column
      "fresh_world\<lparr>current_tenant := Some (club 1 ''eu'')\<rparr>" "club 1 ''eu''"
      "fresh_world\<lparr>current_tenant := Some (club 2 ''eu'')\<rparr>" "club 2 ''eu''" pg_env None] by simp

lemma stamp_unset_spec:
  "stamp_unset fk t objs = Inr objs' \<Longrightarrow>
    list_all2 (\<lambda>obj obj'. obj' = (if attr obj (id_field fk) = Inr PNone then stamp fk t obj else obj) \<and>
       (\<exists>v. attr obj' (id_field fk) = Inr v \<and> (v = t_pk t \<or> v \<noteq> PNone \<and> attr obj (id_field fk) = Inr v))) objs objs'"
proof (induction objs arbitrary: objs')
  case (Cons obj objs)
  from Cons.prems obtain v rest where "attr obj (id_field fk) = Inr v" "stamp_unset fk t objs = Inr rest"
    "objs' = (if v = PNone then stamp fk t obj else obj) # rest"
    by (auto split: sum.splits)
  with Cons.IH show ?case by auto
qed simp

lemma stamp_unset_total:
  "(\<And>obj. obj \<in> set objs \<Longrightarrow> \<exists>v. attr obj (id_field fk) = Inr v) \<Longrightarrow> \<exists>objs'. stamp_unset fk t objs = Inr objs'"
proof (induction objs)
  case (Cons obj objs)
  then obtain v rest where "attr obj (id_field fk) = Inr v" "stamp_unset fk t objs = Inr rest"
    by (metis list.set_intros)
  then show ?case by simp
qed simp

text \<open>
  \<open>bulk_create\<close> on a model with a tenant column hands Django the same objects in the same order,
  those with an unset column stamped with the active tenant and the others untouched, so every
  object inserted has a tenant. Without an active tenant nothing is inserted, not even objects that
  name their tenant.
\<close>
theorem bulk_create_stamps_unset:
  assumes "has_tenant_column m" "m_fk_field m = Some fk"
    and "\<forall>obj \<in> set objs. \<exists>v. attr obj (id_field fk) = Inr v"
  shows "case current_tenant w of
      None \<Rightarrow> tm_bulk_create E super_bulk m objs w = (Inl (TenantNotSetError (TENANT_LABEL (conf E)) []), w)
    | Some t \<Rightarrow>
        (\<exists>objs'. tm_bulk_create E super_bulk m objs w = super_bulk objs' w \<and>
           list_all2 (\<lambda>obj obj'. obj' = (if attr obj (id_field fk) = Inr PNone then stamp fk t obj else obj) \<and>
             (\<exists>v. attr obj' (id_field fk) = Inr v \<and> (v = t_pk t \<or> v \<noteq> PNone \<and> attr obj (id_field fk) = Inr v))) objs objs')"
proof (cases "current_tenant w")
  case None
  with assms(1) show ?thesis by (simp add: tm_bulk_create_def context_source.guarded_no_tenant)
next
  case (Some t)
  obtain objs' where objs': "stamp_unset fk t objs = Inr objs'" using stamp_unset_total assms(3) by blast
  have "fk_field_or_tenant m = fk" by (simp add: fk_field_or_tenant_def assms(2))
  with Some assms(1) objs' have "tm_bulk_create E super_bulk m objs w = super_bulk objs' w"
    by (simp add: tm_bulk_create_def context_source.guarded_tenant bindc_Inr)
  with Some stamp_unset_spec [OF objs'] show ?thesis by (auto intro!: exI [of _ objs'])
qed

theorem bulk_create_stamps_unset_witness:
  "\<exists>objs'. tm_bulk_create pg_env ret booking [booking_of PNone, booking_of (PInt 2)]
       (fresh_world\<lparr>current_tenant := Some (club 1 ''eu'')\<rparr>)
     = (Inr objs', fresh_world\<lparr>current_tenant := Some (club 1 ''eu'')\<rparr>) \<and> length objs' = 2"
  using bulk_create_stamps_unset [of booking "''tenant''" "[booking_of PNone, booking_of (PInt 2)]",
      where w = "fresh_world\<lparr>current_tenant := Some (club 1 ''eu'')\<rparr>" and E = pg_env and super_bulk = ret]
  by (auto dest: list_all2_lengthD)

lemma check_owned_ok:
  "check_owned s fk t objs = Inr () \<longleftrightarrow> (\<forall>obj \<in> set objs. attr obj (id_field fk) = Inr (t_pk t))"
  by (induction objs) (auto split: sum.splits)

text \<open>
  \<open>bulk_update\<close> on a model with a tenant column updates exactly when every object belongs to the
  active tenant; with one object of another tenant among them, or no active tenant, it raises and
  updates nothing.
\<close>
theorem bulk_update_rejects_foreign_rows:
  assumes "has_tenant_column m" "m_fk_field m = Some fk"
  shows "if \<exists>t. current_tenant w = Some t \<and> (\<forall>obj \<in> set objs. attr obj (id_field fk) = Inr (t_pk t))
    then tm_bulk_update E super_bulk m objs cols w = super_bulk objs cols w
    else \<exists>e. tm_bulk_update E super_bulk m objs cols w = (Inl e, w)"
proof (cases "current_tenant w")
  case None
  with assms(1) show ?thesis by (simp add: tm_bulk_update_def context_source.guarded_no_tenant)
next
  case (Some t)
  have fk: "fk_field_or_tenant m = fk" by (simp add: fk_field_or_tenant_def assms(2))
  have run: "tm_bulk_update E super_bulk m objs cols w =
      (case check_owned (conf E) fk t objs of Inl e \<Rightarrow> (Inl e, w) | Inr _ \<Rightarrow> super_bulk objs cols w)"
    using Some assms(1)
    by (simp add: tm_bulk_update_def context_source.guarded_tenant fk bindc_liftc split: sum.splits)
  show ?thesis
  proof (cases "check_owned (conf E) fk t objs")
    case (Inl e)
    then have "\<not> (\<forall>obj \<in> set objs. attr obj (id_field fk) = Inr (t_pk t))"
      using check_owned_ok [of "conf E" fk t objs] by auto
    with Some run Inl show ?thesis by auto
  next
    case (Inr u)
    then have "\<forall>obj \<in> set objs. attr obj (id_field fk) = Inr (t_pk t)"
      using check_owned_ok [of "conf E" fk t objs] by simp
    with Some run Inr show ?thesis by simp
  qed
qed

theorem bulk_update_rejects_foreign_rows_witness:
  "\<exists>e. tm_bulk_update pg_env (\<lambda>_ _. ret ()) booking [booking_of (PInt 1), booking_of (PInt 2)] [''court'']
     (fresh_world\<lparr>current_tenant := Some (club 1 ''eu'')\<rparr>) = (Inl e, fresh_world\<lparr>current_tenant := Some (club 1 ''eu'')\<rparr>)"
  using bulk_update_rejects_foreign_rows [of booking "''tenant''" "fresh_world\<lparr>current_tenant := Some (club 1 ''eu'')\<rparr>"
      "[booking_of (PInt 1), booking_of (PInt 2)]" pg_env "\<lambda>_ _. ret ()" "[''court'']"] by simp

section \<open>get_or_create and update_or_create\<close>

definition names_tenant :: "string \<Rightarrow> kwargs \<Rightarrow> bool" where
  "names_tenant fk d \<longleftrightarrow> dict_has fk d \<or> dict_has (id_field fk) d"

lemma inject_into_names: "names_tenant fk (inject_into fk t d)"
  by (simp add: names_tenant_def inject_into_def dict_has_map_of)

lemma inject_into_value:
  "map_of (inject_into fk t d) k =
    (if k = fk \<and> \<not> names_tenant fk d then Some (TenantArg (Some t)) else map_of d k)"
  by (simp add: names_tenant_def inject_into_def)

lemma inject_into_named: "names_tenant fk d \<Longrightarrow> inject_into fk t d = d"
  by (auto simp: inject_into_def names_tenant_def)

lemma inject_into_again: "inject_into fk t' (inject_into fk t d) = inject_into fk t d"
  by (rule inject_into_named) (rule inject_into_names)

lemma inject_run:
  assumes "has_tenant_column m" "m_fk_field m = Some fk" "current_tenant w = Some t"
  shows "inject_tenant_kwargs E m lookup ds w =
    (Inr (inject_into fk t lookup, map (map_option (inject_into fk t)) ds), w)"
  using assms by (simp add: inject_tenant_kwargs_def context_source.guarded_tenant fk_field_or_tenant_def)

text \<open>
  On a model with a tenant column \<open>get_or_create\<close> hands Django a look-up and defaults that both
  name a tenant, the active one wherever the caller named none, and every argument the caller gave
  keeps its value. Without an active tenant it raises and Django is not called.
\<close>
theorem get_or_create_scopes_lookup_and_defaults:
  assumes "has_tenant_column m" "m_fk_field m = Some fk"
  shows "case current_tenant w of
      None \<Rightarrow> tm_get_or_create E super m defaults lookup w = (Inl (TenantNotSetError (TENANT_LABEL (conf E)) []), w)
    | Some t \<Rightarrow>
        (\<exists>lookup' defaults'. tm_get_or_create E super m defaults lookup w = super defaults' lookup' w \<and>
           names_tenant fk lookup' \<and> (defaults' = None \<longleftrightarrow> defaults = None) \<and>
           (\<forall>k. map_of lookup' k =
              (if k = fk \<and> \<not> names_tenant fk lookup then Some (TenantArg (Some t)) else map_of lookup k)) \<and>
           (\<forall>d d' k. defaults = Some d \<and> defaults' = Some d' \<longrightarrow> names_tenant fk d' \<and>
              map_of d' k = (if k = fk \<and> \<not> names_tenant fk d then Some (TenantArg (Some t)) else map_of d k)))"
proof (cases "current_tenant w")
  case None
  have "inject_tenant_kwargs E m lookup [defaults] w = (Inl (TenantNotSetError (TENANT_LABEL (conf E)) []), w)"
    using None assms(1) by (simp add: inject_tenant_kwargs_def context_source.guarded_no_tenant)
  with None show ?thesis by (simp add: tm_get_or_create_def bindc_Inl)
next
  case (Some t)
  have "tm_get_or_create E super m defaults lookup w =
      super (map_option (inject_into fk t) defaults) (inject_into fk t lookup) w"
    using inject_run [OF assms Some] by (simp add: tm_get_or_create_def bindc_Inr)
  with Some show ?thesis
    by (intro option.case_eq_if [THEN iffD2]) (auto simp: inject_into_names inject_into_value
        intro!: exI [of _ "inject_into fk t lookup"] exI [of _ "map_option (inject_into fk t) defaults"])
qed

theorem get_or_create_scopes_lookup_and_defaults_witness:
  "\<exists>lookup' defaults'. tm_get_or_create pg_env (\<lambda>ds lk. ret (ds, lk)) booking (Some []) [(''ref'', ValueArg (PInt 3))]
       (fresh_world\<lparr>current_tenant := Some (club 1 ''eu'')\<rparr>)
     = (Inr (defaults', lookup'), fresh_world\<lparr>current_tenant := Some (club 1 ''eu'')\<rparr>) \<and>
     map_of lookup' ''tenant'' = Some (TenantArg (Some (club 1 ''eu'')))"
  using get_or_create_scopes_lookup_and_defaults [of booking "''tenant''",
      where w = "fresh_world\<lparr>current_tenant := Some (club 1 ''eu'')\<rparr>" and E = pg_env and
        super = "\<lambda>ds lk. ret (ds, lk)" and defaults = "Some []" and lookup = "[(''ref'', ValueArg (PInt 3))]"]
  by (auto simp: names_tenant_def)

text \<open>
  The defaults dictionary is changed in place, and what was injected for one tenant counts as
  the caller's for the next: reused in the scope of another tenant, the same dictionary still names
  the first tenant, while the look-up is scoped to the second, so a row created there is stamped
  with the first tenant.
\<close>
theorem reused_defaults_keep_first_tenant:
  assumes "has_tenant_column m" "m_fk_field m = Some fk" "\<not> names_tenant fk d" "\<not> names_tenant fk lookup"
    and "current_tenant w1 = Some t1" "current_tenant w2 = Some t2"
  shows "\<exists>d' lookup'. inject_tenant_kwargs E m lookup [Some d] w1 = (Inr (lookup', [Some d']), w1) \<and>
    (\<exists>lookup''. inject_tenant_kwargs E m lookup [Some d'] w2 = (Inr (lookup'', [Some d']), w2) \<and>
       map_of lookup'' fk = Some (TenantArg (Some t2)) \<and> map_of d' fk = Some (TenantArg (Some t1)))"
  using inject_run [OF assms(1,2,5)] inject_run [OF assms(1,2,6)] assms(3,4)
  by (simp add: inject_into_again inject_into_value)

theorem reused_defaults_keep_first_tenant_witness:
  "\<exists>d' lookup''. inject_tenant_kwargs pg_env booking [] [Some d'] (fresh_world\<lparr>current_tenant := Some (club 2 ''us'')\<rparr>)
       = (Inr (lookup'', [Some d']), fresh_world\<lparr>current_tenant := Some (club 2 ''us'')\<rparr>) \<and>
     map_of lookup'' ''tenant'' = Some (TenantArg (Some (club 2 ''us''))) \<and>
     map_of d' ''tenant'' = Some (TenantArg (Some (club 1 ''eu'')))"
  using reused_defaults_keep_first_tenant [of booking "''tenant''" "[]" "[]"
      "fresh_world\<lparr>current_tenant := Some (club 1 ''eu'')\<rparr>" "club 1 ''eu''"
      "fresh_world\<lparr>current_tenant := Some (club 2 ''us'')\<rparr>" "club 2 ''us''" pg_env]
  by (auto simp: names_tenant_def)

section \<open>Foreign keys across tenants\<close>

text \<open>
  A foreign key of \<open>obj\<close> that reaches a row of another tenant, from the attributes of the two classes
  alone: both have a tenant column and no path, the columns hold keys, and the keys differ. The tenant
  key itself is no cross reference.
\<close>

definition crosses ::
  "(string \<Rightarrow> model_class) \<Rightarrow> (string \<Rightarrow> string \<Rightarrow> pyval \<Rightarrow> pyval) \<Rightarrow> instance_of \<Rightarrow> model_field \<Rightarrow> bool" where
  "crosses model_named first_value obj f \<longleftrightarrow>
     (\<exists>own_fk target fk. declared_column (i_model obj) own_fk \<and> attr_or_None obj (id_field own_fk) \<noteq> PNone \<and>
        f_many_to_one f \<and> f_foreign_key f \<and> f_name f \<noteq> own_fk \<and>
        f_target f = Some target \<and> declared_column (model_named target) fk \<and> attr_or_None obj (f_attname f) \<noteq> PNone \<and>
        first_value target (id_field fk) (attr_or_None obj (f_attname f))
          \<notin> {PNone, attr_or_None obj (id_field own_fk)})"

lemma own_column_declared: "get_tenant_fk_field m = Some fk \<longleftrightarrow> declared_column m fk"
  by (auto simp: get_tenant_fk_field_def declared_column_def path_declared_def split: option.splits if_splits)

lemma checked_target: "is_tenant_model m \<and> has_tenant_column m \<longleftrightarrow> (\<exists>fk. declared_column m fk)"
  by (auto simp: is_tenant_model_def has_tenant_column_def declared_column_def path_declared_def split: option.splits)

lemma declared_column_unique: "declared_column m fk \<Longrightarrow> declared_column m fk' \<longleftrightarrow> fk' = fk"
  by (auto simp: declared_column_def)

lemma field_error_crosses:
  assumes "declared_column (i_model obj) own_fk" "attr_or_None obj (id_field own_fk) \<noteq> PNone"
  shows "field_error s model_named first_value obj own_fk (attr_or_None obj (id_field own_fk)) f \<noteq> None \<longleftrightarrow>
    crosses model_named first_value obj f"
proof (cases "checked_field model_named own_fk f")
  case True
  then obtain target fk where t: "f_target f = Some target" "declared_column (model_named target) fk"
    by (auto simp: checked_field_def checked_target split: option.splits)
  then have "get_tenant_fk_field (model_named target) = Some fk" by (simp add: own_column_declared)
  with True assms t show ?thesis
    by (auto simp: field_error_def crosses_def Let_def checked_field_def declared_column_unique [OF assms(1)]
        declared_column_unique [OF t(2)])
next
  case False
  then show ?thesis
    by (auto simp: field_error_def crosses_def checked_field_def checked_target declared_column_unique [OF assms(1)])
qed

lemma crosses_own:
  assumes "crosses model_named first_value obj f"
  obtains own_fk where "declared_column (i_model obj) own_fk" "attr_or_None obj (id_field own_fk) \<noteq> PNone"
  using assms by (auto simp: crosses_def)

lemma foldl_errors_keys:
  "set (dict_keys (foldl (\<lambda>errs f. case err f of None \<Rightarrow> errs | Some msg \<Rightarrow> dict_set (name f) msg errs) errs0 fs))
     = set (dict_keys errs0) \<union> name ` {f \<in> set fs. err f \<noteq> None}"
proof (induction fs arbitrary: errs0)
  case (Cons f fs)
  show ?case by (cases "err f") (auto simp: Cons.IH)
qed simp

text \<open>
  C36: \<open>clean()\<close> rejects an instance exactly when one of its foreign keys, to a model with a tenant
  column of its own, reaches a row of a different tenant than the instance's (BR-ORM-013), and the
  error names exactly those fields. That the target's class is in the registry makes no difference, nor
  does the active tenant; a foreign key that is unset, dangling, to a model without tenant column or to
  a path-scoped one, or the tenant key itself, is never reported, and neither is anything of an instance
  without a tenant column or with an empty one.
\<close>
theorem cross_tenant_fk_rejected:
  "case validate_cross_tenant_fks s model_named first_value obj of
      Inr _ \<Rightarrow> {f \<in> set (m_fields (i_model obj)). crosses model_named first_value obj f} = {}
    | Inl e \<Rightarrow> \<exists>errs. e = ValidationError errs \<and> errs \<noteq> [] \<and>
        set (dict_keys errs) = f_name ` {f \<in> set (m_fields (i_model obj)). crosses model_named first_value obj f}"
proof (cases "\<exists>own_fk. declared_column (i_model obj) own_fk \<and> attr_or_None obj (id_field own_fk) \<noteq> PNone")
  case False
  then have "validate_cross_tenant_fks s model_named first_value obj = Inr ()"
    by (auto simp: validate_cross_tenant_fks_def own_column_declared split: option.splits)
  with False show ?thesis by (auto elim: crosses_own)
next
  case True
  then obtain own_fk where own: "declared_column (i_model obj) own_fk" "attr_or_None obj (id_field own_fk) \<noteq> PNone"
    by blast
  let ?own = "attr_or_None obj (id_field own_fk)"
  let ?errs = "foldl (\<lambda>errs f. case field_error s model_named first_value obj own_fk ?own f of
      None \<Rightarrow> errs | Some msg \<Rightarrow> dict_set (f_name f) msg errs) [] (m_fields (i_model obj))"
  have run: "validate_cross_tenant_fks s model_named first_value obj =
      (if ?errs \<noteq> [] then Inl (ValidationError ?errs) else Inr ())"
    using own by (simp add: validate_cross_tenant_fks_def Let_def own_column_declared [THEN iffD2])
  have keys: "set (dict_keys ?errs) =
      f_name ` {f \<in> set (m_fields (i_model obj)). crosses model_named first_value obj f}"
    by (simp only: foldl_errors_keys field_error_crosses [OF own]) simp
  have "?errs = [] \<longleftrightarrow> set (dict_keys ?errs) = {}" by (simp add: dict_keys_def)
  with run keys show ?thesis by auto
qed

definition court :: model_class where
  "court = booking\<lparr>m_name := ''Court'', m_fields := []\<rparr>"

theorem cross_tenant_fk_rejected_witness:
  "case validate_cross_tenant_fks default_settings (\<lambda>_. court\<lparr>m_registered := False\<rparr>) (\<lambda>_ _ _. PInt 2) (booking_of (PInt 1)) of
     Inr _ \<Rightarrow> False
   | Inl e \<Rightarrow> \<exists>errs. e = ValidationError errs \<and> set (dict_keys errs) = {''court''}"
proof -
  let ?f = "\<lparr> f_name = ''court'', f_attname = ''court_id'', f_many_to_one = True, f_foreign_key = True, f_target = Some ''Court'' \<rparr>"
  have fk: "declared_column booking ''tenant''" "declared_column (court\<lparr>m_registered := False\<rparr>) ''tenant''" "m_fields booking = [?f]"
    by (simp_all add: booking_def court_def declared_column_def)
  have "attr_or_None (booking_of (PInt 1)) ''court_id'' = PInt 5"
    by (simp add: booking_of_def attr_or_None_def)
  with fk have "crosses (\<lambda>_. court\<lparr>m_registered := False\<rparr>) (\<lambda>_ _ _. PInt 2) (booking_of (PInt 1)) ?f"
    unfolding crosses_def by (intro exI [of _ "''tenant''"] exI [of _ "''Court''"]) simp
  with fk(3) cross_tenant_fk_rejected [where s = default_settings and model_named = "\<lambda>_. court\<lparr>m_registered := False\<rparr>"
      and first_value = "\<lambda>_ _ _. PInt 2" and obj = "booking_of (PInt 1)"]
  show ?thesis by (auto split: sum.splits)
qed

section \<open>Uniqueness within a tenant\<close>

lemma tuc_clone_id [simp]: "tuc_clone c = c"
  by (simp add: tuc_clone_def tuc_deconstruct_def tuc_init_def)

text \<open>
  A \<open>tenant_unique\<close> declaration resolves to the model's tenant key followed by the declared
  fields, and stays that way through any number of clones and of further class preparations, of
  models with or without a tenant key of their own (a migration state renders the latter), so the
  tenant key is prepended once and only once.
\<close>
theorem tenant_unique_resolves_once:
  assumes "tenant_unique digest field_names name = Inr c" "m_fk_field m = Some fk" "fk \<noteq> []"
  shows "\<exists>c'. tuc_resolve m (tuc_clone c) = Inr c' \<and> c_fields c' = fk # field_names \<and> c_name c' = c_name c \<and>
    (\<forall>m'. tuc_resolve m' (tuc_clone c') = Inr c')"
proof -
  have "c_fields c = field_names" "c_tenant_fields c = field_names"
    using assms(1) by (auto simp: tenant_unique_def tuc_init_def split: if_splits)
  with assms(2,3) show ?thesis by (simp add: tuc_resolve_def)
qed

theorem tenant_unique_resolves_once_witness:
  "\<exists>c c'. tenant_unique (\<lambda>_ _. ''ab12cd34'') [''reference''] None = Inr c \<and> tuc_resolve booking (tuc_clone c) = Inr c' \<and>
     c_fields c' = [''tenant'', ''reference''] \<and>
     tuc_resolve (make_tenant_path_mixin ''court__tenant'') (tuc_clone c') = Inr c'"
  using tenant_unique_resolves_once [of "\<lambda>_ _. ''ab12cd34''" "[''reference'']" None _ booking "''tenant''"]
  by (auto simp: tenant_unique_def)

lemma tuc_resolve_needs_column:
  assumes "tenant_unique digest field_names name = Inr c" "m_fk_field m = None \<or> m_fk_field m = Some []"
  shows "isl (tuc_resolve m c)"
proof -
  have "c_fields c = c_tenant_fields c"
    using assms(1) by (auto simp: tenant_unique_def tuc_init_def split: if_splits)
  with assms(2) show ?thesis by (auto simp: tuc_resolve_def)
qed

text \<open>A mixin of the factory scopes by its column, one of the path factory by its path.\<close>

lemma make_tenant_mixin_scoped:
  "make_tenant_mixin s fk_field od rn ix nl = Inr (m, fk, col) \<Longrightarrow>
    has_tenant_column m \<and> get_tenant_lookup m = Some fk \<and> get_tenant_fk_field m = Some fk \<and>
    resolve_tenant_model_setting s = Inr (fk_to col)"
  by (auto simp: make_tenant_mixin_def Let_def has_tenant_column_def path_declared_def get_tenant_lookup_def
      get_tenant_fk_field_def split: sum.splits option.splits)

lemma make_tenant_path_mixin_scoped:
  "p \<noteq> [] \<Longrightarrow> is_tenant_model (make_tenant_path_mixin p) \<and> \<not> has_tenant_column (make_tenant_path_mixin p) \<and>
    get_tenant_lookup (make_tenant_path_mixin p) = Some p \<and> get_tenant_fk_field (make_tenant_path_mixin p) = None"
  by (simp add: make_tenant_path_mixin_def is_tenant_model_def has_tenant_column_def path_declared_def
      get_tenant_lookup_def get_tenant_fk_field_def)

end
