(* ===== verification/Routing.thy ===== *)
theory Routing
  imports Models "HOL-Library.Char_ord" "HOL-Library.List_Lexorder"
begin

text \<open>
  Regional routing (\<open>src/boundary/routing.py\<close>): the database router, the loud \<open>require_region\<close>, the
  region iteration helpers and the bounded set behind the warn-once log line. The set is kept as the
  list of its members without repetition.
\<close>

section \<open>Warning once\<close>

definition max_unmatched_region_warnings :: nat where
  "max_unmatched_region_warnings = 10000"

definition warn_unmatched_region_once :: "string \<Rightarrow> pyval \<Rightarrow> unit comp" where
  "warn_unmatched_region_once tenant_pk region =
     bindc (readc warned_regions) (\<lambda>warned.
       if (tenant_pk, region) \<in> set warned then ret ()
       else seqc (if length warned \<ge> max_unmatched_region_warnings
                  then writec (\<lambda>w. w\<lparr>warned_regions := []\<rparr>)
                  else ret ())
            (seqc (writec (\<lambda>w. w\<lparr>warned_regions := (tenant_pk, region) # warned_regions w\<rparr>))
               (log LogWarning ''Tenant region not in BOUNDARY_REGIONS, falling back to default'')))"

section \<open>RegionalRouter\<close>

text \<open>\<open>not region or region not in regions\<close> fails: the region is one of the configured names.\<close>

definition configured_region :: "string list \<Rightarrow> pyval \<Rightarrow> string option" where
  "configured_region regions region =
     (if \<not> truthy region then None
      else case region of PStr r \<Rightarrow> if r \<in> set regions then Some r else None | _ \<Rightarrow> None)"

text \<open>\<open>model\<close> is \<open>None\<close> when the argument is not a class.\<close>

definition route :: "env \<Rightarrow> model_class option \<Rightarrow> string comp" where
  "route E model =
     (case REGIONS (conf E) of
        None \<Rightarrow> ret ''default''
      | Some regions \<Rightarrow>
          if regions = [] then ret ''default''
          else bindc (readc region_override) (\<lambda>override.
            if override \<noteq> None \<and> override \<noteq> Some []
            then (if the override \<in> set regions then ret (the override) else ret ''default'')
            else if \<not> (case model of None \<Rightarrow> False | Some m \<Rightarrow> is_tenant_model m)
            then ret ''default''
            else bindc tc_get (\<lambda>tenant.
              case tenant of
                None \<Rightarrow> ret ''default''
              | Some t \<Rightarrow>
                  (let region = py_getattr t (REGION_FIELD (conf E)) in
                   case configured_region regions region of
                     None \<Rightarrow>
                       seqc (log LogDebug ''Region not in BOUNDARY_REGIONS, falling back to default'')
                       (seqc (warn_unmatched_region_once (py_str (t_pk t)) region)
                       (ret ''default''))
                   | Some r \<Rightarrow> seqc (log LogDebug ''Routing to region'') (ret r)))))"

definition db_for_read :: "env \<Rightarrow> model_class option \<Rightarrow> string comp" where
  "db_for_read E model = route E model"

definition db_for_write :: "env \<Rightarrow> model_class option \<Rightarrow> string comp" where
  "db_for_write E model = route E model"

definition allow_relation :: "instance_of \<Rightarrow> instance_of \<Rightarrow> bool option" where
  "allow_relation obj1 obj2 = None"

definition allow_migrate :: "string \<Rightarrow> string \<Rightarrow> string option \<Rightarrow> bool option" where
  "allow_migrate db app_label model_name = None"

section \<open>Helpers\<close>

definition require_region :: "env \<Rightarrow> tenant option \<Rightarrow> string comp" where
  "require_region E tenant =
     (case REGIONS (conf E) of
        None \<Rightarrow> raise (RegionNotConfiguredError RegionsUnconfigured)
      | Some regions \<Rightarrow>
          if regions = [] then raise (RegionNotConfiguredError RegionsUnconfigured)
          else bindc (case tenant of None \<Rightarrow> tc_get | Some t \<Rightarrow> ret tenant) (\<lambda>tenant.
            case tenant of
              None \<Rightarrow> raise (RegionNotConfiguredError NoActiveTenant)
            | Some t \<Rightarrow>
                (let region = py_getattr t (REGION_FIELD (conf E)) in
                 case configured_region regions region of
                   None \<Rightarrow> raise (RegionNotConfiguredError (RegionUnknown (t_pk t) region (sort regions)))
                 | Some r \<Rightarrow> ret r)))"

definition all_regions :: "env \<Rightarrow> (string list \<Rightarrow> 'a comp) \<Rightarrow> 'a comp" where
  "all_regions E body =
     (case REGIONS (conf E) of
        None \<Rightarrow> body [''default'']
      | Some regions \<Rightarrow> if regions = [] then body [''default''] else body regions)"

definition specific_region :: "string option \<Rightarrow> 'a comp \<Rightarrow> 'a comp" where
  "specific_region region_key body =
     bindc (readc region_override) (\<lambda>token.
       seqc (writec (\<lambda>w. w\<lparr>region_override := region_key\<rparr>))
         (try_finally body (writec (\<lambda>w. w\<lparr>region_override := token\<rparr>))))"

section \<open>The override is a scope\<close>

lemma keeps_specific_region: "keeps region_override (specific_region r (body :: 'a comp))"
proof -
  have "region_override (snd (try_finally body (writec (\<lambda>w. w\<lparr>region_override := d\<rparr>)) w)) = d"
    for body :: "'a comp" and d w
    by (rule try_finally_keeps_only_fin) simp
  then show ?thesis by (simp add: keeps_def specific_region_def bindc_Inr [OF readc_apply] seqc_Inr [OF writec_apply])
qed

interpretation region_scope: scope region_override "specific_region r" for r
  by unfold_locales (rule keeps_specific_region)

lemma specific_region_body:
  "fst (specific_region r body w) = fst (body (w\<lparr>region_override := r\<rparr>))"
  by (simp add: specific_region_def bindc_Inr [OF readc_apply] seqc_Inr [OF writec_apply]
      try_finally_Inr [OF writec_apply])

section \<open>Where the router sends a query\<close>

lemma configured_region_Some:
  "configured_region regions v = Some r \<longleftrightarrow> v = PStr r \<and> r \<noteq> [] \<and> r \<in> set regions"
  by (cases v) (auto simp: configured_region_def)

lemma warn_returns: "\<exists>w'. warn_unmatched_region_once pk v w = (Inr (), w')"
  by (simp add: warn_unmatched_region_once_def pyc_defs log_def)

lemma keeps_route:
  "keeps trace (route E m)" "keeps current_tenant (route E m)" "keeps region_override (route E m)"
  by (auto simp: route_def tc_get_def Let_def warn_unmatched_region_once_def keeps_log_trace
      intro!: keeps_intros keeps_writec split: option.splits)

lemma warned_then_ret: "fst (seqc (log lvl msg) (seqc (warn_unmatched_region_once pk v) (ret x)) w) = Inr x"
  using warn_returns [of pk v "w\<lparr>logs := (lvl, msg) # logs w\<rparr>"]
  by (auto simp: seqc_Inr [OF log_apply] seqc_Inr)

lemma logged_then_ret: "fst (seqc (log lvl msg) (ret x) w) = Inr x"
  by (simp add: seqc_Inr [OF log_apply])

lemma route_total: "\<exists>a. fst (route E (Some m) w) = Inr a"
  by (auto simp: route_def bindc_def readc_def tc_get_def Let_def warned_then_ret logged_then_ret split: option.splits)

lemma route_context:
  assumes "current_tenant w = current_tenant w'" "region_override w = region_override w'"
  shows "fst (route E (Some m) w) = fst (route E (Some m) w')"
  using assms
  by (auto simp: route_def bindc_def readc_def tc_get_def Let_def warned_then_ret logged_then_ret split: option.splits)

lemma total_route: "total (route E (Some m))"
  unfolding total_def using route_total by blast

definition active_region :: "env \<Rightarrow> tenant option \<Rightarrow> string" where
  "active_region E t = (case regional_alias (conf E) t of None \<Rightarrow> ''default'' | Some r \<Rightarrow> r)"

lemma regional_alias_configured:
  "REGIONS (conf E) = Some regions \<Longrightarrow> active_region E (Some t) =
    (case configured_region regions (py_getattr t (REGION_FIELD (conf E))) of None \<Rightarrow> ''default'' | Some r \<Rightarrow> r)"
  by (auto simp: active_region_def regional_alias_def configured_region_def split: pyval.splits)

lemma route_by_tenant:
  assumes "region_override w = None" "is_tenant_model m"
  shows "fst (route E (Some m) w) = Inr (active_region E (current_tenant w))"
proof (cases "REGIONS (conf E)")
  case None
  then show ?thesis by (simp add: route_def active_region_def regional_alias_def split: option.splits)
next
  case (Some regions)
  note regions = Some
  show ?thesis
  proof (cases "current_tenant w")
    case None
    with regions assms show ?thesis
      by (simp add: route_def active_region_def regional_alias_def tc_get_def bindc_def)
  next
    case (Some t)
    show ?thesis
    proof (cases "regions = []")
      case True
      with regions Some show ?thesis by (simp add: route_def active_region_def regional_alias_def)
    next
      case False
      have warn: "fst (seqc (warn_unmatched_region_once pk v) (ret x) w') = Inr x"
        for pk v w' and x :: string
        using warn_returns [of pk v w'] by (auto simp: seqc_Inr)
      from False regions Some assms regional_alias_configured [OF regions, of t] show ?thesis
        by (simp add: route_def tc_get_def bindc_Inr [OF readc_apply] Let_def seqc_Inr [OF log_apply] warn
            split: option.splits)
    qed
  qed
qed

text \<open>
  C31: Without a region override the router and the context layer agree: a query on a tenant-scoped
  model goes to the alias the context layer derives from the active tenant's region, and that alias
  is one of those \<open>using()\<close> and \<open>set()\<close> write the session variable on.
\<close>
theorem router_agrees_with_context:
  assumes "region_override w = None" "is_tenant_model m"
  shows "\<exists>a. fst (route E (Some m) w) = Inr a \<and> a \<in> set (target_aliases (conf E) (current_tenant w)) \<and>
    (case regional_alias (conf E) (current_tenant w) of None \<Rightarrow> a = ''default'' | Some r \<Rightarrow> a = r)"
  using route_by_tenant [OF assms]
  by (auto simp: active_region_def target_aliases_eq split: option.splits)

theorem router_agrees_with_context_witness:
  "fst (route pg_env (Some booking) (fresh_world\<lparr>current_tenant := Some (club 1 ''eu'')\<rparr>)) = Inr ''eu''"
proof -
  have "regional_alias regional_settings (Some (club 1 ''eu'')) = Some ''eu''"
    by (simp add: regional_alias_def)
  then show ?thesis
    using router_agrees_with_context [of "fresh_world\<lparr>current_tenant := Some (club 1 ''eu'')\<rparr>" booking pg_env]
      has_tenant_column_is_tenant [of booking] by auto
qed

text \<open>
  Under \<open>specific_region\<close> every query goes to the pinned alias, also one on a model that is not
  tenant-scoped and also while a tenant of another region is active, although the context layer has
  written no session variable on that alias.
\<close>
theorem region_override_routes_every_model:
  assumes "REGIONS (conf E) = Some regions" "r \<in> set regions" "r \<noteq> []"
    and "r \<noteq> ''default''" "regional_alias (conf E) (current_tenant w) \<noteq> Some r"
  shows "fst (specific_region (Some r) (route E model) w) = Inr r \<and>
    r \<notin> set (target_aliases (conf E) (current_tenant w)) \<and>
    region_override (snd (specific_region (Some r) (route E model) w)) = region_override w"
proof -
  have "fst (route E model (w\<lparr>region_override := Some r\<rparr>)) = Inr r"
    using assms(1-3) by (auto simp: route_def bindc_Inr [OF readc_apply])
  moreover have "r \<notin> set (target_aliases (conf E) (current_tenant w))"
    using assms(4,5) by (auto simp: target_aliases_eq split: option.splits)
  ultimately show ?thesis by (simp add: specific_region_body region_scope.after)
qed

theorem region_override_routes_every_model_witness:
  "fst (specific_region (Some ''us'') (route pg_env None) (fresh_world\<lparr>current_tenant := Some (club 1 ''eu'')\<rparr>)) = Inr ''us''"
  using region_override_routes_every_model [of pg_env "[''eu'', ''us'']" "''us''"
      "fresh_world\<lparr>current_tenant := Some (club 1 ''eu'')\<rparr>" None]
  by (simp add: regional_alias_def)

lemma require_region_run:
  "require_region E tenant w =
    (case REGIONS (conf E) of
       None \<Rightarrow> (Inl (RegionNotConfiguredError RegionsUnconfigured), w)
     | Some regions \<Rightarrow>
         if regions = [] then (Inl (RegionNotConfiguredError RegionsUnconfigured), w)
         else case (case tenant of None \<Rightarrow> current_tenant w | Some t \<Rightarrow> Some t) of
           None \<Rightarrow> (Inl (RegionNotConfiguredError NoActiveTenant), w)
         | Some t \<Rightarrow>
             (case configured_region regions (py_getattr t (REGION_FIELD (conf E))) of
                None \<Rightarrow> (Inl (RegionNotConfiguredError
                          (RegionUnknown (t_pk t) (py_getattr t (REGION_FIELD (conf E))) (sort regions))), w)
              | Some r \<Rightarrow> (Inr r, w)))"
  by (simp add: require_region_def tc_get_def bindc_def Let_def split: option.splits)

text \<open>
  \<open>require_region\<close> changes nothing and either raises \<open>RegionNotConfiguredError\<close> or returns the
  alias that the router sends that tenant's queries to; it raises exactly where the router would fall
  back silently (regions unconfigured, no tenant, no region or one that is not configured).
\<close>
theorem require_region_never_falls_back:
  "snd (require_region E (Some t) w) = w \<and>
   (case fst (require_region E (Some t) w) of
      Inr r \<Rightarrow> (\<exists>regions. REGIONS (conf E) = Some regions \<and> r \<in> set regions) \<and>
        (\<forall>m. is_tenant_model m \<longrightarrow>
          fst (route E (Some m) (w\<lparr>current_tenant := Some t, region_override := None\<rparr>)) = Inr r)
    | Inl e \<Rightarrow> (\<exists>why. e = RegionNotConfiguredError why) \<and>
        (\<forall>m. is_tenant_model m \<longrightarrow>
          fst (route E (Some m) (w\<lparr>current_tenant := Some t, region_override := None\<rparr>)) = Inr ''default''))"
proof -
  have "fst (route E (Some m) (w\<lparr>current_tenant := Some t, region_override := None\<rparr>)) = Inr (active_region E (Some t))"
    if "is_tenant_model m" for m
    using route_by_tenant [OF _ that, of "w\<lparr>current_tenant := Some t, region_override := None\<rparr>"] by simp
  note routed = this
  show ?thesis
  proof (cases "\<exists>regions. REGIONS (conf E) = Some regions \<and> regions \<noteq> []")
    case False
    then have "active_region E (Some t) = ''default''"
      by (auto simp: active_region_def regional_alias_def split: option.splits)
    with False routed show ?thesis by (auto simp: require_region_run split: option.splits)
  next
    case True
    then obtain regions where regions: "REGIONS (conf E) = Some regions" "regions \<noteq> []" by blast
    show ?thesis
      using regions routed regional_alias_configured [OF regions(1), of t]
      by (cases "configured_region regions (py_getattr t (REGION_FIELD (conf E)))")
        (auto simp: require_region_run dest: configured_region_Some [THEN iffD1])
  qed
qed

theorem require_region_never_falls_back_witness:
  "fst (route pg_env (Some booking) (fresh_world\<lparr>current_tenant := Some (club 1 ''eu''), region_override := None\<rparr>)) = Inr ''eu''"
proof -
  have "fst (require_region pg_env (Some (club 1 ''eu'')) fresh_world) = Inr ''eu''"
    by (simp add: require_region_run configured_region_def)
  then show ?thesis
    using require_region_never_falls_back [of pg_env "club 1 ''eu''" fresh_world]
      has_tenant_column_is_tenant [OF booking_simps(2)] by simp
qed

section \<open>The bound on the warn-once set\<close>

text \<open>
  The warn-once set stays free of repetitions and never exceeds its cap, whatever pairs pass
  through it; the warning is written exactly when the pair was not in the set, and the pair is in it
  afterwards, so it is not warned about again before a reset.
\<close>
theorem warn_once_bounded:
  assumes "distinct (warned_regions w)" "length (warned_regions w) \<le> max_unmatched_region_warnings"
  shows "let w' = snd (warn_unmatched_region_once pk region w) in
    distinct (warned_regions w') \<and> length (warned_regions w') \<le> max_unmatched_region_warnings \<and>
    (pk, region) \<in> set (warned_regions w') \<and>
    logs w' = (if (pk, region) \<in> set (warned_regions w) then logs w
               else (LogWarning, ''Tenant region not in BOUNDARY_REGIONS, falling back to default'') # logs w) \<and>
    snd (warn_unmatched_region_once pk region w') = w'"
proof -
  have "0 < max_unmatched_region_warnings" by (simp add: max_unmatched_region_warnings_def)
  with assms show ?thesis
    by (auto simp: warn_unmatched_region_once_def pyc_defs log_def Let_def)
qed

theorem warn_once_bounded_witness:
  "length (warned_regions (snd (warn_unmatched_region_once ''1'' (PStr ''mars'') fresh_world))) \<le> 10000"
  using warn_once_bounded [of fresh_world "''1''" "PStr ''mars''"]
  by (simp add: max_unmatched_region_warnings_def Let_def)

end
