(* ===== verification/Middleware.thy ===== *)
theory Middleware
  imports Resolvers Routing
begin

text \<open>
  \<open>TenantMiddleware\<close> (\<open>src/boundary/middleware.py\<close>): the resolver chain, the refusals, and the request
  run inside a transaction on \<open>default\<close> with the tenant set. \<open>load\<close> stands for importing and
  instantiating a resolver path (Django's \<open>import_string\<close>): the resolver's class name and its
  \<open>resolve\<close>. The two hooks a subclass may override are arguments, with the defaults defined here; the
  view is \<open>get_response\<close>, which is given the attributes the middleware has put on the request.
\<close>

type_synonym resolver = "string \<times> (request \<Rightarrow> tenant option comp)"

datatype 'r response = NotFound string | Forbidden string | View 'r

definition on_resolver_error :: "request \<Rightarrow> string \<Rightarrow> exn \<Rightarrow> unit comp" where
  "on_resolver_error req path err = ret ()"

definition label_title :: "django_settings \<Rightarrow> string" where
  "label_title s = (let label = TENANT_LABEL s in upper (take 1 label) @ drop 1 label)"

definition handle_inactive_tenant :: "env \<Rightarrow> request \<Rightarrow> tenant \<Rightarrow> exn \<Rightarrow> 'r response comp" where
  "handle_inactive_tenant E req t err = ret (Forbidden (label_title (conf E) @ '' is inactive.''))"

text \<open>The body of the loop of \<open>_resolve_tenant\<close> for one path, then the loop.\<close>

definition try_resolver ::
  "(string \<Rightarrow> exn + resolver) \<Rightarrow> (request \<Rightarrow> string \<Rightarrow> exn \<Rightarrow> unit comp) \<Rightarrow> request \<Rightarrow> string
     \<Rightarrow> (tenant \<times> string) option comp" where
  "try_resolver load on_error req path =
     try_except
       (bindc (liftc (load path)) (\<lambda>(name, resolve).
          bindc (resolve req) (\<lambda>tenant. ret (map_option (\<lambda>t. (t, name)) tenant))))
       (\<lambda>exc. seqc (log LogWarning ''Resolver raised exception'')
              (seqc (on_error req path (TenantResolutionError path exc)) (ret None)))"

primrec resolve_chain ::
  "(string \<Rightarrow> exn + resolver) \<Rightarrow> (request \<Rightarrow> string \<Rightarrow> exn \<Rightarrow> unit comp) \<Rightarrow> request \<Rightarrow> string list
     \<Rightarrow> (tenant \<times> string) option comp" where
  "resolve_chain load on_error req [] = ret None"
| "resolve_chain load on_error req (path # paths) =
     bindc (try_resolver load on_error req path) (\<lambda>found.
       case found of
         Some tr \<Rightarrow> ret (Some tr)
       | None \<Rightarrow> resolve_chain load on_error req paths)"

definition resolve_tenant ::
  "env \<Rightarrow> (string \<Rightarrow> exn + resolver) \<Rightarrow> (request \<Rightarrow> string \<Rightarrow> exn \<Rightarrow> unit comp) \<Rightarrow> request
     \<Rightarrow> (tenant \<times> string) option comp" where
  "resolve_tenant E load on_error req = resolve_chain load on_error req (RESOLVERS (conf E))"

definition inactive :: "tenant \<Rightarrow> bool" where
  "inactive t \<longleftrightarrow> py_hasattr t ''is_active'' \<and> \<not> truthy (py_getattr t ''is_active'')"

text \<open>\<open>request.tenant\<close>, the configured attribute when it has another name, and \<open>_boundary_token\<close>.\<close>

definition bind_request :: "env \<Rightarrow> tenant \<Rightarrow> tenant option \<Rightarrow> (string, pyarg) dict" where
  "bind_request E t token =
     (let attrs = dict_set ''tenant'' (TenantArg (Some t)) [];
          name = REQUEST_ATTR (conf E);
          attrs = (if name \<noteq> [] \<and> name \<noteq> ''tenant'' then dict_set name (TenantArg (Some t)) attrs else attrs)
      in dict_set ''_boundary_token'' (TenantArg token) attrs)"

definition middleware_call ::
  "env \<Rightarrow> (string \<Rightarrow> exn + resolver) \<Rightarrow> (request \<Rightarrow> string \<Rightarrow> exn \<Rightarrow> unit comp)
     \<Rightarrow> (request \<Rightarrow> tenant \<Rightarrow> exn \<Rightarrow> 'r response comp)
     \<Rightarrow> (request \<Rightarrow> (string, pyarg) dict \<Rightarrow> 'r comp) \<Rightarrow> request \<Rightarrow> 'r response comp" where
  "middleware_call E load on_error on_inactive get_response req =
     bindc (resolve_tenant E load on_error req) (\<lambda>found.
       case found of
         None \<Rightarrow>
           if REQUIRED (conf E)
           then seqc (performs E (SendSignal TenantResolutionFailed))
                  (ret (NotFound (label_title (conf E) @ '' not found.'')))
           else bindc (get_response req []) (\<lambda>r. ret (View r))
       | Some (t, name) \<Rightarrow>
           if inactive t
           then seqc (log LogWarning ''Inactive tenant rejected'')
                  (on_inactive req t (TenantInactiveError (label_title (conf E) @ '' is inactive.'')))
           else seqc (performs E (SendSignal (TenantResolved t name)))
                (seqc (log LogInfo ''Tenant resolved'')
                (bindc (ensure_atomic E ''default'') (\<lambda>c.
                  with_cm E c
                    (set_and_clear E t (\<lambda>token.
                       bindc (get_response req (bind_request E t token)) (\<lambda>r. ret (View r))))))))"

section \<open>The resolver chain\<close>

text \<open>Resolvers that import and run without a \<open>SystemExit\<close> or an interrupt.\<close>

definition mild_resolvers :: "(string \<Rightarrow> exn + resolver) \<Rightarrow> request \<Rightarrow> bool" where
  "mild_resolvers load req \<longleftrightarrow>
     (\<forall>path. case load path of Inl e \<Rightarrow> is_exception e | Inr (name, resolve) \<Rightarrow> mild (resolve req))"

lemma total_try_resolver:
  assumes "mild_resolvers load req"
  shows "total (try_resolver load on_resolver_error req path)"
proof -
  from assms have "case load path of Inl e \<Rightarrow> is_exception e | Inr (name, resolve) \<Rightarrow> mild (resolve req)"
    by (simp add: mild_resolvers_def)
  then have "mild (bindc (liftc (load path)) (\<lambda>(name, resolve).
      bindc (resolve req) (\<lambda>tenant. ret (map_option (\<lambda>t. (t, name)) tenant))))"
    by (auto simp: bindc_liftc intro!: mild_intros split: sum.splits)
  then show ?thesis
    unfolding try_resolver_def on_resolver_error_def by (intro total_intros)
qed

lemma keeps_resolve_chain:
  assumes "\<And>path name r. load path = Inr (name, r) \<Longrightarrow> keeps f (r req)" "\<And>path e. keeps f (on_error req path e)"
    and "state_only f"
  shows "keeps f (resolve_chain load on_error req paths)"
proof (induction paths)
  case (Cons path paths)
  have "keeps f (try_resolver load on_error req path)"
  proof (cases "load path")
    case (Inl e)
    then show ?thesis
      by (simp add: try_resolver_def bindc_liftc) (intro keeps_intros assms(2,3))
  next
    case (Inr nr)
    with assms(1) show ?thesis
      by (cases nr) (auto simp: try_resolver_def bindc_liftc intro!: keeps_intros assms(2,3))
  qed
  with Cons show ?case by (auto intro!: keeps_intros)
qed (simp add: keeps_ret)

text \<open>
  Resolution never raises with the default hook, whatever \<open>Exception\<close> the resolvers raise, and the first
  resolver with an answer wins: a tenant comes from a configured path that imported and returned it,
  and every path before it, run in order on the states they left, returned none or failed.
\<close>
theorem first_resolver_wins:
  assumes "mild_resolvers load req"
  shows "\<exists>found w'. resolve_chain load on_resolver_error req paths w = (Inr found, w') \<and>
    (case found of
       None \<Rightarrow> True
     | Some (t, name) \<Rightarrow> \<exists>pre path post r w1. paths = pre @ path # post \<and> load path = Inr (name, r) \<and>
         resolve_chain load on_resolver_error req pre w = (Inr None, w1) \<and> r req w1 = (Inr (Some t), w'))"
proof (induction paths arbitrary: w)
  case (Cons path paths)
  obtain found w1 where step: "try_resolver load on_resolver_error req path w = (Inr found, w1)"
    using total_try_resolver [OF assms] by (rule totalE)
  show ?case
  proof (cases found)
    case None
    with step have run: "resolve_chain load on_resolver_error req (path # ps) w
        = resolve_chain load on_resolver_error req ps w1" for ps by (simp add: bindc_Inr)
    from Cons [of w1] obtain fnd w' where ih: "resolve_chain load on_resolver_error req paths w1 = (Inr fnd, w')"
      "case fnd of None \<Rightarrow> True | Some (t, name) \<Rightarrow> \<exists>pre p post r w2. paths = pre @ p # post \<and> load p = Inr (name, r) \<and>
         resolve_chain load on_resolver_error req pre w1 = (Inr None, w2) \<and> r req w2 = (Inr (Some t), w')" by blast
    show ?thesis
    proof (cases fnd)
      case (Some tn)
      obtain t name where tn: "tn = (t, name)" by (cases tn)
      with ih(2) Some obtain pre p post r w2 where "paths = pre @ p # post" "load p = Inr (name, r)"
        "resolve_chain load on_resolver_error req pre w1 = (Inr None, w2)" "r req w2 = (Inr (Some t), w')" by auto
      with run [of pre] have "path # paths = (path # pre) @ p # post \<and> load p = Inr (name, r) \<and>
        resolve_chain load on_resolver_error req (path # pre) w = (Inr None, w2) \<and> r req w2 = (Inr (Some t), w')" by simp
      then have c: "\<exists>pre p post r w1. path # paths = pre @ p # post \<and> load p = Inr (name, r) \<and>
         resolve_chain load on_resolver_error req pre w = (Inr None, w1) \<and> r req w1 = (Inr (Some t), w')" by blast
      have "resolve_chain load on_resolver_error req (path # paths) w = (Inr (Some (t, name)), w')"
        using run [of paths] ih(1) Some tn by simp
      then show ?thesis
        by (intro exI [of _ "Some (t, name)"] exI [of _ w'] conjI) (assumption, simp only: option.case prod.case c)
    qed (use run [of paths] ih in \<open>auto simp del: resolve_chain.simps\<close>)
  next
    case (Some tn)
    obtain t name where tn: "tn = (t, name)" by (cases tn)
    from step Some tn obtain r where "load path = Inr (name, r)" "r req w = (Inr (Some t), w1)"
      by (cases "load path")
        (auto simp: try_resolver_def bindc_liftc bindc_def try_except_def on_resolver_error_def seqc_def log_def
          split: prod.splits sum.splits if_splits)
    moreover have "resolve_chain load on_resolver_error req (path # paths) w = (Inr (Some tn), w1)"
      using step Some by (simp add: bindc_Inr)
    moreover from calculation have "\<exists>pre p post r w2. path # paths = pre @ p # post \<and> load p = Inr (name, r) \<and>
         resolve_chain load on_resolver_error req pre w = (Inr None, w2) \<and> r req w2 = (Inr (Some t), w1)"
      by (intro exI [of _ "[]"] exI [of _ path] exI [of _ paths] exI [of _ r] exI [of _ w]) simp
    ultimately show ?thesis using tn
      by (intro exI [of _ "Some (t, name)"] exI [of _ w1] conjI) (simp, simp only: option.case prod.case)
  qed
qed simp

section \<open>The life of a request\<close>

lemma keeps_request:
  "keeps current_tenant (bindc (ensure_atomic E ''default'') (\<lambda>c. with_cm E c (set_and_clear E t body)))"
  by (intro keeps_intros keeps_set_and_clear)

lemma keeps_middleware_call:
  assumes "\<And>path name r. load path = Inr (name, r) \<Longrightarrow> keeps current_tenant (r req)"
    and "\<And>path e. keeps current_tenant (on_error req path e)" "\<And>t e. keeps current_tenant (on_inactive req t e)"
    and "REQUIRED (conf E) \<or> keeps current_tenant (get_response req [])"
  shows "keeps current_tenant (middleware_call E load on_error on_inactive get_response req)"
proof -
  have "keeps current_tenant (resolve_tenant E load on_error req)"
    unfolding resolve_tenant_def using assms(1,2) by (intro keeps_resolve_chain keeps_intros) auto
  then show ?thesis
    unfolding middleware_call_def using assms(3,4)
    by (intro keeps_intros keeps_request) (auto split: prod.splits intro!: keeps_intros keeps_request)
qed

interpretation request_scope: scope current_tenant
  "\<lambda>body. bindc (ensure_atomic E ''default'') (\<lambda>c. with_cm E c (set_and_clear E t (\<lambda>_. body)))" for E t
  by unfold_locales (rule keeps_request)

text \<open>
  C7: A request leaves the active tenant of its thread as it found it, whether it is served or rejected
  and whatever the database does, so that it hands no tenant on to the next request of the thread. With
  \<open>BOUNDARY_REQUIRED\<close> on this holds whatever the view does; without it a view may run with no tenant, and is
  then asked not to change the active one itself. The resolvers and the hooks are asked the same: the
  middleware has no \<open>finally\<close> around them.
\<close>
theorem request_leaves_no_tenant:
  assumes "\<And>path name r. load path = Inr (name, r) \<Longrightarrow> keeps current_tenant (r req)"
    and "\<And>path e. keeps current_tenant (on_error req path e)" "\<And>t e. keeps current_tenant (on_inactive req t e)"
    and "REQUIRED (conf E) \<or> keeps current_tenant (get_response req [])"
  shows "current_tenant (snd (middleware_call E load on_error on_inactive get_response req w)) = current_tenant w"
  by (rule keepsD, rule keeps_middleware_call) (fact assms)+

definition explicit_only :: "string \<Rightarrow> exn + resolver" where
  "explicit_only path = Inr (''ExplicitResolver'', explicit_resolve)"

theorem request_leaves_no_tenant_witness:
  "current_tenant (snd (middleware_call pg_env explicit_only on_resolver_error (handle_inactive_tenant pg_env)
     (\<lambda>_ _. seqc (tc_put (Some (club 9 ''eu''))) (raise ImproperlyConfigured))
     (host_request ''a.example.com''\<lparr>r_boundary_tenant := Some (club 1 ''eu'')\<rparr>) fresh_world)) = (None :: tenant option)"
proof -
  have "REQUIRED (conf pg_env)" by (simp add: REQUIRED_def regional_settings_def default_settings_def)
  then show ?thesis
    using request_leaves_no_tenant [of explicit_only "host_request ''a.example.com''\<lparr>r_boundary_tenant := Some (club 1 ''eu'')\<rparr>"
        on_resolver_error "handle_inactive_tenant pg_env" pg_env
        "\<lambda>_ _. seqc (tc_put (Some (club 9 ''eu''))) (raise ImproperlyConfigured)" fresh_world]
    by (auto simp: explicit_only_def explicit_resolve_def on_resolver_error_def handle_inactive_tenant_def keeps_ret)
qed

text \<open>
  A request whose resolution ends without a tenant, when one is required, or with an inactive
  tenant, never reaches the view: the outcome and the state are the same for any two views, the
  answer is 404 (unless a receiver of \<open>tenant_resolution_failed\<close> raises) or what the hook for
  inactive tenants returns, and the active tenant is not touched.
\<close>
theorem rejected_request_not_run:
  assumes "resolve_tenant E load on_error req w = (Inr found, w1)"
    and "case found of None \<Rightarrow> REQUIRED (conf E) | Some (t, _) \<Rightarrow> inactive t"
  shows "middleware_call E load on_error on_inactive view req w = middleware_call E load on_error on_inactive view' req w \<and>
    (case found of
       None \<Rightarrow> (case fst (middleware_call E load on_error on_inactive view req w) of
                  Inr resp \<Rightarrow> resp = NotFound (label_title (conf E) @ '' not found.'') | Inl _ \<Rightarrow> True)
     | Some (t, _) \<Rightarrow> middleware_call E load on_error on_inactive view req w =
         on_inactive req t (TenantInactiveError (label_title (conf E) @ '' is inactive.''))
           (w1\<lparr>logs := (LogWarning, ''Inactive tenant rejected'') # logs w1\<rparr>))"
  using assms
  by (auto simp: middleware_call_def bindc_Inr seqc_def bindc_def log_apply split: option.splits prod.splits sum.splits)

theorem rejected_request_not_run_witness:
  "fst (middleware_call pg_env explicit_only on_resolver_error (handle_inactive_tenant pg_env) (\<lambda>_ _. ret ())
     (host_request ''a.example.com'') fresh_world) \<in> {Inr (NotFound (label_title regional_settings @ '' not found.''))}
     \<union> range Inl"
proof -
  have "REQUIRED regional_settings" by (simp add: REQUIRED_def regional_settings_def default_settings_def)
  moreover have "resolve_tenant pg_env explicit_only on_resolver_error (host_request ''a.example.com'') fresh_world
      = (Inr None, fresh_world)"
    by (simp add: resolve_tenant_def RESOLVERS_def regional_settings_def default_settings_def pg_env_def
        try_resolver_def explicit_only_def explicit_resolve_def bindc_liftc host_request_def try_except_def bindc_def)
  ultimately show ?thesis
    using rejected_request_not_run [of pg_env explicit_only on_resolver_error "host_request ''a.example.com''" fresh_world None
        fresh_world "handle_inactive_tenant pg_env" "\<lambda>_ _. ret ()" "\<lambda>_ _. ret ()"]
    by (auto split: sum.splits)
qed

lemma ensure_default_ok:
  assumes ok: "db_ok E" and laws: "db_laws E" and wrap: "WRAP_ATOMIC (conf E)"
  shows "\<exists>w1. (\<forall>a. atomic_depth E (trace w1) a =
      (if a = ''default'' \<and> opens E w a then Suc (atomic_depth E (trace w) a) else atomic_depth E (trace w) a)) \<and>
    same_state w w1 \<and>
    (\<forall>body :: 'a comp. fst (bindc (ensure_atomic E ''default'') (\<lambda>c. with_cm E c body) w) = fst (body w1))"
proof -
  let ?al = "filter (opens E w) [''default'']"
  obtain l where stack: "\<forall>body :: 'a comp. with_stack E [''default''] body w =
    (let r = body (w\<lparr>logs := l, trace := enters ?al @ trace w\<rparr>) in
      (fst r, (snd r)\<lparr>trace := exits (isl (fst r)) ?al @ trace (snd r)\<rparr>))"
    using with_stack_ok [OF ok laws wrap distinct_singleton, of "''default''" w, where 'a = 'a] by blast
  have "distinct ?al" by simp
  note depth = depth_enters [OF laws this]
  have "atomic_depth E (enters ?al @ trace w) a =
      (if a = ''default'' \<and> opens E w a then Suc (atomic_depth E (trace w) a) else atomic_depth E (trace w) a)" for a
    by (subst depth) auto
  then show ?thesis
    by (intro exI [of _ "w\<lparr>logs := l, trace := enters ?al @ trace w\<rparr>"])
      (simp add: with_one stack Let_def del: with_stack.simps filter.simps)
qed

text \<open>The state a block runs in under the middleware's and Celery's transaction and tenant.\<close>

lemma request_runs:
  assumes "db_ok E" "db_laws E" "WRAP_ATOMIC (conf E)"
  shows "\<exists>w1. current_tenant w1 = Some t \<and> region_override w1 = region_override w \<and>
    (\<forall>a. atomic_depth E (trace w1) a =
       (if a = ''default'' \<and> opens E w a then Suc (atomic_depth E (trace w) a) else atomic_depth E (trace w) a)) \<and>
    (\<forall>a. in_atomic E (trace w1) a \<and> a \<in> set (target_aliases (conf E) (Some t)) \<and> carries_var E a \<longrightarrow>
       session_var E (trace w1) a (DB_SESSION_VAR (conf E)) = py_str (t_pk t)) \<and>
    (\<forall>body :: tenant option \<Rightarrow> 'a comp.
       fst (bindc (ensure_atomic E ''default'') (\<lambda>c. with_cm E c (set_and_clear E t body)) w)
         = fst (body (current_tenant w) w1))"
proof -
  obtain w0 where w0: "\<forall>a. atomic_depth E (trace w0) a =
      (if a = ''default'' \<and> opens E w a then Suc (atomic_depth E (trace w) a) else atomic_depth E (trace w) a)"
    "same_state w w0"
    "\<forall>body :: 'a comp. fst (bindc (ensure_atomic E ''default'') (\<lambda>c. with_cm E c body) w) = fst (body w0)"
    using ensure_default_ok [OF assms, where 'a = 'a] by blast
  obtain w1 where w1: "current_tenant w1 = Some t" "region_override w1 = region_override w0"
    "\<forall>a. atomic_depth E (trace w1) a = atomic_depth E (trace w0) a"
    "\<forall>a. in_atomic E (trace w0) a \<and> a \<in> set (target_aliases (conf E) (Some t)) \<and> carries_var E a \<longrightarrow>
       session_var E (trace w1) a (DB_SESSION_VAR (conf E)) = py_str (t_pk t)"
    "\<forall>body :: tenant option \<Rightarrow> 'a comp. fst (set_and_clear E t body w0) = fst (body (current_tenant w0) w1)"
    using set_and_clear_run [OF assms(1,2), where 'a = 'a] by blast
  have "in_atomic E (trace w1) a = in_atomic E (trace w0) a" for a using w1(3) by (simp add: in_atomic_def)
  with w0 w1 show ?thesis by (intro exI [of _ w1]) (simp add: same_state_def)
qed

text \<open>A resolved request: the state its view runs in and the attributes it is given.\<close>

lemma request_view:
  assumes "db_ok E" "db_laws E" "WRAP_ATOMIC (conf E)"
    and "resolve_tenant E load on_error req w = (Inr (Some (t, name)), w0)" "\<not> inactive t"
  shows "\<exists>w1. current_tenant w1 = Some t \<and> region_override w1 = region_override w0 \<and>
    (\<forall>a. atomic_depth E (trace w1) a =
       (if a = ''default'' \<and> opens E w0 a then Suc (atomic_depth E (trace w0) a) else atomic_depth E (trace w0) a)) \<and>
    (\<forall>a. in_atomic E (trace w1) a \<and> a \<in> set (target_aliases (conf E) (Some t)) \<and> carries_var E a \<longrightarrow>
       session_var E (trace w1) a (DB_SESSION_VAR (conf E)) = py_str (t_pk t)) \<and>
    (\<forall>view :: request \<Rightarrow> (string, pyarg) dict \<Rightarrow> 'a comp.
       fst (middleware_call E load on_error on_inactive view req w) =
       (case fst (view req (bind_request E t (current_tenant w0)) w1) of Inl e \<Rightarrow> Inl e | Inr r \<Rightarrow> Inr (View r)))"
proof -
  let ?w = "w0\<lparr>trace := (SendSignal (TenantResolved t name), True) # trace w0,
    logs := (LogInfo, ''Tenant resolved'') # logs w0\<rparr>"
  have d: "atomic_depth E ((SendSignal (TenantResolved t name), True) # trace w0) a = atomic_depth E (trace w0) a" for a
    by (simp add: depth_other [OF assms(2)])
  then have o: "opens E ?w a = opens E w0 a" for a by (simp add: opens_def in_atomic_def)
  obtain w1 where w1: "current_tenant w1 = Some t" "region_override w1 = region_override ?w"
    "\<forall>a. atomic_depth E (trace w1) a =
       (if a = ''default'' \<and> opens E ?w a then Suc (atomic_depth E (trace ?w) a) else atomic_depth E (trace ?w) a)"
    "\<forall>a. in_atomic E (trace w1) a \<and> a \<in> set (target_aliases (conf E) (Some t)) \<and> carries_var E a \<longrightarrow>
       session_var E (trace w1) a (DB_SESSION_VAR (conf E)) = py_str (t_pk t)"
    "\<forall>body :: tenant option \<Rightarrow> 'a response comp.
       fst (bindc (ensure_atomic E ''default'') (\<lambda>c. with_cm E c (set_and_clear E t body)) ?w)
         = fst (body (current_tenant ?w) w1)"
    using request_runs [OF assms(1-3), where 'a = "'a response"] by blast
  have "fst (middleware_call E load on_error on_inactive view req w) =
      fst (bindc (view req (bind_request E t (current_tenant w0))) (\<lambda>r. ret (View r)) w1)"
    for view :: "request \<Rightarrow> (string, pyarg) dict \<Rightarrow> 'a comp"
    using w1(5) assms(4,5)
    by (simp add: middleware_call_def bindc_Inr seqc_Inr performs_ok [OF assms(1)] log_apply)
  then have "fst (middleware_call E load on_error on_inactive view req w) =
      (case fst (view req (bind_request E t (current_tenant w0)) w1) of Inl e \<Rightarrow> Inl e | Inr r \<Rightarrow> Inr (View r))"
    for view :: "request \<Rightarrow> (string, pyarg) dict \<Rightarrow> 'a comp"
    by (auto simp: bindc_def split: prod.splits sum.splits)
  with w1(1-4) show ?thesis by (intro exI [of _ w1]) (simp add: d o)
qed

text \<open>
  C6: On a database without failures and with \<open>BOUNDARY_WRAP_ATOMIC\<close> on, a request resolved to an
  active tenant runs its view in one fixed state, with that tenant active and, on a PostgreSQL
  \<open>default\<close>, inside a transaction in which the session variable reads the tenant's key; the view is
  given the tenant as \<open>request.tenant\<close> and under the configured name, and its outcome is the request's.
\<close>
theorem request_runs_view_as_tenant:
  assumes "db_ok E" "db_laws E" "WRAP_ATOMIC (conf E)"
    and "resolve_tenant E load on_error req w = (Inr (Some (t, name)), w0)" "\<not> inactive t"
  shows "\<exists>w1 attrs. current_tenant w1 = Some t \<and>
    (carries_var E ''default'' \<longrightarrow> in_atomic E (trace w1) ''default'' \<and>
       session_var E (trace w1) ''default'' (DB_SESSION_VAR (conf E)) = py_str (t_pk t)) \<and>
    map_of attrs ''tenant'' = Some (TenantArg (Some t)) \<and>
    (REQUEST_ATTR (conf E) \<noteq> [] \<and> REQUEST_ATTR (conf E) \<noteq> ''_boundary_token'' \<longrightarrow>
       map_of attrs (REQUEST_ATTR (conf E)) = Some (TenantArg (Some t))) \<and>
    (\<forall>view :: request \<Rightarrow> (string, pyarg) dict \<Rightarrow> 'a comp.
       fst (middleware_call E load on_error on_inactive view req w) =
       (case fst (view req attrs w1) of Inl e \<Rightarrow> Inl e | Inr r \<Rightarrow> Inr (View r)))"
proof -
  obtain w1 where w1: "current_tenant w1 = Some t"
    "\<forall>a. atomic_depth E (trace w1) a =
       (if a = ''default'' \<and> opens E w0 a then Suc (atomic_depth E (trace w0) a) else atomic_depth E (trace w0) a)"
    "\<forall>a. in_atomic E (trace w1) a \<and> a \<in> set (target_aliases (conf E) (Some t)) \<and> carries_var E a \<longrightarrow>
       session_var E (trace w1) a (DB_SESSION_VAR (conf E)) = py_str (t_pk t)"
    "\<forall>view :: request \<Rightarrow> (string, pyarg) dict \<Rightarrow> 'a comp.
       fst (middleware_call E load on_error on_inactive view req w) =
       (case fst (view req (bind_request E t (current_tenant w0)) w1) of Inl e \<Rightarrow> Inl e | Inr r \<Rightarrow> Inr (View r))"
    using request_view [OF assms, where 'a = 'a] by blast
  have "in_atomic E (trace w1) ''default''" if "carries_var E ''default''"
    using w1(2) that by (auto simp: opens_def carries_var_def in_atomic_def)
  with w1 show ?thesis
    by (intro exI [of _ w1] exI [of _ "bind_request E t (current_tenant w0)"])
      (auto simp: target_aliases_eq bind_request_def Let_def)
qed

text \<open>
  C37: A request of a tenant with a regional alias of its own runs its view without the session
  variable there, although the router sends the view's tenant-scoped queries to it: the middleware
  opens a transaction on \<open>default\<close> only, so unless the alias was in a transaction before, it is in
  none while the view runs, and its variable reads empty.
\<close>
theorem request_misses_regional_variable:
  assumes "db_ok E" "db_laws E" "WRAP_ATOMIC (conf E)"
    and "resolve_tenant E load on_error req w = (Inr (Some (t, name)), w0)" "\<not> inactive t"
    and "regional_alias (conf E) (Some t) = Some r" "\<not> in_atomic E (trace w0) r"
    and "is_tenant_model m" "region_override w0 = None"
  shows "\<exists>w1 attrs. fst (route E (Some m) w1) = Inr r \<and> \<not> in_atomic E (trace w1) r \<and>
    session_var E (trace w1) r (DB_SESSION_VAR (conf E)) = [] \<and>
    (\<forall>view :: request \<Rightarrow> (string, pyarg) dict \<Rightarrow> 'a comp.
       fst (middleware_call E load on_error on_inactive view req w) =
       (case fst (view req attrs w1) of Inl e \<Rightarrow> Inl e | Inr r \<Rightarrow> Inr (View r)))"
proof -
  obtain w1 where w1: "current_tenant w1 = Some t" "region_override w1 = region_override w0"
    "\<forall>a. atomic_depth E (trace w1) a =
       (if a = ''default'' \<and> opens E w0 a then Suc (atomic_depth E (trace w0) a) else atomic_depth E (trace w0) a)"
    "\<forall>view :: request \<Rightarrow> (string, pyarg) dict \<Rightarrow> 'a comp.
       fst (middleware_call E load on_error on_inactive view req w) =
       (case fst (view req (bind_request E t (current_tenant w0)) w1) of Inl e \<Rightarrow> Inl e | Inr r \<Rightarrow> Inr (View r))"
    using request_view [OF assms(1-5), where 'a = 'a] by blast
  have "r \<noteq> ''default''" using assms(6) by (simp add: regional_alias_Some)
  with w1(3) assms(7) have "atomic_depth E (trace w1) r = 0" by (simp add: in_atomic_def)
  moreover have "fst (route E (Some m) w1) = Inr r"
    using route_by_tenant [of w1 m E] w1(1,2) assms(6,8,9) by (simp add: active_region_def)
  ultimately show ?thesis
    using w1(4) by (intro exI [of _ w1] exI [of _ "bind_request E t (current_tenant w0)"])
      (auto simp: in_atomic_def var_outside [OF assms(2)])
qed

section \<open>A concrete request\<close>

definition explicit_env :: env where
  "explicit_env = pg_env\<lparr>conf := regional_settings\<lparr>BOUNDARY_RESOLVERS := Some [''boundary.resolvers.ExplicitResolver'']\<rparr>\<rparr>"

definition explicit_request :: request where
  "explicit_request = host_request ''a.example.com''\<lparr>r_boundary_tenant := Some (club 7 ''us'')\<rparr>"

lemma explicit_env_facts:
  "db_ok explicit_env" "db_laws explicit_env" "WRAP_ATOMIC (conf explicit_env)" "carries_var explicit_env ''default''"
  "\<not> inactive (club 7 ''us'')" "\<not> in_atomic explicit_env (trace fresh_world) ''us''"
  "DB_SESSION_VAR (conf explicit_env) = ''app.current_tenant_id''"
  "regional_alias (conf explicit_env) (Some (club 7 ''us'')) = Some ''us''"
  "resolve_tenant explicit_env explicit_only on_resolver_error explicit_request fresh_world
     = (Inr (Some (club 7 ''us'', ''ExplicitResolver'')), fresh_world)"
proof -
  show "db_ok explicit_env" using pg_env_laws(1) by (simp add: db_ok_def explicit_env_def)
  show "db_laws explicit_env" using pg_env_laws(2) by (simp add: db_laws_def explicit_env_def)
qed (simp_all add: explicit_env_def conf_defs carries_var_def inactive_def py_hasattr_def club_def in_atomic_def
    regional_settings_def default_settings_def regional_alias_def py_getattr_def resolve_tenant_def
    try_resolver_def explicit_only_def explicit_resolve_def bindc_liftc explicit_request_def try_except_def bindc_def)

theorem request_runs_view_as_tenant_witness:
  "\<exists>w1 attrs. current_tenant w1 = Some (club 7 ''us'') \<and>
    session_var explicit_env (trace w1) ''default'' ''app.current_tenant_id'' = ''7'' \<and>
    (\<forall>view :: request \<Rightarrow> (string, pyarg) dict \<Rightarrow> unit comp.
       fst (middleware_call explicit_env explicit_only on_resolver_error (handle_inactive_tenant explicit_env) view
         explicit_request fresh_world) =
       (case fst (view explicit_request attrs w1) of Inl e \<Rightarrow> Inl e | Inr r \<Rightarrow> Inr (View r)))"
proof -
  have "py_str (t_pk (club 7 ''us'')) = ''7''" by code_simp
  with explicit_env_facts(4,7) request_runs_view_as_tenant [OF explicit_env_facts(1-3,9,5), where 'a = unit]
  show ?thesis by (metis (no_types, lifting))
qed

theorem request_misses_regional_variable_witness:
  "\<exists>w1 attrs. fst (route explicit_env (Some booking) w1) = Inr ''us'' \<and>
    session_var explicit_env (trace w1) ''us'' ''app.current_tenant_id'' = [] \<and>
    (\<forall>view :: request \<Rightarrow> (string, pyarg) dict \<Rightarrow> unit comp.
       fst (middleware_call explicit_env explicit_only on_resolver_error (handle_inactive_tenant explicit_env) view
         explicit_request fresh_world) =
       (case fst (view explicit_request attrs w1) of Inl e \<Rightarrow> Inl e | Inr r \<Rightarrow> Inr (View r)))"
proof -
  have "region_override fresh_world = None" by simp
  note request_misses_regional_variable [OF explicit_env_facts(1-3,9,5,8,6)
      has_tenant_column_is_tenant [OF booking_simps(2)] this, where 'a = unit]
  with explicit_env_facts(7) show ?thesis by (metis (no_types, lifting))
qed

end
