(* ===== verification/Celery.thy ===== *)
theory Celery
  imports Middleware
begin

text \<open>
  Task propagation (\<open>src/boundary/celery.py\<close>): the headers put on a task when it is dispatched and
  the tenant restored from them on the worker. Celery itself is an argument: the headers of the
  current task, and the \<open>super().apply_async\<close> that sends it.
\<close>

type_synonym headers = "(string, pyval) dict"

definition header_tenant_id :: string where
  "header_tenant_id = ''boundary_tenant_id''"

definition header_region :: string where
  "header_region = ''boundary_region''"

definition get_tenant_headers :: "env \<Rightarrow> headers comp" where
  "get_tenant_headers E =
     bindc tc_get (\<lambda>tenant. case tenant of
       None \<Rightarrow> ret []
     | Some t \<Rightarrow>
         (let hs = [(header_tenant_id, PStr (py_str (t_pk t)))];
              region = py_getattr t (REGION_FIELD (conf E))
          in ret (if truthy region then dict_set header_region region hs else hs)))"

text \<open>\<open>None\<close> for \<open>(None, None)\<close>, otherwise the tenant and the token.\<close>

definition restore_tenant_context :: "env \<Rightarrow> headers \<Rightarrow> (tenant \<times> tenant option) option comp" where
  "restore_tenant_context E hs =
     (let tenant_id = (case map_of hs header_tenant_id of None \<Rightarrow> PNone | Some v \<Rightarrow> v) in
      if \<not> truthy tenant_id then ret None
      else seqc (checked_model E)
        (bindc (try_except (fetch_tenant E (ByPk tenant_id))
                  (\<lambda>e. if is_does_not_exist e then raise (TenantNotFoundError tenant_id) else raise e)) (\<lambda>t.
         bindc (tc_set E (Some t) ''default'') (\<lambda>token.
           seqc (log LogInfo ''Tenant context restored for task'') (ret (Some (t, token)))))))"

text \<open>What \<open>tenant_task\<close> and \<open>TenantTask.__call__\<close> do once they have the headers.\<close>

definition run_task :: "env \<Rightarrow> headers \<Rightarrow> 'a comp \<Rightarrow> 'a comp" where
  "run_task E hs body =
     bindc (ensure_atomic E ''default'') (\<lambda>c. with_cm E c
       (bindc (restore_tenant_context E hs) (\<lambda>restored.
          try_finally body
            (case restored of None \<Rightarrow> ret () | Some (t, token) \<Rightarrow> tc_clear E token ''default''))))"

text \<open>\<open>current\<close>: importing \<open>celery\<close> may fail; the request of the current task may carry no headers.\<close>

definition tenant_task :: "env \<Rightarrow> exn + headers option \<Rightarrow> 'a comp \<Rightarrow> 'a comp" where
  "tenant_task E current func =
     (case current of
        Inl (PyImportError _) \<Rightarrow> run_task E [] func
      | Inl e \<Rightarrow> raise e
      | Inr None \<Rightarrow> run_task E [] func
      | Inr (Some hs) \<Rightarrow> run_task E hs func)"

definition tenant_task_call :: "env \<Rightarrow> headers option \<Rightarrow> 'a comp \<Rightarrow> 'a comp" where
  "tenant_task_call E request_headers run =
     run_task E (case request_headers of None \<Rightarrow> [] | Some hs \<Rightarrow> hs) run"

definition apply_async :: "env \<Rightarrow> (headers \<Rightarrow> 'a comp) \<Rightarrow> headers option \<Rightarrow> 'a comp" where
  "apply_async E super_apply_async option_headers =
     bindc (get_tenant_headers E) (\<lambda>hs.
       super_apply_async (dict_update (case option_headers of None \<Rightarrow> [] | Some h \<Rightarrow> h) hs))"

section \<open>The worker\<close>

definition names_task_tenant :: "headers \<Rightarrow> pyval \<Rightarrow> bool" where
  "names_task_tenant hs v \<longleftrightarrow> map_of hs header_tenant_id = Some v \<and> truthy v"

definition task_fetch :: "env \<Rightarrow> pyval \<Rightarrow> tenant comp" where
  "task_fetch E v = seqc (checked_model E)
     (try_except (fetch_tenant E (ByPk v))
        (\<lambda>e. if is_does_not_exist e then raise (TenantNotFoundError v) else raise e))"

lemma run_task_anonymous:
  "\<not> (\<exists>v. names_task_tenant hs v) \<Longrightarrow>
    run_task E hs body = bindc (ensure_atomic E ''default'') (\<lambda>c. with_cm E c body)"
proof -
  assume "\<not> (\<exists>v. names_task_tenant hs v)"
  then have "restore_tenant_context E hs = ret None"
    by (auto simp: restore_tenant_context_def names_task_tenant_def split: option.splits)
  moreover have "try_finally body (ret ()) = body"
    by (rule ext) (simp add: try_finally_def split: prod.splits)
  ultimately show ?thesis by (simp add: run_task_def)
qed

lemma run_task_named:
  assumes "names_task_tenant hs v"
  shows "run_task E hs body = bindc (ensure_atomic E ''default'') (\<lambda>c. with_cm E c
    (bindc (task_fetch E v) (\<lambda>t. set_and_clear E t (\<lambda>_.
       seqc (log LogInfo ''Tenant context restored for task'') body))))"
proof -
  have "bindc (restore_tenant_context E hs) (\<lambda>restored. try_finally body
        (case restored of None \<Rightarrow> ret () | Some (t, token) \<Rightarrow> tc_clear E token ''default''))
    = bindc (task_fetch E v) (\<lambda>t. set_and_clear E t (\<lambda>_.
        seqc (log LogInfo ''Tenant context restored for task'') body))"
    using assms
    by (intro ext) (simp add: restore_tenant_context_def names_task_tenant_def task_fetch_def set_and_clear_def
        seqc_def bindc_def log_apply try_finally_def split: prod.splits sum.splits)
  then show ?thesis by (simp add: run_task_def)
qed

lemma keeps_task_fetch: "state_only f \<Longrightarrow> keeps f (task_fetch E v)"
  unfolding task_fetch_def checked_model_def by (intro keeps_intros)

lemma keeps_run_task_named: "names_task_tenant hs v \<Longrightarrow> keeps current_tenant (run_task E hs body)"
  by (simp add: run_task_named) (intro keeps_intros keeps_task_fetch keeps_set_and_clear)

text \<open>Every task of a worker that names a tenant (a non-empty key) is a scope.\<close>

interpretation task_scope: scope current_tenant
  "\<lambda>body. run_task E ((header_tenant_id, PStr (c # tid)) # hs) body" for E c tid hs
  by unfold_locales (rule keeps_run_task_named [where v = "PStr (c # tid)"], simp add: names_task_tenant_def)

text \<open>
  C9: Running a task leaves the worker's active tenant as it found it, whether the tenant exists and
  whatever the database does: for a task that names a tenant whatever its body does, returns or raises;
  for a task without a tenant header when its body does not change the tenant itself, since nothing
  clears what such a body sets.
\<close>
theorem task_leaves_no_tenant:
  assumes "(\<exists>v. names_task_tenant hs v) \<or> keeps current_tenant body"
  shows "current_tenant (snd (run_task E hs body w)) = current_tenant w"
proof (cases "\<exists>v. names_task_tenant hs v")
  case True
  then show ?thesis using keepsD [OF keeps_run_task_named] by blast
next
  case False
  with assms have "keeps current_tenant (bindc (ensure_atomic E ''default'') (\<lambda>c. with_cm E c body))"
    by (intro keeps_intros) auto
  with False show ?thesis by (simp add: run_task_anonymous keepsD)
qed

theorem task_leaves_no_tenant_witness:
  "current_tenant (snd (run_task pg_env [(header_tenant_id, PStr ''7'')]
     (seqc (tc_put (Some (club 9 ''eu''))) (raise ImproperlyConfigured :: unit comp)) fresh_world)) = None"
proof -
  have "names_task_tenant [(header_tenant_id, PStr ''7'')] (PStr ''7'')" by (simp add: names_task_tenant_def)
  with task_leaves_no_tenant [of "[(header_tenant_id, PStr ''7'')]" _ pg_env fresh_world] show ?thesis by force
qed

text \<open>
  C8: A task dispatched while a tenant is active, with whatever headers of its own, carries that
  tenant's key, and on the worker (no failing statement, \<open>BOUNDARY_WRAP_ATOMIC\<close> on) its body runs
  with the tenant of that key active and, on a PostgreSQL \<open>default\<close>, with the session variable set in
  a transaction; the task's outcome is the body's.
\<close>
theorem task_runs_for_dispatching_tenant:
  assumes "current_tenant w = Some t" "py_str (t_pk t) \<noteq> []"
    and "db_ok W" "db_laws W" "WRAP_ATOMIC (conf W)" "resolve_tenant_model_setting (conf W) = Inr path"
    and "\<And>tr. tenant_get W tr (ByPk (PStr (py_str (t_pk t)))) = Inr t'"
  shows "\<exists>hs w1. (\<forall>send :: headers \<Rightarrow> unit comp. apply_async E send own w = send hs w) \<and>
    current_tenant w1 = Some t' \<and>
    (carries_var W ''default'' \<longrightarrow> in_atomic W (trace w1) ''default'' \<and>
       session_var W (trace w1) ''default'' (DB_SESSION_VAR (conf W)) = py_str (t_pk t')) \<and>
    (\<forall>body :: 'a comp. fst (run_task W hs body w') = fst (body w1))"
proof -
  let ?v = "PStr (py_str (t_pk t))"
  let ?own = "case own of None \<Rightarrow> [] | Some h \<Rightarrow> h"
  obtain th where th: "get_tenant_headers E w = (Inr th, w)" "names_task_tenant (dict_update ?own th) ?v"
    using assms(1,2)
    by (auto simp: get_tenant_headers_def tc_get_def bindc_def Let_def names_task_tenant_def dict_update_def
        header_tenant_id_def header_region_def)
  let ?hs = "dict_update ?own th"
  obtain w0 where w0: "\<forall>a. atomic_depth W (trace w0) a =
      (if a = ''default'' \<and> opens W w' a then Suc (atomic_depth W (trace w') a) else atomic_depth W (trace w') a)"
    "\<forall>body :: 'a comp. fst (bindc (ensure_atomic W ''default'') (\<lambda>c. with_cm W c body) w') = fst (body w0)"
    using ensure_default_ok [OF assms(3-5), where 'a = 'a] by blast
  let ?w0 = "w0\<lparr>trace := (GetTenant (ByPk ?v), True) # trace w0\<rparr>"
  have fetch: "task_fetch W ?v w0 = (Inr t', ?w0)"
    by (simp add: task_fetch_def checked_model_def assms(6,7) fetch_tenant_def try_except_def seqc_def bindc_def)
  obtain w1 where w1: "current_tenant w1 = Some t'" "\<forall>a. atomic_depth W (trace w1) a = atomic_depth W (trace ?w0) a"
    "\<forall>a. in_atomic W (trace ?w0) a \<and> a \<in> set (target_aliases (conf W) (Some t')) \<and> carries_var W a \<longrightarrow>
       session_var W (trace w1) a (DB_SESSION_VAR (conf W)) = py_str (t_pk t')"
    "\<forall>body :: tenant option \<Rightarrow> 'a comp. fst (set_and_clear W t' body ?w0) = fst (body (current_tenant ?w0) w1)"
    using set_and_clear_run [OF assms(3,4), where 'a = 'a] by blast
  let ?w1 = "w1\<lparr>logs := (LogInfo, ''Tenant context restored for task'') # logs w1\<rparr>"
  have "fst (run_task W ?hs body w') = fst (body ?w1)" for body :: "'a comp"
    using th(2) w0(2) w1(4) fetch by (simp add: run_task_named bindc_Inr seqc_Inr [OF log_apply])
  moreover have "in_atomic W (trace ?w0) ''default''" if "carries_var W ''default''"
    using w0(1) that by (auto simp: opens_def carries_var_def in_atomic_def depth_other [OF assms(4)])
  moreover have "in_atomic W (trace w1) a = in_atomic W (trace ?w0) a" for a using w1(2) by (simp add: in_atomic_def)
  moreover have "apply_async E send own w = send ?hs w" for send :: "headers \<Rightarrow> unit comp"
    using th(1) by (simp add: apply_async_def bindc_Inr)
  ultimately show ?thesis
    using w1(1,3) by (intro exI [of _ ?hs] exI [of _ ?w1]) (auto simp: target_aliases_eq)
qed

definition worker_env :: env where
  "worker_env = pg_env\<lparr>tenant_get := (\<lambda>_ _. Inr (club 7 ''us''))\<rparr>"

theorem task_runs_for_dispatching_tenant_witness:
  "\<exists>hs w1. (\<forall>send :: headers \<Rightarrow> unit comp.
       apply_async pg_env send None (fresh_world\<lparr>current_tenant := Some (club 7 ''us'')\<rparr>)
         = send hs (fresh_world\<lparr>current_tenant := Some (club 7 ''us'')\<rparr>)) \<and>
    current_tenant w1 = Some (club 7 ''us'') \<and> (\<forall>body :: unit comp. fst (run_task worker_env hs body fresh_world) = fst (body w1))"
proof -
  have f: "current_tenant (fresh_world\<lparr>current_tenant := Some (club 7 ''us'')\<rparr>) = Some (club 7 ''us'')"
    "db_ok worker_env" "db_laws worker_env" "WRAP_ATOMIC (conf worker_env)"
    "\<And>tr. tenant_get worker_env tr (ByPk (PStr (py_str (t_pk (club 7 ''us''))))) = Inr (club 7 ''us'')"
    using pg_env_laws(1,2) by (simp_all add: worker_env_def db_ok_def db_laws_def)
  have s: "py_str (t_pk (club 7 ''us'')) \<noteq> []" "resolve_tenant_model_setting (conf worker_env) = Inr ''tenants.Club''"
    by (simp_all add: int_str_def worker_env_def resolve_tenant_model_setting_def str_or_def regional_settings_def default_settings_def)
  show ?thesis
    using task_runs_for_dispatching_tenant [OF f(1) s(1) f(2-4) s(2) f(5), where 'a = unit, of pg_env None fresh_world] by blast
qed

text \<open>
  A task whose tenant no longer exists never runs its body, and raises \<open>TenantNotFoundError\<close>
  naming the key (unless leaving the transaction itself raises); the state is the same for any two
  bodies.
\<close>
theorem task_of_missing_tenant_not_run:
  assumes "names_task_tenant hs v" "resolve_tenant_model_setting (conf E) = Inr path"
    and "\<And>tr. tenant_get E tr (ByPk v) = Inl ObjectDoesNotExist"
  shows "run_task E hs body w = run_task E hs body' w \<and>
    (db_ok E \<longrightarrow> fst (run_task E hs body w) = Inl (TenantNotFoundError v))"
proof -
  have raises: "bindc (task_fetch E v) k = bindc (task_fetch E v) (k' :: tenant \<Rightarrow> 'a comp)"
    "fst (bindc (task_fetch E v) k w) = Inl (TenantNotFoundError v)" for k k' w
    by (auto simp: task_fetch_def checked_model_def assms(2,3) fetch_tenant_def pyc_defs)
  have "fst (with_cm E c m w) = Inl e" if "db_ok E" "\<And>w. fst (m w) = Inl e" for c w e and m :: "'a comp"
    using that by (cases c) (simp_all add: with_cm_def seqc_Inr [OF performs_ok] performs_ok split: prod.splits, metis fst_conv)
  with raises(2) have "db_ok E \<longrightarrow> fst (run_task E hs body w) = Inl (TenantNotFoundError v)"
    unfolding run_task_named [OF assms(1)] by (metis (no_types, lifting) bindc_Inr total_ensure_atomic totalE)
  with raises(1) show ?thesis by (simp add: run_task_named [OF assms(1)]) metis
qed

theorem task_of_missing_tenant_not_run_witness:
  "fst (run_task pg_env [(header_tenant_id, PStr ''7'')] (ret ()) fresh_world) = Inl (TenantNotFoundError (PStr ''7''))"
proof -
  have "names_task_tenant [(header_tenant_id, PStr ''7'')] (PStr ''7'')" by (simp add: names_task_tenant_def)
  moreover have "resolve_tenant_model_setting (conf pg_env) = Inr ''tenants.Club''"
    by (simp add: resolve_tenant_model_setting_def str_or_def regional_settings_def default_settings_def)
  moreover have "tenant_get pg_env tr (ByPk v) = Inl ObjectDoesNotExist" for tr v by (simp add: pg_env_def)
  ultimately show ?thesis using task_of_missing_tenant_not_run pg_env_laws(1) by blast
qed

end
