(* ===== verification/Apps.thy ===== *)
theory Apps
  imports Resolvers
begin

text \<open>
  Start-up (\<open>src/boundary/apps.py\<close>): the receivers that keep the resolver cache from serving a
  tenant that was saved or deleted. They are connected to Django's \<open>post_save\<close> and \<open>post_delete\<close> of
  the model the settings name; a project without a tenant model connects none.
\<close>

definition invalidation_sender :: "django_settings \<Rightarrow> string option" where
  "invalidation_sender s =
     (case resolve_tenant_model_setting s of Inl e \<Rightarrow> None | Inr model_string \<Rightarrow> Some model_string)"

text \<open>The two receivers, run for an instance of the model Django sends the signal for.\<close>

definition invalidate_on_save :: "tenant \<Rightarrow> unit comp" where
  "invalidate_on_save inst = cache_invalidate (TenantArg (Some inst))"

definition invalidate_on_delete :: "tenant \<Rightarrow> unit comp" where
  "invalidate_on_delete inst = cache_invalidate (TenantArg (Some inst))"

definition tenant_saved :: "env \<Rightarrow> tenant \<Rightarrow> unit comp" where
  "tenant_saved E t =
     (case invalidation_sender (conf E) of None \<Rightarrow> ret () | Some _ \<Rightarrow> invalidate_on_save t)"

definition tenant_deleted :: "env \<Rightarrow> tenant \<Rightarrow> unit comp" where
  "tenant_deleted E t =
     (case invalidation_sender (conf E) of None \<Rightarrow> ret () | Some _ \<Rightarrow> invalidate_on_delete t)"

section \<open>What the receivers leave\<close>

lemma keeps_tenant_signals [keeps_intros]:
  assumes "\<And>w c. f (w\<lparr>resolver_cache := c\<rparr>) = f w"
  shows "keeps f (tenant_saved E t)" "keeps f (tenant_deleted E t)"
  using assms
  by (auto simp: tenant_saved_def tenant_deleted_def invalidate_on_save_def invalidate_on_delete_def
      cache_invalidate_def Let_def intro: keeps_intros keeps_writec split: option.splits)

text \<open>Every entry of the tenant goes, and no other.\<close>

lemma tenant_deleted_cache:
  assumes "invalidation_sender (conf E) = Some path"
  shows "tenant_deleted E t w
    = (Inr (), w\<lparr>resolver_cache := filter (\<lambda>(k, c, ts). t_pk c \<noteq> t_pk t) (resolver_cache w)\<rparr>)"
  using assms by (simp add: tenant_deleted_def invalidate_on_delete_def cache_invalidate_def Let_def)

lemma tenant_saved_cache:
  assumes "invalidation_sender (conf E) = Some path"
  shows "tenant_saved E t w
    = (Inr (), w\<lparr>resolver_cache := filter (\<lambda>(k, c, ts). t_pk c \<noteq> t_pk t) (resolver_cache w)\<rparr>)"
  using assms by (simp add: tenant_saved_def invalidate_on_save_def cache_invalidate_def Let_def)

text \<open>Without a tenant model nothing is connected and a change is not seen.\<close>

lemma no_sender_no_invalidation:
  "resolve_tenant_model_setting (conf E) = Inl e \<Longrightarrow> tenant_saved E t w = (Inr (), w) \<and> tenant_deleted E t w = (Inr (), w)"
  by (simp add: tenant_saved_def tenant_deleted_def invalidation_sender_def)

end
