(* ===== verification/Adoption.thy ===== *)
theory Adoption
  imports Models "HOL-Library.Char_ord" "HOL-Library.List_Lexorder"
begin

text \<open>
  Which tables the adoption of a third-party app covers, and what PostgreSQL's catalogue says of
  them (\<open>src/boundary/adoption.py\<close>). A model class is the record the manager layer reads, extended
  by the parts of \<open>_meta\<close> read here. Django's two app registries (the live one and a migration
  state's) are records of functions; the catalogue is a record of the rows of the system tables the
  queries name, and each query is a function over those rows.
\<close>

section \<open>Models as Django's registries give them\<close>

record through_model =
  th_app :: string
  th_name :: string
  th_auto_created :: bool

text \<open>
  \<open>mf_db_type\<close>: \<open>field.db_type(connection)\<close>. \<open>mf_related_pk\<close>: the same of the key of
  \<open>field.related_model\<close>, \<open>None\<close> when the field has no related model.
\<close>

record meta_field =
  mf_name :: string
  mf_column :: string
  mf_unique :: bool
  mf_primary_key :: bool
  mf_db_type :: "string option"
  mf_related_pk :: "string option option"
  mf_through :: "through_model option"

text \<open>The attributes of a \<open>UniqueConstraint\<close>; each flag is the truth value of the attribute.\<close>

record unique_declaration =
  ud_fields :: "string list"
  ud_condition :: bool
  ud_expressions :: bool
  ud_deferrable :: bool
  ud_include :: bool
  ud_opclasses :: bool
  ud_nulls_distinct :: "bool option"

datatype meta_constraint = OtherConstraint string | UniqueConstraint unique_declaration

record model_meta = model_class +
  mm_app :: string
  mm_table :: string
  mm_abstract :: bool
  mm_proxy :: bool
  mm_local_fields :: "meta_field list"
  mm_get_fields :: "meta_field list"
  mm_get_field :: "string \<Rightarrow> exn + meta_field"
  mm_pk :: meta_field
  mm_unique_together :: "string list list"
  mm_constraints :: "meta_constraint list"

text \<open>
  \<open>app_models label\<close>: \<open>get_app_config(label).get_models(include_auto_created=True)\<close>, or the exception
  of \<open>get_app_config\<close>. \<open>model_at label name\<close> and \<open>model_path path\<close>: \<open>get_model\<close> with two arguments and
  with one.
\<close>

record apps_registry =
  app_models :: "string \<Rightarrow> exn + model_meta list"
  model_at :: "string \<Rightarrow> string \<Rightarrow> exn + model_meta"
  model_path :: "string \<Rightarrow> exn + model_meta"

fun is_lookup_error :: "exn \<Rightarrow> bool" where
  "is_lookup_error (LookupError _) = True"
| "is_lookup_error _ = False"

fun is_lookup_or_value_error :: "exn \<Rightarrow> bool" where
  "is_lookup_or_value_error (LookupError _) = True"
| "is_lookup_or_value_error (PyValueError _) = True"
| "is_lookup_or_value_error _ = False"

section \<open>The deny-list\<close>

definition DENIED_APPS :: "string set" where
  "DENIED_APPS = {''contenttypes'', ''sessions'', ''sites''}"

definition DENIED_MODELS :: "string set" where
  "DENIED_MODELS = {''auth.Permission'', ''admin.LogEntry''}"

definition DENIED_TABLES :: "string set" where
  "DENIED_TABLES = {''django_migrations''}"

definition model_label :: "model_meta \<Rightarrow> string" where
  "model_label m = mm_app m @ ''.'' @ m_name m"

definition tenant_model_label :: "django_settings \<Rightarrow> apps_registry \<Rightarrow> exn + string" where
  "tenant_model_label s live =
     (case resolve_tenant_model_setting s of
        Inl e \<Rightarrow> Inl e
      | Inr path \<Rightarrow> map_sum id model_label (model_path live path))"

text \<open>Why the app cannot be adopted, \<open>None\<close> when it can.\<close>

definition refusal_reason :: "apps_registry \<Rightarrow> string \<Rightarrow> exn + refusal option" where
  "refusal_reason apps app_label =
     (if app_label \<in> DENIED_APPS then Inr (Some (RefusedApp app_label))
      else case app_models apps app_label of
             Inl e \<Rightarrow> if is_lookup_error e then Inr (Some (AppNotInstalled app_label)) else Inl e
           | Inr _ \<Rightarrow> Inr None)"

text \<open>The same for one model; \<open>tenant_label\<close> is looked up only when it is needed and not given.\<close>

definition refusal_reason_for_model ::
  "django_settings \<Rightarrow> apps_registry \<Rightarrow> string option \<Rightarrow> model_meta \<Rightarrow> exn + refusal option" where
  "refusal_reason_for_model s live tenant_label m =
     (let label = model_label m in
      if label \<in> DENIED_MODELS then Inr (Some (RefusedModel label))
      else if mm_table m \<in> DENIED_TABLES then Inr (Some (RefusedTable (mm_table m) label))
      else case (case tenant_label of None \<Rightarrow> tenant_model_label s live | Some l \<Rightarrow> Inr l) of
             Inl e \<Rightarrow> Inl e
           | Inr tlabel \<Rightarrow> Inr (if label = tlabel then Some (RefusedTenantModel label) else None))"

section \<open>The adopted set\<close>

text \<open>The mixin question is asked of the class the live registry holds under the same name.\<close>

definition is_already_scoped :: "apps_registry \<Rightarrow> model_meta \<Rightarrow> exn + bool" where
  "is_already_scoped live m =
     (case model_at live (mm_app m) (m_name m) of
        Inl e \<Rightarrow> if is_lookup_or_value_error e then Inr False else Inl e
      | Inr l \<Rightarrow> Inr (is_tenant_model (model_class.truncate l)))"

definition through_label :: "through_model \<Rightarrow> string" where
  "through_label th = th_app th @ ''.'' @ th_name th"

text \<open>\<open>label.split(".", 1)\<close>, which the code unpacks into two names.\<close>

definition split_label :: "string \<Rightarrow> exn + string \<times> string" where
  "split_label l =
     (case dropWhile (\<lambda>c. c \<noteq> CHR ''.'') l of
        [] \<Rightarrow> Inl (PyValueError ''not enough values to unpack'')
      | _ # rest \<Rightarrow> Inr (takeWhile (\<lambda>c. c \<noteq> CHR ''.'') l, rest))"

definition tenant_through_labels :: "apps_registry \<Rightarrow> string \<Rightarrow> exn + string set" where
  "tenant_through_labels apps tenant_label =
     (case split_label tenant_label of
        Inl e \<Rightarrow> Inl e
      | Inr (app, name) \<Rightarrow>
          (case model_at apps app name of
             Inl e \<Rightarrow> if is_lookup_or_value_error e then Inr {} else Inl e
           | Inr tm \<Rightarrow> Inr (foldl (\<lambda>labels f.
               case mf_through f of
                 None \<Rightarrow> labels
               | Some th \<Rightarrow> if th_auto_created th then insert (through_label th) labels else labels)
               {} (mm_get_fields tm))))"

text \<open>The loop of \<open>adopted_models\<close>.\<close>

fun collect_adopted ::
  "apps_registry \<Rightarrow> string set \<Rightarrow> string \<Rightarrow> string set \<Rightarrow> model_meta list \<Rightarrow> exn + model_meta list" where
  "collect_adopted live excluded tlabel throughs [] = Inr []"
| "collect_adopted live excluded tlabel throughs (m # ms) =
     (if mm_abstract m \<or> mm_proxy m then collect_adopted live excluded tlabel throughs ms
      else if model_label m \<in> excluded then collect_adopted live excluded tlabel throughs ms
      else if model_label m = tlabel \<or> model_label m \<in> throughs then collect_adopted live excluded tlabel throughs ms
      else if model_label m \<in> DENIED_MODELS \<or> mm_table m \<in> DENIED_TABLES
        then collect_adopted live excluded tlabel throughs ms
      else case is_already_scoped live m of
             Inl e \<Rightarrow> Inl e
           | Inr scoped \<Rightarrow>
               if scoped then collect_adopted live excluded tlabel throughs ms
               else map_sum id (\<lambda>adopted. m # adopted) (collect_adopted live excluded tlabel throughs ms))"

definition adopted_models ::
  "django_settings \<Rightarrow> apps_registry \<Rightarrow> apps_registry \<Rightarrow> string \<Rightarrow> string list \<Rightarrow> exn + model_meta list" where
  "adopted_models s live apps app_label exclude =
     (let excluded = set (ADOPT_EXCLUDE s) \<union> set exclude in
      case tenant_model_label s live of
        Inl e \<Rightarrow> Inl e
      | Inr tlabel \<Rightarrow>
          (case tenant_through_labels apps tlabel of
             Inl e \<Rightarrow> Inl e
           | Inr throughs \<Rightarrow>
               (case app_models apps app_label of
                  Inl e \<Rightarrow> Inl e
                | Inr ms \<Rightarrow> collect_adopted live excluded tlabel throughs ms)))"

section \<open>The expected set, from the live registry\<close>

fun collect_refusals :: "apps_registry \<Rightarrow> string list \<Rightarrow> exn + (string \<times> refusal option) list" where
  "collect_refusals live [] = Inr []"
| "collect_refusals live (a # as') =
     (case refusal_reason live a of
        Inl e \<Rightarrow> Inl e
      | Inr r \<Rightarrow> map_sum id (\<lambda>rest. (a, r) # rest) (collect_refusals live as'))"

definition expected_adopted_apps ::
  "django_settings \<Rightarrow> apps_registry \<Rightarrow> exn + (string \<times> refusal option) list" where
  "expected_adopted_apps s live = collect_refusals live (TENANT_APPS s)"

text \<open>The inner loop: models whose label was seen already are dropped.\<close>

definition add_unseen :: "model_meta list \<Rightarrow> model_meta list \<Rightarrow> model_meta list" where
  "add_unseen models new =
     foldl (\<lambda>acc m. if model_label m \<in> model_label ` set acc then acc else acc @ [m]) models new"

fun collect_expected ::
  "django_settings \<Rightarrow> apps_registry \<Rightarrow> model_meta list \<Rightarrow> (string \<times> refusal option) list
     \<Rightarrow> exn + model_meta list" where
  "collect_expected s live models [] = Inr models"
| "collect_expected s live models ((a, refusal) # rest) =
     (if refusal \<noteq> None then collect_expected s live models rest
      else case adopted_models s live live a [] of
             Inl e \<Rightarrow> Inl e
           | Inr ms \<Rightarrow> collect_expected s live (add_unseen models ms) rest)"

definition expected_adopted_models :: "django_settings \<Rightarrow> apps_registry \<Rightarrow> exn + model_meta list" where
  "expected_adopted_models s live =
     (case expected_adopted_apps s live of
        Inl e \<Rightarrow> Inl e
      | Inr apps \<Rightarrow> collect_expected s live [] apps)"

section \<open>PostgreSQL's catalogue\<close>

text \<open>
  The columns the queries read. \<open>att_type\<close> is what \<open>format_type\<close> returns for the row; \<open>ix_partial\<close>
  and \<open>ix_expression\<close> say that \<open>indpred\<close> and \<open>indexprs\<close> are not null. \<open>regclass\<close> is \<open>to_regclass\<close>, and
  \<open>cat_count\<close> is \<open>SELECT COUNT( * )\<close>, which fails on a missing table.
\<close>

record pg_attribute =
  att_relid :: nat
  att_name :: string
  att_num :: int
  att_dropped :: bool
  att_type :: string

record pg_constraint =
  con_name :: string
  con_relid :: nat
  con_type :: char
  con_key :: "int list"
  con_deferrable :: bool
  con_indid :: nat

record pg_index =
  ix_relid :: nat
  ix_table :: nat
  ix_key :: "int list"
  ix_unique :: bool
  ix_primary :: bool
  ix_partial :: bool
  ix_expression :: bool

record pg_class =
  cl_oid :: nat
  cl_name :: string
  cl_row_security :: bool
  cl_force_row_security :: bool

record catalogue =
  regclass :: "string \<Rightarrow> nat option"
  cat_attributes :: "pg_attribute list"
  cat_constraints :: "pg_constraint list"
  cat_indexes :: "pg_index list"
  cat_classes :: "pg_class list"
  cat_policies :: "(nat \<times> string) list"
  cat_count :: "string \<Rightarrow> exn + nat"

definition column_type :: "catalogue \<Rightarrow> string \<Rightarrow> string \<Rightarrow> string option" where
  "column_type cat table column =
     (case regclass cat table of
        None \<Rightarrow> None
      | Some oid \<Rightarrow>
          (case filter (\<lambda>a. att_relid a = oid \<and> att_name a = column \<and> 0 < att_num a \<and> \<not> att_dropped a)
                  (cat_attributes cat) of
             [] \<Rightarrow> None
           | a # _ \<Rightarrow> Some (att_type a)))"

definition row_count :: "catalogue \<Rightarrow> string \<Rightarrow> exn + nat" where
  "row_count cat table = cat_count cat table"

text \<open>\<open>unnest(key) WITH ORDINALITY JOIN pg_attribute ... ORDER BY ord\<close>\<close>

definition key_columns :: "catalogue \<Rightarrow> nat \<Rightarrow> int list \<Rightarrow> string list" where
  "key_columns cat oid key =
     concat (map (\<lambda>k. map att_name
       (filter (\<lambda>a. att_relid a = oid \<and> att_num a = k) (cat_attributes cat))) key)"

record unique_constraint =
  uc_name :: string
  uc_columns :: "string list"
  uc_deferrable :: bool
  uc_fk_targeted :: bool

definition unique_constraints :: "catalogue \<Rightarrow> string \<Rightarrow> unique_constraint list" where
  "unique_constraints cat table =
     (case regclass cat table of
        None \<Rightarrow> []
      | Some oid \<Rightarrow>
          map (\<lambda>c. \<lparr> uc_name = con_name c, uc_columns = key_columns cat (con_relid c) (con_key c),
                     uc_deferrable = con_deferrable c,
                     uc_fk_targeted = list_ex (\<lambda>f. con_type f = CHR ''f'' \<and> con_indid f = con_indid c)
                       (cat_constraints cat) \<rparr>)
            (sort_key con_name (filter (\<lambda>c. con_relid c = oid \<and> con_type c = CHR ''u'')
               (cat_constraints cat))))"

record unique_index =
  ui_name :: string
  ui_columns :: "string list"
  ui_primary :: bool
  ui_partial :: bool
  ui_expression :: bool
  ui_constraint :: "string option"

text \<open>One row per matching class row and constraint row, one without a constraint when none matches.\<close>

definition index_rows :: "catalogue \<Rightarrow> pg_index \<Rightarrow> unique_index list" where
  "index_rows cat x =
     (let row = (\<lambda>name c. \<lparr> ui_name = name, ui_columns = key_columns cat (ix_table x) (ix_key x),
                   ui_primary = ix_primary x, ui_partial = ix_partial x,
                   ui_expression = ix_expression x, ui_constraint = c \<rparr>);
          joined = filter (\<lambda>c. con_indid c = ix_relid x \<and> con_type c \<in> {CHR ''u'', CHR ''p''})
                     (cat_constraints cat)
      in concat (map (\<lambda>i.
           if cl_oid i \<noteq> ix_relid x then []
           else if joined = [] then [row (cl_name i) None]
           else map (\<lambda>c. row (cl_name i) (Some (con_name c))) joined) (cat_classes cat)))"

definition unique_indexes :: "catalogue \<Rightarrow> string \<Rightarrow> unique_index list" where
  "unique_indexes cat table =
     (case regclass cat table of
        None \<Rightarrow> []
      | Some oid \<Rightarrow>
          sort_key ui_name (concat (map (index_rows cat)
            (filter (\<lambda>x. ix_table x = oid \<and> ix_unique x) (cat_indexes cat)))))"

definition policy_names :: "catalogue \<Rightarrow> string \<Rightarrow> string set" where
  "policy_names cat table =
     (case regclass cat table of
        None \<Rightarrow> {}
      | Some oid \<Rightarrow> set (map snd (filter (\<lambda>p. fst p = oid) (cat_policies cat))))"

section \<open>What adoption covers\<close>

text \<open>A model of the app is adopted unless one of these says no.\<close>

definition skipped :: "string set \<Rightarrow> string \<Rightarrow> string set \<Rightarrow> model_meta \<Rightarrow> bool" where
  "skipped excluded tlabel throughs m \<longleftrightarrow>
     mm_abstract m \<or> mm_proxy m \<or> model_label m \<in> excluded \<or> model_label m = tlabel \<or>
     model_label m \<in> throughs \<or> model_label m \<in> DENIED_MODELS \<or> mm_table m \<in> DENIED_TABLES"

lemma collect_adopted_Cons:
  "collect_adopted live excluded tlabel throughs (m # ms) =
     (if skipped excluded tlabel throughs m then collect_adopted live excluded tlabel throughs ms
      else case is_already_scoped live m of
             Inl e \<Rightarrow> Inl e
           | Inr scoped \<Rightarrow>
               if scoped then collect_adopted live excluded tlabel throughs ms
               else map_sum id (\<lambda>adopted. m # adopted) (collect_adopted live excluded tlabel throughs ms))"
  by (simp add: skipped_def)

lemma map_sum_id_Inr [simp]: "map_sum id f r = Inr y \<longleftrightarrow> (\<exists>x. r = Inr x \<and> y = f x)"
  by (cases r) auto

lemma map_sum_id_Inl [simp]: "map_sum id f r = Inl e \<longleftrightarrow> r = Inl e"
  by (cases r) auto

lemma collect_adopted_filter:
  "collect_adopted live excluded tlabel throughs all = Inr ms \<Longrightarrow>
    ms = filter (\<lambda>m. \<not> skipped excluded tlabel throughs m \<and> is_already_scoped live m = Inr False) all"
proof (induction all arbitrary: ms)
  case (Cons m all)
  show ?case
  proof (cases "skipped excluded tlabel throughs m \<or> is_already_scoped live m = Inr True")
    case True
    then have "collect_adopted live excluded tlabel throughs (m # all) =
        collect_adopted live excluded tlabel throughs all"
      by (auto simp del: collect_adopted.simps simp: collect_adopted_Cons)
    with Cons True show ?thesis by auto
  next
    case False
    with Cons.prems obtain ms' where
      "is_already_scoped live m = Inr False"
      "collect_adopted live excluded tlabel throughs all = Inr ms'" "ms = m # ms'"
      by (auto simp: collect_adopted_Cons simp del: collect_adopted.simps split: sum.splits if_splits)
    with Cons.IH False show ?thesis by auto
  qed
qed simp

lemma collect_adopted_scoped:
  "collect_adopted live excluded tlabel throughs all = Inr ms \<Longrightarrow> m \<in> set all \<Longrightarrow>
    \<not> skipped excluded tlabel throughs m \<Longrightarrow> \<exists>b. is_already_scoped live m = Inr b"
proof (induction all arbitrary: ms)
  case (Cons m' all)
  then show ?case
    by (cases "m = m'")
      (auto simp: collect_adopted_Cons simp del: collect_adopted.simps split: sum.splits if_splits)
qed simp

text \<open>The labels of the automatic through tables of the tenant model.\<close>

lemma through_labels_of:
  "foldl (\<lambda>labels f. case mf_through f of None \<Rightarrow> labels
     | Some th \<Rightarrow> if th_auto_created th then insert (through_label th) labels else labels) acc fs =
   acc \<union> {through_label th | f th. f \<in> set fs \<and> mf_through f = Some th \<and> th_auto_created th}"
  by (induction fs arbitrary: acc) (auto split: option.splits)

lemma adopted_modelsE:
  assumes "adopted_models s live apps app_label exclude = Inr ms"
  obtains tlabel throughs all where
    "tenant_model_label s live = Inr tlabel" "tenant_through_labels apps tlabel = Inr throughs"
    "app_models apps app_label = Inr all"
    "ms = filter (\<lambda>m. \<not> skipped (set (ADOPT_EXCLUDE s) \<union> set exclude) tlabel throughs m \<and>
       is_already_scoped live m = Inr False) all"
    "\<And>m. m \<in> set all \<Longrightarrow> \<not> skipped (set (ADOPT_EXCLUDE s) \<union> set exclude) tlabel throughs m \<Longrightarrow>
       \<exists>b. is_already_scoped live m = Inr b"
proof -
  from assms obtain tlabel throughs all where
    *: "tenant_model_label s live = Inr tlabel" "tenant_through_labels apps tlabel = Inr throughs"
      "app_models apps app_label = Inr all"
      "collect_adopted live (set (ADOPT_EXCLUDE s) \<union> set exclude) tlabel throughs all = Inr ms"
    by (auto simp: adopted_models_def Let_def split: sum.splits)
  with that collect_adopted_filter [OF *(4)] collect_adopted_scoped [OF *(4)] show thesis by blast
qed


text \<open>
  C20: the adopted set of an app is, in the registry's order, exactly its concrete models that are
  not excluded by the setting or the operation, are neither the tenant model nor one of its
  automatic through tables, are not on the deny-list and carry no boundary mixin in the live
  registry (BR-RLS-010).
\<close>
theorem adopted_set_is_what_remains:
  assumes "adopted_models s live apps app_label exclude = Inr ms"
    and "app_models apps app_label = Inr all" "tenant_model_label s live = Inr tlabel"
    and "model_at apps (takeWhile (\<lambda>c. c \<noteq> CHR ''.'') tlabel) (drop 1 (dropWhile (\<lambda>c. c \<noteq> CHR ''.'') tlabel)) = Inr tm"
  shows "ms = filter (\<lambda>m. \<not> mm_abstract m \<and> \<not> mm_proxy m \<and>
      model_label m \<notin> set (ADOPT_EXCLUDE s) \<union> set exclude \<and> model_label m \<noteq> tlabel \<and>
      (\<nexists>f th. f \<in> set (mm_get_fields tm) \<and> mf_through f = Some th \<and> th_auto_created th \<and>
        model_label m = through_label th) \<and>
      model_label m \<notin> {''auth.Permission'', ''admin.LogEntry''} \<and> mm_table m \<noteq> ''django_migrations'' \<and>
      (case model_at live (mm_app m) (m_name m) of
         Inl _ \<Rightarrow> True | Inr l \<Rightarrow> \<not> is_tenant_model (model_class.truncate l))) all"
proof -
  from assms(1) obtain throughs where throughs: "tenant_through_labels apps tlabel = Inr throughs"
    and ms: "ms = filter (\<lambda>m. \<not> skipped (set (ADOPT_EXCLUDE s) \<union> set exclude) tlabel throughs m \<and>
       is_already_scoped live m = Inr False) all"
    and no_error: "\<And>m. m \<in> set all \<Longrightarrow>
       \<not> skipped (set (ADOPT_EXCLUDE s) \<union> set exclude) tlabel throughs m \<Longrightarrow> \<exists>b. is_already_scoped live m = Inr b"
    by (rule adopted_modelsE) (use assms(2,3) in auto)
  from throughs assms(4) have set_throughs:
    "throughs = {through_label th | f th. f \<in> set (mm_get_fields tm) \<and> mf_through f = Some th \<and> th_auto_created th}"
    by (auto simp: tenant_through_labels_def split_label_def through_labels_of split: list.splits)
  show ?thesis
    unfolding ms
  proof (rule filter_cong [OF refl], goal_cases)
    case (1 m)
    have scoped: "(is_already_scoped live m = Inr False) \<longleftrightarrow> (case model_at live (mm_app m) (m_name m) of
         Inl _ \<Rightarrow> True | Inr l \<Rightarrow> \<not> is_tenant_model (model_class.truncate l))"
      if "\<not> skipped (set (ADOPT_EXCLUDE s) \<union> set exclude) tlabel throughs m"
      using no_error [OF 1 that] by (auto simp: is_already_scoped_def split: sum.splits if_splits)
    show ?case
    proof (cases "skipped (set (ADOPT_EXCLUDE s) \<union> set exclude) tlabel throughs m")
      case True
      then show ?thesis by (auto simp: skipped_def set_throughs DENIED_MODELS_def DENIED_TABLES_def)
    next
      case False
      with scoped show ?thesis
        by (auto simp: skipped_def set_throughs DENIED_MODELS_def DENIED_TABLES_def)
    qed
  qed
qed

section \<open>A small installation, for the witnesses\<close>

definition key_field :: meta_field where
  "key_field = \<lparr> mf_name = ''id'', mf_column = ''id'', mf_unique = True, mf_primary_key = True,
     mf_db_type = Some ''uuid'', mf_related_pk = None, mf_through = None \<rparr>"

definition plain_model :: "string \<Rightarrow> string \<Rightarrow> string \<Rightarrow> model_meta" where
  "plain_model app name table =
     \<lparr> m_name = name, m_registered = False, m_tenant_path = None, m_fk_field = None, m_fields = [],
       mm_app = app, mm_table = table, mm_abstract = False, mm_proxy = False,
       mm_local_fields = [key_field], mm_get_fields = [key_field],
       mm_get_field = (\<lambda>n. if n = ''id'' then Inr key_field else Inl (OtherException ''FieldDoesNotExist'')),
       mm_pk = key_field, mm_unique_together = [], mm_constraints = [] \<rparr>"

definition club_class :: model_meta where
  "club_class = plain_model ''tenants'' ''Club'' ''tenants_club''"

definition member_class :: model_meta where
  "member_class = plain_model ''tenants'' ''Member'' ''tenants_member''"

definition booking_class :: model_meta where
  "booking_class = (plain_model ''tenants'' ''Booking'' ''tenants_booking'')\<lparr>m_registered := True\<rparr>"

definition tenants_registry :: apps_registry where
  "tenants_registry =
     \<lparr> app_models = (\<lambda>a. if a = ''tenants'' then Inr [club_class, member_class, booking_class]
                          else Inl (LookupError a)),
       model_at = (\<lambda>a n. if a = ''tenants'' \<and> n = ''Club'' then Inr club_class
                          else if a = ''tenants'' \<and> n = ''Member'' then Inr member_class
                          else if a = ''tenants'' \<and> n = ''Booking'' then Inr booking_class
                          else Inl (LookupError n)),
       model_path = (\<lambda>p. if p = ''tenants.Club'' then Inr club_class else Inl (LookupError p)) \<rparr>"

lemma tenants_registry_adopts:
  "adopted_models default_settings tenants_registry tenants_registry ''tenants'' [] = Inr [member_class]"
  by (simp add: adopted_models_def tenants_registry_def tenant_model_label_def default_settings_def
      resolve_tenant_model_setting_def str_or_def model_label_def club_class_def member_class_def
      booking_class_def plain_model_def tenant_through_labels_def split_label_def key_field_def
      ADOPT_EXCLUDE_def is_already_scoped_def is_tenant_model_def DENIED_MODELS_def DENIED_TABLES_def
      path_declared_def model_class.truncate_def Let_def)

lemma tenants_registry_label:
  "tenant_model_label default_settings tenants_registry = Inr ''tenants.Club''"
  by (simp add: tenants_registry_def tenant_model_label_def default_settings_def
      resolve_tenant_model_setting_def str_or_def model_label_def club_class_def plain_model_def)

theorem adopted_set_is_what_remains_witness:
  "[member_class] = filter (\<lambda>m. model_label m \<noteq> ''tenants.Club'' \<and> \<not> m_registered m)
     [club_class, member_class, booking_class]"
  using adopted_set_is_what_remains [OF tenants_registry_adopts _ tenants_registry_label,
      of "[club_class, member_class, booking_class]" club_class]
  by (simp add: tenants_registry_def model_label_def club_class_def member_class_def booking_class_def
      plain_model_def key_field_def is_tenant_model_def path_declared_def model_class.truncate_def)

section \<open>The expected set\<close>

lemma add_unseen_Nil [simp]: "add_unseen models [] = models"
  by (simp add: add_unseen_def)

lemma add_unseen_Cons [simp]: "add_unseen models (m # ms) =
    add_unseen (if model_label m \<in> model_label ` set models then models else models @ [m]) ms"
  by (simp add: add_unseen_def)

lemma add_unseen_spec:
  "distinct (map model_label models) \<Longrightarrow>
    distinct (map model_label (add_unseen models new)) \<and>
    model_label ` set (add_unseen models new) = model_label ` set models \<union> model_label ` set new"
  by (induction new arbitrary: models) auto

lemma collect_refusals_spec:
  "collect_refusals live as' = Inr rs \<Longrightarrow> (a, r) \<in> set rs \<longleftrightarrow> a \<in> set as' \<and> refusal_reason live a = Inr r"
  by (induction as' arbitrary: rs) (auto split: sum.splits)

lemma collect_expected_spec:
  "collect_expected s live models rs = Inr ms \<Longrightarrow> distinct (map model_label models) \<Longrightarrow>
    distinct (map model_label ms) \<and>
    model_label ` set ms = model_label ` set models \<union>
      (\<Union>a \<in> {a. (a, None) \<in> set rs}. \<Union>adopted \<in> {ads. adopted_models s live live a [] = Inr ads}.
         model_label ` set adopted)"
proof (induction s live models rs rule: collect_expected.induct)
  case (2 s live models a refusal rest)
  show ?case
  proof (cases refusal)
    case (Some r)
    with 2 show ?thesis by auto
  next
    case None
    with "2.prems"(1) obtain ads where ads: "adopted_models s live live a [] = Inr ads"
      and rest: "collect_expected s live (add_unseen models ads) rest = Inr ms"
      by (auto split: sum.splits)
    note u = add_unseen_spec [OF "2.prems"(2), of ads]
    from None "2.IH"(2) [OF _ ads rest] u have
      "distinct (map model_label ms)"
      "model_label ` set ms = model_label ` set (add_unseen models ads) \<union>
        (\<Union>a \<in> {a. (a, None) \<in> set rest}. \<Union>adopted \<in> {ads. adopted_models s live live a [] = Inr ads}.
           model_label ` set adopted)"
      by auto
    with u None ads show ?thesis by auto
  qed
qed simp

text \<open>
  the set the checks and the deprovision command read names each table once, and covers, over
  every app of \<open>BOUNDARY_TENANT_APPS\<close> that is not refused, exactly the models adoption derives for
  it from the live registry; a refused app contributes none.
\<close>
theorem expected_models_cover_each_app_once:
  assumes "expected_adopted_models s live = Inr ms"
  shows "distinct (map model_label ms) \<and>
    model_label ` set ms = {model_label m | m a adopted. a \<in> set (TENANT_APPS s) \<and>
      refusal_reason live a = Inr None \<and> adopted_models s live live a [] = Inr adopted \<and> m \<in> set adopted}"
proof -
  from assms obtain rs where rs: "collect_refusals live (TENANT_APPS s) = Inr rs"
    and ms: "collect_expected s live [] rs = Inr ms"
    by (auto simp: expected_adopted_models_def expected_adopted_apps_def split: sum.splits)
  from collect_expected_spec [OF ms] show ?thesis by (auto simp: collect_refusals_spec [OF rs])
qed

definition adopting_settings :: django_settings where
  "adopting_settings = default_settings\<lparr>BOUNDARY_TENANT_APPS := Some [''sessions'', ''tenants'']\<rparr>"

lemma adopting_settings_adopts:
  "adopted_models adopting_settings tenants_registry tenants_registry ''tenants'' [] = Inr [member_class]"
  using tenants_registry_adopts
  by (simp add: adopting_settings_def adopted_models_def tenant_model_label_def ADOPT_EXCLUDE_def
      resolve_tenant_model_setting_def)

lemma adopting_settings_expects:
  "expected_adopted_models adopting_settings tenants_registry = Inr [member_class]"
  using adopting_settings_adopts
  by (simp add: expected_adopted_models_def expected_adopted_apps_def adopting_settings_def TENANT_APPS_def
      refusal_reason_def DENIED_APPS_def tenants_registry_def)

theorem expected_models_cover_each_app_once_witness:
  "model_label ` set [member_class] = {model_label m | m a adopted. a \<in> {''sessions'', ''tenants''} \<and>
      refusal_reason tenants_registry a = Inr None \<and>
      adopted_models adopting_settings tenants_registry tenants_registry a [] = Inr adopted \<and> m \<in> set adopted}"
  using expected_models_cover_each_app_once [OF adopting_settings_expects]
  by (simp add: TENANT_APPS_def adopting_settings_def)

end
