(* ===== verification/Commands.thy ===== *)
theory Commands
  imports Apps Adoption Routing
begin

text \<open>
  The management commands (\<open>src/boundary/management/commands/\<close>): provisioning and removing a tenant,
  and running another command for one tenant or for every active one. The ORM, the other command,
  the hooks and the operator are arguments. A command's output is its result: a constructor for each
  kind of line, carrying what the line names.
\<close>

section \<open>Finding the tenant\<close>

text \<open>\<open>_resolve_tenant\<close> of \<open>boundary_run\<close> and \<open>boundary_deprovision\<close>: the primary key, then the slug.\<close>

definition resolve_identifier :: "env \<Rightarrow> string \<Rightarrow> tenant comp" where
  "resolve_identifier E identifier =
     seqc (checked_model E)
       (bindc (except_when (\<lambda>e. is_does_not_exist e \<or> is_value_error e \<or> is_type_error e)
                 (bindc (fetch_tenant E (ByPk (PStr identifier))) (\<lambda>t. ret (Some t)))
                 (ret None)) (\<lambda>found.
          case found of
            Some t \<Rightarrow> ret t
          | None \<Rightarrow>
              except_when is_does_not_exist
                (fetch_tenant E (ByField ''slug'' identifier))
                (raise (CommandError (''Tenant not found: '' @ identifier)))))"

text \<open>With UUID keys the look-up by key rejects a slug with \<open>ValidationError\<close>, and the slug is never tried.\<close>

lemma uuid_key_hides_slug:
  assumes "resolve_tenant_model_setting (conf E) = Inr path"
    and "tenant_get E (trace w) (ByPk (PStr identifier)) = Inl (ValidationError errors)"
  shows "fst (resolve_identifier E identifier w) = Inl (ValidationError errors)"
  using assms
  by (simp add: resolve_identifier_def checked_model_def except_when_def fetch_tenant_def pyc_defs)

section \<open>boundary\_run\<close>

type_synonym command_line = "string \<times> string list"

definition boundary_run :: "env \<Rightarrow> (command_line \<Rightarrow> unit comp) \<Rightarrow> string \<Rightarrow> command_line \<Rightarrow> unit comp" where
  "boundary_run E call_command identifier command =
     bindc (resolve_identifier E identifier) (\<lambda>tenant.
       tc_using E (Some tenant) ''default'' (call_command command))"

section \<open>boundary\_run\_all\<close>

text \<open>A result dictionary: the tenant as the line names it, and the error for a failure.\<close>

datatype run_result =
    RunOk pyval
  | RunNotFound pyval
  | RunFailed pyval exn

datatype run_line = NoTenants | OkLine run_result | FailLine run_result | JsonLine run_result

text \<open>What the command asks of the tenant table: \<open>filter(is_active=True)\<close>, a region, keys to leave out.\<close>

record tenant_query =
  tq_filters :: "(string \<times> pyval) list"
  tq_exclude_pks :: "string list option"

record run_all_options =
  ra_region :: "string option"
  ra_exclude :: "string list"
  ra_parallel :: int
  ra_json :: bool

definition tenants_to_run :: "env \<Rightarrow> run_all_options \<Rightarrow> tenant_query" where
  "tenants_to_run E opts =
     (let filters = [(''is_active'', PBool True)];
          filters = (case ra_region opts of
                       None \<Rightarrow> filters
                     | Some r \<Rightarrow> if r = [] then filters
                                 else filters @ [(REGION_FIELD (conf E), PStr r)])
      in \<lparr> tq_filters = filters,
           tq_exclude_pks = (if ra_exclude opts = [] then None else Some (ra_exclude opts)) \<rparr>)"

definition run_label :: "tenant \<Rightarrow> pyval \<Rightarrow> pyval" where
  "run_label t pk = (if py_hasattr t ''slug'' then py_getattr t ''slug'' else PStr (py_str pk))"

text \<open>The command inside the tenant's context, an \<open>Exception\<close> of it caught; \<open>sys.exit\<close> in it is none.\<close>

definition run_in_context :: "env \<Rightarrow> (command_line \<Rightarrow> unit comp) \<Rightarrow> command_line \<Rightarrow> tenant \<Rightarrow> pyval \<Rightarrow> run_result comp" where
  "run_in_context E call_command command t label =
     try_except
       (bindc (tc_using E (Some t) ''default'' (call_command command)) (\<lambda>_. ret (RunOk label)))
       (\<lambda>e. ret (RunFailed label e))"

text \<open>One iteration of \<open>_run_sequential\<close>; the same steps are \<open>_run_for_tenant\<close> in a worker process.\<close>

definition run_one :: "env \<Rightarrow> (command_line \<Rightarrow> unit comp) \<Rightarrow> command_line \<Rightarrow> pyval \<Rightarrow> run_result comp" where
  "run_one E call_command command pk =
     bindc (except_when is_does_not_exist
              (bindc (fetch_tenant E (ByPk pk)) (\<lambda>t. ret (Some t)))
              (ret None)) (\<lambda>found.
       case found of
         None \<Rightarrow> ret (RunNotFound (PStr (py_str pk)))
       | Some t \<Rightarrow> run_in_context E call_command command t (run_label t pk))"

primrec run_each :: "env \<Rightarrow> (command_line \<Rightarrow> unit comp) \<Rightarrow> command_line \<Rightarrow> pyval list \<Rightarrow> run_result list comp" where
  "run_each E call_command command [] = ret []"
| "run_each E call_command command (pk # pks) =
     bindc (run_one E call_command command pk) (\<lambda>r.
       bindc (run_each E call_command command pks) (\<lambda>rs. ret (r # rs)))"

definition run_sequential :: "env \<Rightarrow> (command_line \<Rightarrow> unit comp) \<Rightarrow> command_line \<Rightarrow> pyval list \<Rightarrow> run_result list comp" where
  "run_sequential E call_command command pks =
     seqc (checked_model E) (run_each E call_command command pks)"

definition run_for_tenant :: "env \<Rightarrow> (command_line \<Rightarrow> unit comp) \<Rightarrow> command_line \<Rightarrow> pyval \<Rightarrow> run_result comp" where
  "run_for_tenant E call_command command pk =
     seqc (checked_model E) (run_one E call_command command pk)"

text \<open>
  \<open>_run_parallel\<close>: \<open>starmap\<close> returns the workers' results in the order of the keys, or the first
  exception among them. \<open>start\<close> gives the state in which the worker for the n-th key starts. A pool
  worker hands back \<open>Exception\<close>s only: one that leaves by \<open>SystemExit\<close> is gone without an answer, and
  \<open>starmap\<close> waits for it for ever, which is \<open>None\<close>.
\<close>

fun first_error :: "(exn + 'a) list \<Rightarrow> exn + 'a list" where
  "first_error [] = Inr []"
| "first_error (Inl e # rs) = Inl e"
| "first_error (Inr x # rs) = map_sum id (\<lambda>xs. x # xs) (first_error rs)"

fun worker_gone :: "exn + 'a \<Rightarrow> bool" where
  "worker_gone (Inl e) \<longleftrightarrow> \<not> is_exception e"
| "worker_gone (Inr x) \<longleftrightarrow> False"

definition run_parallel ::
  "env \<Rightarrow> (command_line \<Rightarrow> unit comp) \<Rightarrow> command_line \<Rightarrow> (nat \<Rightarrow> world) \<Rightarrow> pyval list \<Rightarrow> run_result list option comp" where
  "run_parallel E call_command command start pks =
     (let outcomes = map (\<lambda>(n, pk). fst (run_for_tenant E call_command command pk (start n))) (zip [0..<length pks] pks)
      in if list_ex worker_gone outcomes then ret None
         else bindc (liftc (first_error outcomes)) (\<lambda>results. ret (Some results)))"

fun run_ok :: "run_result \<Rightarrow> bool" where
  "run_ok (RunOk _) = True"
| "run_ok _ = False"

definition report_line :: "bool \<Rightarrow> run_result \<Rightarrow> run_line" where
  "report_line json r = (if json then JsonLine r else if run_ok r then OkLine r else FailLine r)"

definition boundary_run_all ::
  "env \<Rightarrow> (command_line \<Rightarrow> unit comp) \<Rightarrow> (tenant_query \<Rightarrow> pyval list comp) \<Rightarrow> (nat \<Rightarrow> world)
     \<Rightarrow> run_all_options \<Rightarrow> command_line \<Rightarrow> run_line list option comp" where
  "boundary_run_all E call_command tenant_pks start opts command =
     seqc (checked_model E)
       (bindc (tenant_pks (tenants_to_run E opts)) (\<lambda>pks.
          if pks = [] then ret (Some [NoTenants])
          else bindc (if ra_parallel opts > 1 then run_parallel E call_command command start pks
                      else bindc (run_sequential E call_command command pks) (\<lambda>results. ret (Some results))) (\<lambda>results.
            ret (map_option (map (report_line (ra_json opts))) results))))"

section \<open>Running for every tenant\<close>

text \<open>The look-up by primary key answers with the tenant of that key or with \<open>DoesNotExist\<close>.\<close>

definition answers_by_key :: "env \<Rightarrow> bool" where
  "answers_by_key E \<longleftrightarrow> (\<forall>tr pk. tenant_get E tr (ByPk pk) = Inl ObjectDoesNotExist \<or>
     (\<exists>t. tenant_get E tr (ByPk pk) = Inr t \<and> t_pk t = pk))"

text \<open>
  What the command promises for one key: the result is that of the command run in a state in which
  the tenant of the key is the active one, or says that there is no such tenant. \<open>left_for_key\<close>: that
  run was left by something \<open>except Exception\<close> does not catch.
\<close>

definition ran_for_key ::
  "env \<Rightarrow> (command_line \<Rightarrow> unit comp) \<Rightarrow> command_line \<Rightarrow> pyval \<Rightarrow> run_result \<Rightarrow> bool" where
  "ran_for_key E call_command command pk r \<longleftrightarrow>
     (r = RunNotFound (PStr (py_str pk)) \<and> (\<exists>tr. tenant_get E tr (ByPk pk) = Inl ObjectDoesNotExist)) \<or>
     (\<exists>t w1. t_pk t = pk \<and> runs_as E t ''default'' w1 \<and>
        (case fst (call_command command w1) of
           Inl e \<Rightarrow> is_exception e \<and> r = RunFailed (run_label t pk) e
         | Inr _ \<Rightarrow> r = RunOk (run_label t pk)))"

definition left_for_key ::
  "env \<Rightarrow> (command_line \<Rightarrow> unit comp) \<Rightarrow> command_line \<Rightarrow> pyval \<Rightarrow> exn \<Rightarrow> bool" where
  "left_for_key E call_command command pk e \<longleftrightarrow> \<not> is_exception e \<and>
     (\<exists>t w1. t_pk t = pk \<and> runs_as E t ''default'' w1 \<and> fst (call_command command w1) = Inl e)"

lemma keeps_run_one: "keeps current_tenant (run_one E call_command command pk)"
  unfolding run_one_def run_in_context_def
  by (intro keeps_intros keeps_except_when keeps_fetch_tenant keeps_tc_using)

lemma keeps_run_each: "keeps current_tenant (run_each E call_command command pks)"
  by (induction pks) (auto intro: keeps_intros keeps_run_one)

lemma run_in_context_result:
  "fst (run_in_context E call_command command t l w) =
    (case fst (tc_using E (Some t) ''default'' (call_command command) w) of
       Inl e \<Rightarrow> if is_exception e then Inr (RunFailed l e) else Inl e
     | Inr _ \<Rightarrow> Inr (RunOk l))"
  by (auto simp: run_in_context_def try_except_def bindc_def split: prod.splits sum.splits)

lemma run_one_result:
  assumes "db_ok E" "db_laws E" "WRAP_ATOMIC (conf E)" "answers_by_key E"
  shows "case fst (run_one E call_command command pk w) of
      Inr r \<Rightarrow> ran_for_key E call_command command pk r | Inl e \<Rightarrow> left_for_key E call_command command pk e"
proof -
  from assms(4) consider
      (none) "tenant_get E (trace w) (ByPk pk) = Inl ObjectDoesNotExist"
    | (found) t where "tenant_get E (trace w) (ByPk pk) = Inr t" "t_pk t = pk"
    unfolding answers_by_key_def by blast
  then show ?thesis
  proof cases
    case none
    then have "fst (run_one E call_command command pk w) = Inr (RunNotFound (PStr (py_str pk)))"
      by (simp add: run_one_def except_when_def fetch_tenant_def bindc_def try_except_def)
    with none show ?thesis by (auto simp: ran_for_key_def)
  next
    case found
    let ?w = "w\<lparr>trace := (GetTenant (ByPk pk), True) # trace w\<rparr>"
    obtain w1 where w1: "runs_as E t ''default'' w1"
      "fst (tc_using E (Some t) ''default'' (call_command command) ?w) = fst (call_command command w1)"
      using using_block_state [OF assms(1-3), of t "''default''" ?w, where 'a = unit] by blast
    have "fst (run_one E call_command command pk w)
        = fst (run_in_context E call_command command t (run_label t pk) ?w)"
      using found(1) by (simp add: run_one_def except_when_def fetch_tenant_def bindc_def try_except_def)
    also have "\<dots> = (case fst (call_command command w1) of
        Inl e \<Rightarrow> if is_exception e then Inr (RunFailed (run_label t pk) e) else Inl e
      | Inr _ \<Rightarrow> Inr (RunOk (run_label t pk)))"
      by (simp add: run_in_context_result w1(2))
    finally have res: "fst (run_one E call_command command pk w) = \<dots>" .
    show ?thesis
    proof (cases "fst (call_command command w1)")
      case (Inl e)
      have "ran_for_key E call_command command pk (RunFailed (run_label t pk) e)" if "is_exception e"
        unfolding ran_for_key_def by (intro disjI2 exI [of _ t] exI [of _ w1]) (simp add: Inl that w1(1) found(2))
      moreover have "left_for_key E call_command command pk e" if "\<not> is_exception e"
        unfolding left_for_key_def by (intro conjI that exI [of _ t] exI [of _ w1]) (simp_all add: Inl w1(1) found(2))
      ultimately show ?thesis using res Inl by simp
    next
      case (Inr u)
      have "ran_for_key E call_command command pk (RunOk (run_label t pk))"
        unfolding ran_for_key_def by (intro disjI2 exI [of _ t] exI [of _ w1]) (simp add: Inr w1(1) found(2))
      with res Inr show ?thesis by simp
    qed
  qed
qed

lemma run_each_results:
  assumes "db_ok E" "db_laws E" "WRAP_ATOMIC (conf E)" "answers_by_key E"
  shows "case fst (run_each E call_command command pks w) of
      Inr rs \<Rightarrow> list_all2 (ran_for_key E call_command command) pks rs
    | Inl e \<Rightarrow> \<exists>pk \<in> set pks. left_for_key E call_command command pk e"
proof (induction pks arbitrary: w)
  case (Cons pk pks)
  obtain r w1 where r: "run_one E call_command command pk w = (r, w1)" by (cases "run_one E call_command command pk w")
  note one = run_one_result [OF assms, where call_command = call_command and command = command and pk = pk and w = w,
    unfolded r fst_conv]
  show ?case
  proof (cases r)
    case (Inr x)
    with one Cons.IH [of w1] r show ?thesis by (auto simp: bindc_def split: prod.splits sum.splits)
  qed (use one r in \<open>simp add: bindc_def\<close>)
qed simp

lemma first_error_cases:
  "case first_error rs of Inl e \<Rightarrow> Inl e \<in> set rs | Inr xs \<Rightarrow> list_all2 (\<lambda>r x. r = Inr x) rs xs"
  by (induction rs rule: first_error.induct) (auto split: sum.splits)

lemma run_parallel_results:
  assumes "db_ok E" "db_laws E" "WRAP_ATOMIC (conf E)" "answers_by_key E"
    and "resolve_tenant_model_setting (conf E) = Inr path"
  shows "\<exists>results. run_parallel E call_command command start pks w = (Inr results, w) \<and>
    (case results of
       Some rs \<Rightarrow> list_all2 (ran_for_key E call_command command) pks rs
     | None \<Rightarrow> \<exists>pk \<in> set pks. \<exists>e. left_for_key E call_command command pk e)"
proof -
  let ?work = "\<lambda>(n, pk). fst (run_for_tenant E call_command command pk (start n))"
  let ?jobs = "zip [0..<length pks] pks"
  have "run_for_tenant E call_command command pk = run_one E call_command command pk" for pk
    using assms(5) by (simp add: run_for_tenant_def checked_model_def seqc_def bindc_liftc)
  then have one: "case ?work job of
      Inr r \<Rightarrow> ran_for_key E call_command command (snd job) r
    | Inl e \<Rightarrow> left_for_key E call_command command (snd job) e" for job
    using run_one_result [OF assms(1-4)] by (simp add: case_prod_beta)
  show ?thesis
  proof (cases "list_ex worker_gone (map ?work ?jobs)")
    case True
    then obtain job where job: "job \<in> set ?jobs" "worker_gone (?work job)" by (auto simp: list_ex_iff)
    with one [of job] obtain e where "left_for_key E call_command command (snd job) e" by (cases "?work job") auto
    moreover have "snd job \<in> set pks" using job(1) using set_zip_rightD [of "fst job" "snd job"] by simp
    moreover have "run_parallel E call_command command start pks w = (Inr None, w)"
      using True by (simp add: run_parallel_def Let_def)
    ultimately show ?thesis by auto
  next
    case False
    have ok: "\<exists>x. ?work job = Inr x \<and> ran_for_key E call_command command (snd job) x" if "job \<in> set ?jobs" for job
      using False that one [of job] by (auto simp: list_ex_iff left_for_key_def split: sum.splits)
    with first_error_cases [of "map ?work ?jobs"] obtain xs where xs: "first_error (map ?work ?jobs) = Inr xs"
      "list_all2 (\<lambda>r x. r = Inr x) (map ?work ?jobs) xs"
      by (cases "first_error (map ?work ?jobs)") fastforce+
    from xs(2) have "list_all2 (\<lambda>job x. ?work job = Inr x) ?jobs xs" by (simp add: list_all2_map1)
    then have "list_all2 (\<lambda>job x. ran_for_key E call_command command (snd job) x) ?jobs xs"
      by (rule list.rel_mono_strong) (use ok in fastforce)
    then have "list_all2 (ran_for_key E call_command command) (map snd ?jobs) xs" by (simp only: list_all2_map1)
    then have "list_all2 (ran_for_key E call_command command) pks xs" by simp
    with False xs(1) show ?thesis by (simp add: run_parallel_def Let_def bindc_liftc)
  qed
qed

text \<open>
  C23: what \<open>boundary_run_all\<close> does, sequential or in parallel, on a database without failures, with
  \<open>BOUNDARY_WRAP_ATOMIC\<close> on and a configured tenant model, once the keys are read: one line per key
  in the order of the keys, each for the result of the command run with the tenant of that key active
  (session variable set, on every PostgreSQL alias the tenant reaches) or saying that the tenant is gone,
  an \<open>Exception\<close> of the command being a failure line and no more. Only a command that leaves for some
  tenant by what is no \<open>Exception\<close> (\<open>sys.exit\<close>, an interrupt) ends it otherwise: sequentially that
  leaves the command, in parallel the command never returns. The active tenant is the one before.
\<close>
theorem run_all_runs_each_tenant:
  assumes "db_ok E" "db_laws E" "WRAP_ATOMIC (conf E)" "answers_by_key E"
    and "resolve_tenant_model_setting (conf E) = Inr path"
    and "tenant_pks (tenants_to_run E opts) w = (Inr pks, w0)"
  shows "(case fst (boundary_run_all E call_command tenant_pks start opts command w) of
      Inr (Some printed) \<Rightarrow> if pks = [] then printed = [NoTenants]
        else \<exists>rs. printed = map (report_line (ra_json opts)) rs \<and> list_all2 (ran_for_key E call_command command) pks rs
    | Inr None \<Rightarrow> ra_parallel opts > 1 \<and> (\<exists>pk \<in> set pks. \<exists>e. left_for_key E call_command command pk e)
    | Inl e \<Rightarrow> ra_parallel opts \<le> 1 \<and> (\<exists>pk \<in> set pks. left_for_key E call_command command pk e)) \<and>
    current_tenant (snd (boundary_run_all E call_command tenant_pks start opts command w)) = current_tenant w0"
proof -
  have model: "seqc (checked_model E) m = m" for m :: "'b comp"
    using assms(5) by (simp add: checked_model_def seqc_def bindc_liftc fun_eq_iff)
  show ?thesis
  proof (cases "pks \<noteq> [] \<and> ra_parallel opts > 1")
    case True
    from run_parallel_results [OF assms(1-5)] obtain results where
      "run_parallel E call_command command start pks w0 = (Inr results, w0)"
      "case results of Some rs \<Rightarrow> list_all2 (ran_for_key E call_command command) pks rs
        | None \<Rightarrow> \<exists>pk \<in> set pks. \<exists>e. left_for_key E call_command command pk e" by blast
    with True show ?thesis
      by (cases results) (auto simp: boundary_run_all_def model bindc_Inr assms(6))
  next
    case False
    have "current_tenant (snd (run_each E call_command command pks w0)) = current_tenant w0"
      by (rule keepsD [OF keeps_run_each])
    with False run_each_results [OF assms(1-4), where call_command = call_command and command = command and pks = pks and w = w0] show ?thesis
      by (auto simp: boundary_run_all_def run_sequential_def model bindc_def assms(6) split: prod.splits sum.splits)
  qed
qed

text \<open>Two clubs and a key nobody has; a command that fails for every tenant but the second.\<close>

definition two_clubs :: env where
  "two_clubs = replay_env default_settings (\<lambda>_. Some ''postgresql'')
     (\<lambda>lk. if lk = ByPk (PInt 1) then Inr (club 1 []) else if lk = ByPk (PInt 2) then Inr (club 2 [])
           else Inl ObjectDoesNotExist)"

definition only_second :: "command_line \<Rightarrow> unit comp" where
  "only_second command =
     bindc tc_get (\<lambda>t. if t = Some (club 2 []) then ret () else raise (CommandError ''not for this tenant''))"

lemma two_clubs_facts:
  "db_ok two_clubs" "db_laws two_clubs" "reads_back two_clubs" "WRAP_ATOMIC (conf two_clubs)"
  "answers_by_key two_clubs" "resolve_tenant_model_setting (conf two_clubs) = Inr ''tenants.Club''"
  by (auto simp: two_clubs_def replay_env_ok replay_env_laws replay_env_reads_back answers_by_key_def
      conf_defs default_settings_def resolve_tenant_model_setting_def str_or_def)

text \<open>A command that only the second club may run, and one that exits for the first.\<close>

definition exits_for_first :: "command_line \<Rightarrow> unit comp" where
  "exits_for_first command =
     bindc tc_get (\<lambda>t. if t = Some (club 1 []) then raise (SystemExit 1) else only_second command)"

definition all_of_them :: run_all_options where
  "all_of_them = \<lparr> ra_region = None, ra_exclude = [], ra_parallel = 1, ra_json = False \<rparr>"

theorem run_all_runs_each_tenant_witness:
  "\<exists>rs. fst (boundary_run_all two_clubs only_second (\<lambda>q. ret [PInt 1, PInt 7, PInt 2]) (\<lambda>_. fresh_world) all_of_them
       (''flush'', []) fresh_world) = Inr (Some (map (report_line False) rs)) \<and>
     list_all2 (ran_for_key two_clubs only_second (''flush'', [])) [PInt 1, PInt 7, PInt 2] rs \<and> length rs = 3"
proof -
  let ?out = "fst (boundary_run_all two_clubs only_second (\<lambda>q. ret [PInt 1, PInt 7, PInt 2]) (\<lambda>_. fresh_world) all_of_them
       (''flush'', []) fresh_world)"
  have tame: "\<not> left_for_key two_clubs only_second (''flush'', []) pk e" for pk e
    by (auto simp: left_for_key_def only_second_def tc_get_def bindc_def split: if_splits)
  note all = run_all_runs_each_tenant [OF two_clubs_facts(1,2,4,5,6), where tenant_pks = "\<lambda>q. ret [PInt 1, PInt 7, PInt 2]"
      and opts = all_of_them and w = fresh_world and pks = "[PInt 1, PInt 7, PInt 2]" and ?w0.0 = fresh_world
      and call_command = only_second and start = "\<lambda>_. fresh_world" and command = "(''flush'', [])", OF ret_apply,
      THEN conjunct1]
  obtain printed rs where out: "?out = Inr (Some printed)" "printed = map (report_line False) rs"
    "list_all2 (ran_for_key two_clubs only_second (''flush'', [])) [PInt 1, PInt 7, PInt 2] rs"
    using all tame by (auto simp: all_of_them_def split: sum.splits option.splits)
  moreover have "length rs = 3" using list_all2_lengthD [OF out(3)] by simp
  ultimately show ?thesis by blast
qed

lemma exit_stops_the_run:
  "fst (boundary_run_all two_clubs exits_for_first (\<lambda>q. ret [PInt 1, PInt 2]) (\<lambda>_. fresh_world) all_of_them
     (''migrate'', [''--check'']) fresh_world) = Inl (SystemExit 1)"
proof -
  let ?w = "fresh_world\<lparr>trace := [(GetTenant (ByPk (PInt 1)), True)]\<rparr>"
  obtain w1 where w1: "runs_as two_clubs (club 1 []) ''default'' w1"
    "fst (tc_using two_clubs (Some (club 1 [])) ''default'' (exits_for_first (''migrate'', [''--check''])) ?w)
      = fst (exits_for_first (''migrate'', [''--check'']) w1)"
    using using_block_state [OF two_clubs_facts(1,2,4), of "club 1 []" "''default''" ?w, where 'a = unit] by blast
  have "current_tenant w1 = Some (club 1 [])" using w1(1) by (simp add: runs_as_def)
  then have "fst (run_in_context two_clubs exits_for_first (''migrate'', [''--check'']) (club 1 []) l ?w) = Inl (SystemExit 1)" for l
    unfolding run_in_context_result w1(2) by (simp add: exits_for_first_def tc_get_def bindc_def)
  then have "fst (run_one two_clubs exits_for_first (''migrate'', [''--check'']) (PInt 1) fresh_world) = Inl (SystemExit 1)"
    by (simp add: run_one_def except_when_def fetch_tenant_def try_except_def bindc_def two_clubs_def)
  then show ?thesis
    by (auto simp: boundary_run_all_def run_sequential_def all_of_them_def checked_model_def seqc_def bindc_liftc
        two_clubs_facts(6) bindc_def split: prod.splits sum.splits)
qed

text \<open>\<open>boundary_run\<close>: the command runs as the tenant found, or the look-up's error is raised and it does not run.\<close>

lemma boundary_run_as_tenant:
  assumes "db_ok E" "db_laws E" "WRAP_ATOMIC (conf E)"
  shows "case resolve_identifier E identifier w of
      (Inl e, w') \<Rightarrow> boundary_run E call_command identifier command w = (Inl e, w')
    | (Inr t, w') \<Rightarrow> \<exists>w1. runs_as E t ''default'' w1 \<and>
        fst (boundary_run E call_command identifier command w) = fst (call_command command w1)"
proof (cases "resolve_identifier E identifier w")
  case (Pair r w')
  show ?thesis
  proof (cases r)
    case (Inr t)
    obtain w1 where "runs_as E t ''default'' w1"
      "fst (tc_using E (Some t) ''default'' (call_command command) w') = fst (call_command command w1)"
      using using_block_state [OF assms, of t "''default''" w', where 'a = unit] by blast
    then show ?thesis using Pair Inr by (auto simp: boundary_run_def bindc_Inr)
  qed (use Pair in \<open>simp add: boundary_run_def bindc_Inl\<close>)
qed

interpretation run_scope: scope current_tenant "\<lambda>body. boundary_run E (\<lambda>_. body) ident command"
  for E ident command
  by unfold_locales
    (auto simp: boundary_run_def resolve_identifier_def checked_model_def
      intro!: keeps_intros keeps_except_when keeps_fetch_tenant keeps_tc_using)

section \<open>boundary\_provision\<close>

text \<open>
  \<open>json_loads\<close>: the decoded \<open>--extra-fields\<close>, \<open>None\<close> when it is not JSON. \<open>construct\<close>: Django's
  constructor of the tenant model, \<open>TypeError\<close> for a keyword that names no field. Saving is an effect
  on an alias; \<open>objects.create\<close> saves on the alias the router writes the tenant model to, and with
  no context of its own the command leaves that to the router.
\<close>

record provision_options =
  pv_name :: string
  pv_slug :: string
  pv_region :: string
  pv_extra_fields :: string

record provision_env =
  pv_env :: env
  pv_json_loads :: "string \<Rightarrow> (string, pyval) dict option"
  pv_construct :: "(string, pyval) dict \<Rightarrow> exn + tenant"
  pv_tenant_class :: model_class
  pv_hook :: "string \<Rightarrow> exn + (tenant \<Rightarrow> unit comp)"

definition provision_kwargs :: "provision_options \<Rightarrow> (string, pyval) dict \<Rightarrow> (string, pyval) dict" where
  "provision_kwargs opts extra =
     (let kwargs = [(''name'', PStr (pv_name opts)), (''slug'', PStr (pv_slug opts))];
          kwargs = (if pv_region opts \<noteq> [] then dict_set ''region'' (PStr (pv_region opts)) kwargs else kwargs)
      in dict_update kwargs extra)"

definition save_tenant :: "env \<Rightarrow> string \<Rightarrow> tenant \<Rightarrow> unit comp" where
  "save_tenant E alias t = seqc (performs E (SaveTenant alias (t_attrs t))) (tenant_saved E t)"

definition run_hook :: "(string \<Rightarrow> exn + (tenant \<Rightarrow> unit comp)) \<Rightarrow> string option \<Rightarrow> tenant \<Rightarrow> unit comp" where
  "run_hook import_string path t =
     (case path of
        None \<Rightarrow> ret ()
      | Some p \<Rightarrow> if p = [] then ret () else bindc (liftc (import_string p)) (\<lambda>hook. hook t))"

fun is_region_error :: "exn \<Rightarrow> bool" where
  "is_region_error (RegionNotConfiguredError _) = True"
| "is_region_error _ = False"

lemma region_error_exception [simp]: "is_region_error e \<Longrightarrow> is_exception e"
  by (cases e) simp_all

definition place_tenant :: "provision_env \<Rightarrow> provision_options \<Rightarrow> (string, pyval) dict \<Rightarrow> tenant comp" where
  "place_tenant P opts kwargs =
     (let E = pv_env P in
      if pv_region opts \<noteq> [] \<and> REGIONS (conf E) \<noteq> None \<and> REGIONS (conf E) \<noteq> Some []
      then bindc (liftc (pv_construct P kwargs)) (\<lambda>t.
             bindc (except_when is_region_error (require_region E (Some t))
                     (raise (CommandError (''Region is not in BOUNDARY_REGIONS: '' @ pv_region opts)))) (\<lambda>alias.
               seqc (save_tenant E alias t) (ret t)))
      else bindc (liftc (pv_construct P kwargs)) (\<lambda>t.
             bindc (db_for_write E (Some (pv_tenant_class P))) (\<lambda>alias.
               seqc (save_tenant E alias t) (ret t))))"

definition boundary_provision :: "provision_env \<Rightarrow> provision_options \<Rightarrow> pyval comp" where
  "boundary_provision P opts =
     seqc (checked_model (pv_env P))
       (case pv_json_loads P (pv_extra_fields opts) of
          None \<Rightarrow> raise (CommandError ''Invalid JSON in --extra-fields'')
        | Some extra \<Rightarrow>
            bindc (place_tenant P opts (provision_kwargs opts extra)) (\<lambda>t.
              seqc (run_hook (pv_hook P) (POST_PROVISION_HOOK (conf (pv_env P))) t)
                   (ret (t_pk t))))"

section \<open>Where a provisioned tenant lands\<close>

definition saved_aliases :: "history \<Rightarrow> string list" where
  "saved_aliases tr = List.map_filter (\<lambda>(ev, ok). case ev of SaveTenant alias _ \<Rightarrow> Some alias | _ \<Rightarrow> None) tr"

lemma saved_aliases_simps [simp]:
  "saved_aliases [] = []" "saved_aliases ((SaveTenant a x, ok) # tr) = a # saved_aliases tr"
  by (simp_all add: saved_aliases_def List.map_filter_def)

lemma tenant_saved_effect:
  "fst (tenant_saved E t w) = Inr () \<and> trace (snd (tenant_saved E t w)) = trace w"
  by (simp add: tenant_saved_def invalidate_on_save_def cache_invalidate_def Let_def split: option.splits)

lemma save_tenant_run:
  assumes "db_ok E"
  shows "\<exists>w'. save_tenant E alias t w = (Inr (), w') \<and>
    trace w' = (SaveTenant alias (t_attrs t), True) # trace w"
  using tenant_saved_effect [of E t "w\<lparr>trace := (SaveTenant alias (t_attrs t), True) # trace w\<rparr>"]
  by (simp add: save_tenant_def seqc_Inr [OF performs_ok [OF assms]]) (metis prod.collapse)

text \<open>
  C24: With regions configured and \<open>--region\<close> given, \<open>boundary_provision\<close> saves the tenant once, on the
  regional alias the router will send the tenant's own queries to; where the router would fall back to
  \<open>default\<close> it raises \<open>CommandError\<close> instead and saves nothing.
\<close>
theorem provision_places_tenant_where_router_reads:
  assumes "db_ok (pv_env P)" and "REGIONS (conf (pv_env P)) = Some regions" "regions \<noteq> []"
    and "pv_region opts \<noteq> []" and "pv_construct P kwargs = Inr t" and "is_tenant_model m"
  shows "\<exists>alias. fst (route (pv_env P) (Some m) (w\<lparr>current_tenant := Some t, region_override := None\<rparr>)) = Inr alias \<and>
    (case place_tenant P opts kwargs w of
       (Inr t', w') \<Rightarrow> t' = t \<and> alias \<in> set regions \<and> saved_aliases (trace w') = alias # saved_aliases (trace w)
     | (Inl e, w') \<Rightarrow> alias = ''default'' \<and> (\<exists>msg. e = CommandError msg) \<and> w' = w)"
proof -
  let ?E = "pv_env P"
  have place: "place_tenant P opts kwargs =
      bindc (except_when is_region_error (require_region ?E (Some t))
        (raise (CommandError (''Region is not in BOUNDARY_REGIONS: '' @ pv_region opts)))) (\<lambda>alias.
          seqc (save_tenant ?E alias t) (ret t))"
    using assms(2-5) by (simp add: place_tenant_def Let_def bindc_liftc)
  note req = require_region_never_falls_back [of ?E t w]
  show ?thesis
  proof (cases "fst (require_region ?E (Some t) w)")
    case (Inr r)
    with req have req': "require_region ?E (Some t) w = (Inr r, w)" "r \<in> set regions"
      "fst (route ?E (Some m) (w\<lparr>current_tenant := Some t, region_override := None\<rparr>)) = Inr r"
      using assms(2,6) by (auto intro: prod_eqI)
    obtain w' where "save_tenant ?E r t w = (Inr (), w')"
      "trace w' = (SaveTenant r (t_attrs t), True) # trace w"
      using save_tenant_run [OF assms(1)] by blast
    with req' show ?thesis
      by (simp add: place except_when_def try_except_Inr bindc_Inr seqc_Inr)
  next
    case (Inl e)
    with req have r: "require_region ?E (Some t) w = (Inl e, w)" "is_region_error e"
      "fst (route ?E (Some m) (w\<lparr>current_tenant := Some t, region_override := None\<rparr>)) = Inr ''default''"
      using assms(6) by (auto intro: prod_eqI)
    then show ?thesis by (simp add: place except_when_def try_except_Inl bindc_Inl)
  qed
qed

definition provisioning :: provision_env where
  "provisioning = \<lparr> pv_env = pg_env, pv_json_loads = (\<lambda>_. Some [(''region'', PStr ''eu'')]),
     pv_construct = (\<lambda>kw. Inr \<lparr> t_pk = PInt 1, t_attrs = kw \<rparr>),
     pv_tenant_class = \<lparr> m_name = ''Club'', m_registered = False, m_tenant_path = None, m_fk_field = None,
       m_fields = [] \<rparr>,
     pv_hook = (\<lambda>_. Inl (PyImportError ''no hook'')) \<rparr>"

definition club_in :: "string \<Rightarrow> provision_options" where
  "club_in region = \<lparr> pv_name = ''Club'', pv_slug = ''club'', pv_region = region, pv_extra_fields = ''{}'' \<rparr>"

abbreviation kwargs_in :: "string \<Rightarrow> (string, pyval) dict" where
  "kwargs_in region \<equiv> [(''name'', PStr ''Club''), (''slug'', PStr ''club''), (''region'', PStr region)]"

lemma provisioning_simps [simp]:
  "pv_env provisioning = pg_env" "pv_construct provisioning kw = Inr \<lparr> t_pk = PInt 1, t_attrs = kw \<rparr>"
  "pv_region (club_in region) = region" "\<not> is_tenant_model (pv_tenant_class provisioning)"
  by (simp_all add: provisioning_def club_in_def is_tenant_model_def path_declared_def)

theorem provision_places_tenant_where_router_reads_witness:
  "\<exists>alias. (case place_tenant provisioning (club_in ''us'') (kwargs_in ''us'') fresh_world of
     (Inr t', w') \<Rightarrow> alias \<in> {''eu'', ''us''} \<and> saved_aliases (trace w') = [alias]
   | (Inl e, w') \<Rightarrow> alias = ''default'' \<and> (\<exists>msg. e = CommandError msg) \<and> w' = fresh_world)"
  using provision_places_tenant_where_router_reads [of provisioning "[''eu'', ''us'']" "club_in ''us''"
      "kwargs_in ''us''" "\<lparr> t_pk = PInt 1, t_attrs = kwargs_in ''us'' \<rparr>" booking fresh_world]
    has_tenant_column_is_tenant [OF booking_simps(2)]
  by (auto split: prod.splits sum.splits)

text \<open>
  A region given through \<open>--extra-fields\<close> instead of \<open>--region\<close> is written into the tenant row, but
  the row is saved on \<open>default\<close>, although the router then sends the tenant's queries to that region.
\<close>
theorem extra_field_region_lands_on_default:
  assumes "db_ok (pv_env P)" and "REGIONS (conf (pv_env P)) = Some regions"
    and "pv_region opts = []" and "pv_construct P kwargs = Inr t"
    and "configured_region regions (py_getattr t (REGION_FIELD (conf (pv_env P)))) = Some r"
    and "\<not> is_tenant_model (pv_tenant_class P)" "is_tenant_model m" and "region_override w = None"
  shows "\<exists>w'. place_tenant P opts kwargs w = (Inr t, w') \<and>
      saved_aliases (trace w') = ''default'' # saved_aliases (trace w)"
    and "fst (route (pv_env P) (Some m) (w\<lparr>current_tenant := Some t, region_override := None\<rparr>)) = Inr r"
proof -
  let ?E = "pv_env P"
  have "route ?E (Some (pv_tenant_class P)) w = (Inr ''default'', w)"
    using assms(2,6,8) by (simp add: route_def bindc_def)
  moreover obtain w' where "save_tenant ?E ''default'' t w = (Inr (), w')"
    "trace w' = (SaveTenant ''default'' (t_attrs t), True) # trace w"
    using save_tenant_run [OF assms(1)] by blast
  ultimately show "\<exists>w'. place_tenant P opts kwargs w = (Inr t, w') \<and>
      saved_aliases (trace w') = ''default'' # saved_aliases (trace w)"
    using assms(3,4) by (simp add: place_tenant_def Let_def bindc_liftc db_for_write_def bindc_Inr seqc_Inr)
  have "regions \<noteq> []" using assms(5) by (auto simp: configured_region_Some)
  with assms(2,5) have "fst (require_region ?E (Some t) w) = Inr r" by (simp add: require_region_run)
  with require_region_never_falls_back [of ?E t w] assms(7)
  show "fst (route ?E (Some m) (w\<lparr>current_tenant := Some t, region_override := None\<rparr>)) = Inr r" by simp
qed

theorem extra_field_region_lands_on_default_witness:
  "\<exists>w'. boundary_provision provisioning (club_in []) fresh_world = (Inr (PInt 1), w') \<and>
      saved_aliases (trace w') = [''default'']"
proof -
  have "provision_kwargs (club_in []) [(''region'', PStr ''eu'')] = kwargs_in ''eu''"
    by (simp add: provision_kwargs_def club_in_def dict_update_def)
  moreover obtain w' where "place_tenant provisioning (club_in []) (kwargs_in ''eu'') fresh_world
      = (Inr \<lparr> t_pk = PInt 1, t_attrs = kwargs_in ''eu'' \<rparr>, w')" "saved_aliases (trace w') = [''default'']"
    using extra_field_region_lands_on_default(1) [of provisioning "[''eu'', ''us'']" "club_in []" "kwargs_in ''eu''"
        "\<lparr> t_pk = PInt 1, t_attrs = kwargs_in ''eu'' \<rparr>" "''eu''" booking fresh_world]
      has_tenant_column_is_tenant [OF booking_simps(2)]
    by (auto simp: py_getattr_def configured_region_def)
  ultimately show ?thesis
    by (simp add: boundary_provision_def checked_model_def bindc_liftc seqc_def bindc_Inr)
      (simp add: provisioning_def run_hook_def conf_defs regional_settings_def default_settings_def
        resolve_tenant_model_setting_def str_or_def club_in_def bindc_Inr)
qed

end
