(* ===== verification/Deprovision.thy ===== *)
theory Deprovision
  imports Commands
begin

text \<open>
  Removing a tenant (\<open>src/boundary/management/commands/boundary_deprovision.py\<close>): counting, exporting
  and deleting the rows of scoped models through the ORM and of adopted tables by raw SQL inside
  \<open>admin_bypass\<close>, then the tenant itself. The rows a statement matches are a function of the history,
  so what PostgreSQL's policies hide from it is a hypothesis over that function (\<open>rls_rows\<close>). What the
  operator types and the hook are arguments.
\<close>

section \<open>The command's surroundings\<close>

text \<open>
  A row is its columns (for an ORM object, its \<open>attname\<close>s) with their values. \<open>dp_models\<close>:
  \<open>apps.get_models()\<close>. \<open>dp_rows tr alias table column value\<close>: the rows a statement issued now would match.
  \<open>dp_attnames\<close>: the \<open>attname\<close>s among \<open>get_fields()\<close>; \<open>dp_pk_attname\<close>: that of the primary key.
\<close>

type_synonym row = "(string, pyval) dict"

record deprovision_env =
  dp_env :: env
  dp_live :: apps_registry
  dp_models :: "model_meta list"
  dp_rows :: "history \<Rightarrow> string \<Rightarrow> string \<Rightarrow> string \<Rightarrow> pyval \<Rightarrow> row list"
  dp_attnames :: "model_meta \<Rightarrow> string list"
  dp_pk_attname :: "model_meta \<Rightarrow> string"
  dp_hook :: "string \<Rightarrow> exn + (tenant \<Rightarrow> unit comp)"

record deprovision_options =
  do_tenant :: string
  do_export :: "string option"
  do_dry_run :: bool
  do_yes :: bool
  do_answer :: string

text \<open>The listing names each table with its count; the last field is the exported file's lines.\<close>

type_synonym listing = "(string \<times> nat) list"

datatype deprovision_outcome =
    DryRun listing
  | Aborted listing
  | Deleted pyval "row list option"

abbreviation class_of :: "model_meta \<Rightarrow> model_class" where
  "class_of m \<equiv> model_class.truncate m"

section \<open>Statements\<close>

definition rows_statement ::
  "deprovision_env \<Rightarrow> row_op \<Rightarrow> string \<Rightarrow> string \<Rightarrow> string \<Rightarrow> pyval \<Rightarrow> row list comp" where
  "rows_statement D op alias table column v =
     bindc (readc (\<lambda>w. dp_rows D (trace w) alias table column v)) (\<lambda>rows.
       seqc (performs (dp_env D) (RowStatement op alias table column v)) (ret rows))"

text \<open>\<open>get_tenant_lookup(model) or "tenant"\<close>\<close>

definition lookup_or_tenant :: "model_meta \<Rightarrow> string" where
  "lookup_or_tenant m =
     (case get_tenant_lookup (class_of m) of None \<Rightarrow> ''tenant'' | Some l \<Rightarrow> if l = [] then ''tenant'' else l)"

definition scoped_models :: "deprovision_env \<Rightarrow> model_meta list" where
  "scoped_models D = filter (\<lambda>m. is_tenant_model (class_of m) \<and> \<not> mm_abstract m) (dp_models D)"

text \<open>\<open>_adopted_models\<close> and \<open>_adopted_table_set\<close>\<close>

definition deprovision_adopted :: "deprovision_env \<Rightarrow> exn + model_meta list" where
  "deprovision_adopted D =
     (case expected_adopted_models (conf (dp_env D)) (dp_live D) of
        Inl e \<Rightarrow> if e = ImproperlyConfigured then Inr [] else Inl e
      | Inr ms \<Rightarrow> Inr ms)"

definition adopted_table_set :: "deprovision_env \<Rightarrow> exn + string set" where
  "adopted_table_set D = map_sum id (\<lambda>ms. mm_table ` set ms) (deprovision_adopted D)"

text \<open>The alias of a statement on an adopted table; the flag is set on the same one.\<close>

definition adopted_connection :: "deprovision_env \<Rightarrow> model_meta \<Rightarrow> bool \<Rightarrow> string comp" where
  "adopted_connection D m write =
     (if write then db_for_write (dp_env D) (Some (class_of m)) else db_for_read (dp_env D) (Some (class_of m)))"

section \<open>Counting\<close>

definition count_scoped_rows :: "deprovision_env \<Rightarrow> tenant \<Rightarrow> model_meta \<Rightarrow> nat comp" where
  "count_scoped_rows D t m =
     bindc (db_for_read (dp_env D) (Some (class_of m))) (\<lambda>alias.
       bindc (rows_statement D CountRows alias (mm_table m) (lookup_or_tenant m) (t_pk t)) (\<lambda>rows.
         ret (length rows)))"

definition count_adopted_rows :: "deprovision_env \<Rightarrow> tenant \<Rightarrow> model_meta \<Rightarrow> nat comp" where
  "count_adopted_rows D t m =
     bindc (adopted_connection D m True) (\<lambda>alias.
       admin_bypass (dp_env D) alias
         (bindc (rows_statement D CountRows alias (mm_table m) ''tenant_id'' (t_pk t)) (\<lambda>rows.
            ret (length rows))))"

text \<open>A table with no rows for the tenant is left out.\<close>

primrec collect_counts :: "(model_meta \<Rightarrow> nat comp) \<Rightarrow> model_meta list \<Rightarrow> (model_meta \<times> nat) list comp" where
  "collect_counts count [] = ret []"
| "collect_counts count (m # ms) =
     bindc (count m) (\<lambda>n.
       bindc (collect_counts count ms) (\<lambda>rest. ret (if n > 0 then (m, n) # rest else rest)))"

definition collect_affected :: "deprovision_env \<Rightarrow> tenant \<Rightarrow> (model_meta \<times> nat) list comp" where
  "collect_affected D t =
     bindc (collect_counts (count_scoped_rows D t) (scoped_models D)) (\<lambda>scoped.
       bindc (liftc (deprovision_adopted D)) (\<lambda>ms.
         bindc (collect_counts (count_adopted_rows D t) ms) (\<lambda>adopted. ret (scoped @ adopted))))"

section \<open>Exporting\<close>

text \<open>One NDJSON line each: per field as text for an ORM object, per column as it is for an adopted row.\<close>

definition scoped_line :: "deprovision_env \<Rightarrow> model_meta \<Rightarrow> row \<Rightarrow> row" where
  "scoped_line D m obj =
     foldl (\<lambda>line a. dict_set a (case map_of obj a of
                                   None \<Rightarrow> PNone
                                 | Some v \<Rightarrow> if v = PNone then PNone else PStr (py_str v)) line)
       [(''_model'', PStr (model_label m)),
        (''_pk'', PStr (py_str (case map_of obj (dp_pk_attname D m) of None \<Rightarrow> PNone | Some v \<Rightarrow> v)))]
       (dp_attnames D m)"

definition adopted_line :: "model_meta \<Rightarrow> row \<Rightarrow> row" where
  "adopted_line m columns =
     dict_update
       [(''_model'', PStr (model_label m)),
        (''_pk'', PStr (py_str (case map_of columns (mf_column (mm_pk m)) of None \<Rightarrow> PNone | Some v \<Rightarrow> v))),
        (''_adopted'', PBool True)]
       columns"

definition export_scoped_rows :: "deprovision_env \<Rightarrow> tenant \<Rightarrow> model_meta \<Rightarrow> row list comp" where
  "export_scoped_rows D t m =
     bindc (db_for_read (dp_env D) (Some (class_of m))) (\<lambda>alias.
       bindc (rows_statement D ReadRows alias (mm_table m) (lookup_or_tenant m) (t_pk t)) (\<lambda>rows.
         ret (map (scoped_line D m) rows)))"

definition export_adopted_rows :: "deprovision_env \<Rightarrow> tenant \<Rightarrow> model_meta \<Rightarrow> row list comp" where
  "export_adopted_rows D t m =
     bindc (adopted_connection D m False) (\<lambda>alias.
       admin_bypass (dp_env D) alias
         (bindc (rows_statement D ReadRows alias (mm_table m) ''tenant_id'' (t_pk t)) (\<lambda>rows.
            ret (map (adopted_line m) rows))))"

primrec collect_lines :: "(model_meta \<Rightarrow> row list comp) \<Rightarrow> model_meta list \<Rightarrow> row list comp" where
  "collect_lines read [] = ret []"
| "collect_lines read (m # ms) =
     bindc (read m) (\<lambda>lines. bindc (collect_lines read ms) (\<lambda>rest. ret (lines @ rest)))"

definition export_rows :: "deprovision_env \<Rightarrow> tenant \<Rightarrow> row list comp" where
  "export_rows D t =
     bindc (collect_lines (export_scoped_rows D t) (scoped_models D)) (\<lambda>scoped.
       bindc (liftc (deprovision_adopted D)) (\<lambda>ms.
         bindc (collect_lines (export_adopted_rows D t) ms) (\<lambda>adopted. ret (scoped @ adopted))))"

section \<open>Deleting\<close>

definition delete_adopted_rows :: "deprovision_env \<Rightarrow> tenant \<Rightarrow> model_meta \<Rightarrow> unit comp" where
  "delete_adopted_rows D t m =
     bindc (adopted_connection D m True) (\<lambda>alias.
       admin_bypass (dp_env D) alias
         (seqc (rows_statement D DeleteRows alias (mm_table m) ''tenant_id'' (t_pk t)) (ret ())))"

definition delete_scoped_rows :: "deprovision_env \<Rightarrow> tenant \<Rightarrow> model_meta \<Rightarrow> unit comp" where
  "delete_scoped_rows D t m =
     bindc (db_for_write (dp_env D) (Some (class_of m))) (\<lambda>alias.
       seqc (rows_statement D DeleteRows alias (mm_table m) (lookup_or_tenant m) (t_pk t)) (ret ()))"

text \<open>\<open>tenant.delete()\<close>: the row, the \<open>post_delete\<close> receivers, and Django clears the instance's key.\<close>

definition delete_tenant :: "env \<Rightarrow> tenant \<Rightarrow> tenant comp" where
  "delete_tenant E t =
     seqc (performs E (DeleteTenant (t_pk t)))
       (seqc (tenant_deleted E t) (ret (t\<lparr>t_pk := PNone\<rparr>)))"

definition delete_affected :: "deprovision_env \<Rightarrow> tenant \<Rightarrow> string set \<Rightarrow> (model_meta \<times> nat) list \<Rightarrow> unit comp" where
  "delete_affected D t adopted affected =
     for_each affected (\<lambda>(m, _).
       if mm_table m \<in> adopted then delete_adopted_rows D t m else delete_scoped_rows D t m)"

section \<open>The command\<close>

definition describe_model :: "string set \<Rightarrow> model_meta \<Rightarrow> string" where
  "describe_model adopted m =
     (if mm_table m \<in> adopted then model_label m @ '' (adopted table '' @ mm_table m @ '')'' else m_name m)"

definition listing_of :: "string set \<Rightarrow> (model_meta \<times> nat) list \<Rightarrow> listing" where
  "listing_of adopted affected = map (\<lambda>(m, n). (describe_model adopted m, n)) affected"

text \<open>\<open>if options["export"]\<close>: a path was given and is not empty.\<close>

definition export_if_asked :: "deprovision_env \<Rightarrow> deprovision_options \<Rightarrow> tenant \<Rightarrow> row list option comp" where
  "export_if_asked D opts t =
     (if do_export opts = None \<or> do_export opts = Some [] then ret None
      else bindc (export_rows D t) (\<lambda>lines. ret (Some lines)))"

definition remove_tenant ::
  "deprovision_env \<Rightarrow> deprovision_options \<Rightarrow> tenant \<Rightarrow> (model_meta \<times> nat) list \<Rightarrow> deprovision_outcome comp" where
  "remove_tenant D opts t affected =
     bindc (liftc (adopted_table_set D)) (\<lambda>adopted.
       if do_dry_run opts then ret (DryRun (listing_of adopted affected))
       else if \<not> do_yes opts \<and> do_answer opts \<noteq> ''yes'' then ret (Aborted (listing_of adopted affected))
       else bindc (export_if_asked D opts t) (\<lambda>file.
         seqc (delete_affected D t adopted affected)
           (bindc (delete_tenant (dp_env D) t) (\<lambda>t'. ret (Deleted (t_pk t') file)))))"

definition boundary_deprovision :: "deprovision_env \<Rightarrow> deprovision_options \<Rightarrow> deprovision_outcome comp" where
  "boundary_deprovision D opts =
     bindc (resolve_identifier (dp_env D) (do_tenant opts)) (\<lambda>t.
       seqc (run_hook (dp_hook D) (PRE_DEPROVISION_HOOK (conf (dp_env D))) t)
         (bindc (collect_affected D t) (\<lambda>affected. remove_tenant D opts t affected)))"

section \<open>Reasoning over the trace\<close>

text \<open>
  \<open>in_context ct ro\<close>: the active tenant and the region override, which decide where the router sends a
  query. A computation steps with \<open>P\<close> and \<open>R\<close> when it keeps them, every effect it performs satisfies
  \<open>P\<close>, and once it returns it has performed the effects in \<open>R\<close>.
\<close>

definition in_context :: "tenant option \<Rightarrow> string option \<Rightarrow> world \<Rightarrow> bool" where
  "in_context ct ro w \<longleftrightarrow> current_tenant w = ct \<and> region_override w = ro"

definition steps ::
  "tenant option \<Rightarrow> string option \<Rightarrow> (event \<times> bool \<Rightarrow> bool) \<Rightarrow> (event \<times> bool) set \<Rightarrow> 'a comp \<Rightarrow> bool" where
  "steps ct ro P R m \<longleftrightarrow> (\<forall>w. in_context ct ro w \<longrightarrow> in_context ct ro (snd (m w)) \<and>
     (\<exists>es. trace (snd (m w)) = es @ trace w \<and> list_all P es \<and> (\<not> isl (fst (m w)) \<longrightarrow> R \<subseteq> set es)))"

lemma stepsE:
  assumes "steps ct ro P R m" "in_context ct ro w"
  obtains es where "in_context ct ro (snd (m w))" "trace (snd (m w)) = es @ trace w" "list_all P es"
    "\<not> isl (fst (m w)) \<longrightarrow> R \<subseteq> set es"
  using assms unfolding steps_def by blast

lemma stepsI:
  "(\<And>w. in_context ct ro w \<Longrightarrow> in_context ct ro (snd (m w)) \<and>
     (\<exists>es. trace (snd (m w)) = es @ trace w \<and> list_all P es \<and> (\<not> isl (fst (m w)) \<longrightarrow> R \<subseteq> set es)))
   \<Longrightarrow> steps ct ro P R m"
  by (simp add: steps_def)

lemma steps_weaken: "steps ct ro P R m \<Longrightarrow> R' \<subseteq> R \<Longrightarrow> steps ct ro P R' m"
  unfolding steps_def by (meson order_trans)

lemma steps_mono:
  assumes "steps ct ro P R m" and imp: "\<And>e. P e \<Longrightarrow> Q e"
  shows "steps ct ro Q R m"
proof (rule stepsI)
  fix w assume "in_context ct ro w"
  with assms(1) obtain es where es: "in_context ct ro (snd (m w))" "trace (snd (m w)) = es @ trace w"
    "list_all P es" "\<not> isl (fst (m w)) \<longrightarrow> R \<subseteq> set es" by (rule stepsE)
  from es(3) imp have "list_all Q es" by (auto simp: list_all_iff)
  with es show "in_context ct ro (snd (m w)) \<and>
     (\<exists>es. trace (snd (m w)) = es @ trace w \<and> list_all Q es \<and> (\<not> isl (fst (m w)) \<longrightarrow> R \<subseteq> set es))" by blast
qed

lemma steps_quiet:
  assumes "emits P m" "keeps current_tenant m" "keeps region_override m"
  shows "steps ct ro P {} m"
  using assms by (auto simp: steps_def in_context_def emits_def keeps_def)

lemma steps_ret: "steps ct ro P {} (ret x)"
  by (intro steps_quiet emits_intros keeps_intros)

lemma steps_raise: "steps ct ro P R (raise e)"
  by (simp add: steps_def)

lemma steps_liftc: "steps ct ro P {} (liftc r)"
  by (simp add: steps_def)

lemma steps_after:
  assumes "steps ct ro P R1 m" "in_context ct ro w"
    and "in_context ct ro (snd (m w)) \<Longrightarrow> in_context ct ro (snd r) \<and>
      (\<exists>es. trace (snd r) = es @ trace (snd (m w)) \<and> list_all P es \<and>
        (\<not> isl (fst r) \<longrightarrow> \<not> isl (fst (m w)) \<and> R2 \<subseteq> set es))"
  shows "in_context ct ro (snd r) \<and>
    (\<exists>es. trace (snd r) = es @ trace w \<and> list_all P es \<and> (\<not> isl (fst r) \<longrightarrow> R1 \<union> R2 \<subseteq> set es))"
proof -
  from assms(1,2) obtain es where es: "in_context ct ro (snd (m w))" "trace (snd (m w)) = es @ trace w"
    "list_all P es" "\<not> isl (fst (m w)) \<longrightarrow> R1 \<subseteq> set es" by (rule stepsE)
  from assms(3) [OF es(1)] obtain es' where "in_context ct ro (snd r)" "trace (snd r) = es' @ trace (snd (m w))"
    "list_all P es'" "\<not> isl (fst r) \<longrightarrow> \<not> isl (fst (m w)) \<and> R2 \<subseteq> set es'" by blast
  with es show ?thesis by (intro conjI exI [of _ "es' @ es"]) auto
qed

lemma steps_bindc:
  assumes "steps ct ro P R1 m" "\<And>x. steps ct ro P R2 (k x)"
  shows "steps ct ro P (R1 \<union> R2) (bindc m k)"
proof (rule stepsI, rule steps_after [OF assms(1)], assumption)
  fix w assume c: "in_context ct ro (snd (m w))"
  show "in_context ct ro (snd (bindc m k w)) \<and>
    (\<exists>es. trace (snd (bindc m k w)) = es @ trace (snd (m w)) \<and> list_all P es \<and>
      (\<not> isl (fst (bindc m k w)) \<longrightarrow> \<not> isl (fst (m w)) \<and> R2 \<subseteq> set es))"
  proof (cases "m w")
    case (Pair r w')
    with c show ?thesis
      using assms(2) by (cases r) (auto simp: bindc_def steps_def)
  qed
qed

lemma steps_seqc: "steps ct ro P R1 m \<Longrightarrow> steps ct ro P R2 k \<Longrightarrow> steps ct ro P (R1 \<union> R2) (seqc m k)"
  unfolding seqc_def by (rule steps_bindc)

lemma steps_try_finally:
  assumes "steps ct ro P R m" "steps ct ro P {} fin"
  shows "steps ct ro P R (try_finally m fin)"
proof (rule stepsI, rule steps_after [OF assms(1), where ?R2.0 = "{}", simplified], assumption)
  fix w assume c: "in_context ct ro (snd (m w))"
  then obtain es where "in_context ct ro (snd (fin (snd (m w))))"
    "trace (snd (fin (snd (m w)))) = es @ trace (snd (m w))" "list_all P es"
    by (rule stepsE [OF assms(2)])
  then show "in_context ct ro (snd (try_finally m fin w)) \<and>
    (\<exists>es. trace (snd (try_finally m fin w)) = es @ trace (snd (m w)) \<and> list_all P es \<and>
      (\<not> isl (fst (try_finally m fin w)) \<longrightarrow> \<not> isl (fst (m w))))"
    by (auto simp: try_finally_def split: prod.splits sum.splits)
qed

lemma steps_performs:
  assumes "\<And>ok. P (ev, ok)"
  shows "steps ct ro P {(ev, True)} (performs E ev)"
  using assms
  by (auto simp: steps_def in_context_def performs_def perform_def seqc_def bindc_def split: sum.splits)

lemma steps_if: "(b \<Longrightarrow> steps ct ro P R m) \<Longrightarrow> (\<not> b \<Longrightarrow> steps ct ro P R n) \<Longrightarrow> steps ct ro P R (if b then m else n)"
  by simp

text \<open>The effects the context layer has of its own: everything but row statements and tenant writes.\<close>

fun own_effect :: "event \<Rightarrow> bool" where
  "own_effect (RowStatement _ _ _ _ _) = False"
| "own_effect (SaveTenant _ _) = False"
| "own_effect (DeleteTenant _) = False"
| "own_effect (AppEvent _) = False"
| "own_effect _ = True"

definition allows_own :: "(event \<times> bool \<Rightarrow> bool) \<Rightarrow> bool" where
  "allows_own P \<longleftrightarrow> (\<forall>ev ok. own_effect ev \<longrightarrow> P (ev, ok))"

lemma steps_own:
  assumes "allows_own P" "emits (\<lambda>e. own_effect (fst e)) m"
    and "keeps current_tenant m" "keeps region_override m"
  shows "steps ct ro P {} m"
  using steps_mono [OF steps_quiet [OF assms(2-4)], of P ct ro] assms(1)
  unfolding allows_own_def by (metis prod.collapse)

lemma steps_with_cm:
  assumes own: "allows_own P" and body: "steps ct ro P R body"
  shows "steps ct ro P R (with_cm E c body)"
proof (cases c)
  case (Atomic a)
  let ?leave = "\<lambda>w. case body w of (r, w') \<Rightarrow>
      (case performs E (AtomicExit a (isl r)) w' of (Inl e, w'') \<Rightarrow> (Inl e, w'') | (Inr _, w'') \<Rightarrow> (r, w''))"
  have "steps ct ro P (R \<union> {}) ?leave"
    by (rule stepsI, rule steps_after [OF body], assumption)
      (auto simp: performs_def perform_def seqc_def bindc_def in_context_def own [unfolded allows_own_def]
        split: prod.splits sum.splits)
  moreover have "steps ct ro P {} (performs E (AtomicEnter a))"
    by (rule steps_own [OF own]) (auto intro: keeps_intros emits_intros)
  ultimately have "steps ct ro P ({} \<union> (R \<union> {})) (with_cm E c body)"
    unfolding Atomic with_cm_def cm.case by (intro steps_seqc)
  then show ?thesis by simp
qed (simp add: with_cm_def body)

lemma steps_admin_bypass:
  assumes own: "allows_own P" and body: "steps ct ro P R body"
  shows "steps ct ro P R (admin_bypass E u body)"
proof -
  have ann: "steps ct ro P {} (announce_bypass E u msg)" for msg
    unfolding announce_bypass_def
    by (rule steps_own [OF own]) (auto intro!: keeps_intros emits_intros)
  have "steps ct ro P {} (clear_admin_flag E u)"
    unfolding clear_admin_flag_def by (rule steps_own [OF own]) (auto intro!: keeps_intros emits_intros)
  then have fin: "steps ct ro P {} (if \<not> ac then clear_admin_flag E u else ret ())" for ac
    by (simp add: steps_ret)
  have flag: "steps ct ro P {} (performs E (SetConfig u f x))" "steps ct ro P {} (perform E (CurrentSetting u f))" for f x
    by (rule steps_own [OF own]; auto intro!: keeps_intros emits_intros)+
  have inner: "steps ct ro P ({} \<union> R) (seqc (announce_bypass E u msg) (try_finally body
      (if \<not> ac then clear_admin_flag E u else ret ())))" for msg ac
    by (intro steps_seqc ann steps_try_finally body fin)
  have "steps ct ro P ({} \<union> ({} \<union> ({} \<union> R))) (admin_block E u ac body)" for ac
    unfolding admin_block_def by (intro steps_seqc steps_bindc flag steps_if steps_raise inner)
  then have block: "steps ct ro P R (admin_block E u ac body)" for ac by simp
  have quiet: "steps ct ro P {} (ensure_atomic E u)" "steps ct ro P {} (is_postgresql E u)"
    by (rule steps_quiet; auto intro!: keeps_intros emits_intros simp: is_postgresql_def split: option.splits)+
  have depth: "steps ct ro P {} (writec (\<lambda>w. w\<lparr>admin_bypass_depth := d w\<rparr>))" "steps ct ro P {} (readc admin_bypass_depth)" for d
    by (rule steps_quiet; auto intro!: keeps_intros emits_intros keeps_writec)+
  have fallback: "steps ct ro P ({} \<union> R) (seqc (announce_bypass E u msg) body)" for msg
    by (intro steps_seqc ann body)
  have scoped: "steps ct ro P ({} \<union> R) (try_finally (bindc (ensure_atomic E u) (\<lambda>c. with_cm E c (admin_block E u ac body)))
      (writec (\<lambda>w. w\<lparr>admin_bypass_depth := d w\<rparr>)))" for ac d
    by (intro steps_try_finally steps_bindc quiet steps_with_cm [OF own] block depth)
  have "steps ct ro P ({} \<union> ({} \<union> ({} \<union> R))) (bindc (readc admin_bypass_depth) (\<lambda>depth_token.
        seqc (writec (\<lambda>w. w\<lparr>admin_bypass_depth := Some (dict_set u (depth_of (case depth_token of None \<Rightarrow> [] | Some d \<Rightarrow> d) u + 1)
            (case depth_token of None \<Rightarrow> [] | Some d \<Rightarrow> d))\<rparr>))
          (try_finally (bindc (ensure_atomic E u) (\<lambda>c. with_cm E c
              (admin_block E u (0 < depth_of (case depth_token of None \<Rightarrow> [] | Some d \<Rightarrow> d) u) body)))
            (writec (\<lambda>w. w\<lparr>admin_bypass_depth := depth_token\<rparr>)))))"
    by (intro steps_bindc steps_seqc depth scoped)
  then have "steps ct ro P ({} \<union> R) (admin_bypass E u body)"
    unfolding admin_bypass_def Let_def using fallback
    by (intro steps_bindc quiet steps_if) simp_all
  then show ?thesis by simp
qed

text \<open>Where the router sends a query of a model in a given context.\<close>

definition routed :: "env \<Rightarrow> tenant option \<Rightarrow> string option \<Rightarrow> model_class \<Rightarrow> string" where
  "routed E ct ro m =
     (case fst (route E (Some m) (fresh_world\<lparr>current_tenant := ct, region_override := ro\<rparr>)) of
        Inr a \<Rightarrow> a | Inl _ \<Rightarrow> ''default'')"

lemma route_routed:
  assumes "in_context ct ro w"
  shows "fst (route E (Some m) w) = Inr (routed E ct ro m)"
proof -
  let ?w = "fresh_world\<lparr>current_tenant := ct, region_override := ro\<rparr>"
  have "fst (route E (Some m) w) = fst (route E (Some m) ?w)"
    by (rule route_context) (use assms in \<open>simp_all add: in_context_def\<close>)
  moreover obtain a where "fst (route E (Some m) ?w) = Inr a" using route_total by blast
  ultimately show ?thesis by (simp add: routed_def)
qed

lemma steps_route: "steps ct ro P {} (route E m)"
  by (intro steps_quiet keeps_route emits_keeps)

text \<open>A continuation of the router only matters on the alias of the context.\<close>

lemma steps_routed:
  assumes "steps ct ro P R (k (routed E ct ro m))"
  shows "steps ct ro P R (bindc (route E (Some m)) k)"
proof (rule stepsI)
  fix w assume c: "in_context ct ro w"
  obtain w' where w': "route E (Some m) w = (Inr (routed E ct ro m), w')"
    using route_routed [OF c, of E m] by (metis prod.collapse)
  have c': "in_context ct ro w'" and tr: "trace w' = trace w"
    using keepsD [OF keeps_route(1), of E "Some m" w] keepsD [OF keeps_route(2), of E "Some m" w]
      keepsD [OF keeps_route(3), of E "Some m" w] c w'
    by (simp_all add: in_context_def)
  have eq: "bindc (route E (Some m)) k w = k (routed E ct ro m) w'" by (rule bindc_Inr) (rule w')
  obtain es where "in_context ct ro (snd (k (routed E ct ro m) w'))"
    "trace (snd (k (routed E ct ro m) w')) = es @ trace w" "list_all P es"
    "\<not> isl (fst (k (routed E ct ro m) w')) \<longrightarrow> R \<subseteq> set es"
    using stepsE [OF assms c'] unfolding tr by blast
  then show "in_context ct ro (snd (bindc (route E (Some m)) k w)) \<and>
     (\<exists>es. trace (snd (bindc (route E (Some m)) k w)) = es @ trace w \<and> list_all P es \<and>
        (\<not> isl (fst (bindc (route E (Some m)) k w)) \<longrightarrow> R \<subseteq> set es))"
    unfolding eq by blast
qed

section \<open>What each part of the command performs\<close>

lemma steps_rows_statement:
  assumes "\<And>ok. P (RowStatement op a tb c v, ok)"
  shows "steps ct ro P {(RowStatement op a tb c v, True)} (rows_statement D op a tb c v)"
proof -
  have "steps ct ro P ({} \<union> ({(RowStatement op a tb c v, True)} \<union> {})) (rows_statement D op a tb c v)"
    unfolding rows_statement_def
    by (intro steps_bindc steps_seqc steps_performs assms steps_ret steps_quiet keeps_intros emits_intros)
  then show ?thesis by simp
qed

text \<open>The statement with which the command reads, counts or deletes a model's rows.\<close>

definition scoped_statement ::
  "deprovision_env \<Rightarrow> tenant option \<Rightarrow> string option \<Rightarrow> row_op \<Rightarrow> tenant \<Rightarrow> model_meta \<Rightarrow> event" where
  "scoped_statement D ct ro op t m =
     RowStatement op (routed (dp_env D) ct ro (class_of m)) (mm_table m) (lookup_or_tenant m) (t_pk t)"

definition adopted_statement ::
  "deprovision_env \<Rightarrow> tenant option \<Rightarrow> string option \<Rightarrow> row_op \<Rightarrow> tenant \<Rightarrow> model_meta \<Rightarrow> event" where
  "adopted_statement D ct ro op t m =
     RowStatement op (routed (dp_env D) ct ro (class_of m)) (mm_table m) ''tenant_id'' (t_pk t)"

lemma steps_then_ret: "steps ct ro P R m \<Longrightarrow> steps ct ro P R (bindc m (\<lambda>x. ret (f x)))"
  using steps_bindc [of ct ro P R m "{}" "\<lambda>x. ret (f x)"] by (simp add: steps_ret)

lemma steps_then_unit: "steps ct ro P R m \<Longrightarrow> steps ct ro P R (seqc m (ret x))"
  unfolding seqc_def by (rule steps_then_ret)

lemma steps_scoped:
  assumes "\<And>op ok. op \<in> ops \<Longrightarrow> P (scoped_statement D ct ro op t m, ok)"
  shows "CountRows \<in> ops \<Longrightarrow> steps ct ro P {(scoped_statement D ct ro CountRows t m, True)} (count_scoped_rows D t m)"
    and "ReadRows \<in> ops \<Longrightarrow> steps ct ro P {(scoped_statement D ct ro ReadRows t m, True)} (export_scoped_rows D t m)"
    and "DeleteRows \<in> ops \<Longrightarrow> steps ct ro P {(scoped_statement D ct ro DeleteRows t m, True)} (delete_scoped_rows D t m)"
  using assms unfolding count_scoped_rows_def export_scoped_rows_def delete_scoped_rows_def
    db_for_read_def db_for_write_def scoped_statement_def
  by (blast intro: steps_routed steps_then_ret steps_then_unit steps_rows_statement)+

lemma steps_adopted:
  assumes "allows_own P" "\<And>op ok. op \<in> ops \<Longrightarrow> P (adopted_statement D ct ro op t m, ok)"
  shows "CountRows \<in> ops \<Longrightarrow> steps ct ro P {(adopted_statement D ct ro CountRows t m, True)} (count_adopted_rows D t m)"
    and "ReadRows \<in> ops \<Longrightarrow> steps ct ro P {(adopted_statement D ct ro ReadRows t m, True)} (export_adopted_rows D t m)"
    and "DeleteRows \<in> ops \<Longrightarrow> steps ct ro P {(adopted_statement D ct ro DeleteRows t m, True)} (delete_adopted_rows D t m)"
  using assms unfolding count_adopted_rows_def export_adopted_rows_def delete_adopted_rows_def
    adopted_connection_def db_for_read_def db_for_write_def adopted_statement_def if_True if_False
  by (blast intro: steps_routed steps_admin_bypass steps_then_ret steps_then_unit steps_rows_statement)+

lemma steps_collect_counts:
  "(\<And>m. m \<in> set ms \<Longrightarrow> steps ct ro P {} (count m)) \<Longrightarrow> steps ct ro P {} (collect_counts count ms)"
proof (induction ms)
  case (Cons m ms)
  then have "steps ct ro P ({} \<union> {}) (collect_counts count (m # ms))"
    unfolding collect_counts.simps by (intro steps_bindc steps_then_ret) auto
  then show ?case by simp
qed (simp add: steps_ret)

lemma steps_collect_lines:
  "(\<And>m. m \<in> set ms \<Longrightarrow> steps ct ro P {f m} (read m)) \<Longrightarrow> steps ct ro P (f ` set ms) (collect_lines read ms)"
proof (induction ms)
  case (Cons m ms)
  then have "steps ct ro P ({f m} \<union> f ` set ms) (collect_lines read (m # ms))"
    unfolding collect_lines.simps by (intro steps_bindc steps_then_ret) auto
  then show ?case by simp
qed (simp add: steps_ret)

lemma steps_for_each:
  "(\<And>x. x \<in> set xs \<Longrightarrow> steps ct ro P {} (g x)) \<Longrightarrow> steps ct ro P {} (for_each xs g)"
proof (induction xs)
  case (Cons x xs)
  then have "steps ct ro P ({} \<union> {}) (for_each (x # xs) g)"
    unfolding for_each.simps by (intro steps_seqc) auto
  then show ?case by simp
qed (simp add: steps_ret)

lemma steps_delete_tenant:
  assumes "\<And>ok. P (DeleteTenant (t_pk t), ok)"
  shows "steps ct ro P {} (delete_tenant E t)"
proof -
  have "steps ct ro P {} (tenant_deleted E t)"
    by (intro steps_quiet emits_keeps keeps_tenant_signals) auto
  then have "steps ct ro P ({(DeleteTenant (t_pk t), True)} \<union> ({} \<union> {})) (delete_tenant E t)"
    unfolding delete_tenant_def by (intro steps_seqc steps_performs assms steps_ret)
  then show ?thesis by (rule steps_weaken) simp
qed

definition exported ::
  "deprovision_env \<Rightarrow> tenant option \<Rightarrow> string option \<Rightarrow> tenant \<Rightarrow> model_meta list \<Rightarrow> (event \<times> bool) set" where
  "exported D ct ro t ms =
     (\<lambda>m. (scoped_statement D ct ro ReadRows t m, True)) ` set (scoped_models D) \<union>
     (\<lambda>m. (adopted_statement D ct ro ReadRows t m, True)) ` set ms"

lemma steps_export_rows:
  assumes "allows_own P" "\<And>a tb c v ok. P (RowStatement ReadRows a tb c v, ok)" "deprovision_adopted D = Inr ms"
  shows "steps ct ro P (exported D ct ro t ms) (export_rows D t)"
proof -
  have "steps ct ro P {(scoped_statement D ct ro ReadRows t m, True)} (export_scoped_rows D t m)" for m
    using assms(2) by (intro steps_scoped(2) [where ops = "{ReadRows}"]) (auto simp: scoped_statement_def)
  moreover have "steps ct ro P {(adopted_statement D ct ro ReadRows t m, True)} (export_adopted_rows D t m)" for m
    using assms(1,2) by (intro steps_adopted(2) [where ops = "{ReadRows}"]) (auto simp: adopted_statement_def)
  ultimately show ?thesis
    unfolding export_rows_def exported_def assms(3) bindc_liftc sum.case
    by (intro steps_bindc steps_then_ret steps_collect_lines)
qed

lemma steps_export_if_asked:
  assumes "allows_own P" "\<And>a tb c v ok. P (RowStatement ReadRows a tb c v, ok)" "deprovision_adopted D = Inr ms"
    and "do_export opts = Some path" "path \<noteq> []"
  shows "steps ct ro P (exported D ct ro t ms) (export_if_asked D opts t)"
  using steps_export_rows [OF assms(1-3)] assms(4,5) by (simp add: export_if_asked_def steps_then_ret)

lemma steps_collect_affected:
  assumes "allows_own P" "\<And>a tb c v ok. P (RowStatement CountRows a tb c v, ok)"
  shows "steps ct ro P {} (collect_affected D t)"
proof -
  have "steps ct ro P {} (count_scoped_rows D t m)" for m
    using assms(2) by (intro steps_weaken [OF steps_scoped(1) [where ops = "{CountRows}"]]) (auto simp: scoped_statement_def)
  moreover have "steps ct ro P {} (count_adopted_rows D t m)" for m
    using assms by (intro steps_weaken [OF steps_adopted(1) [where ops = "{CountRows}"]]) (auto simp: adopted_statement_def)
  ultimately have "steps ct ro P ({} \<union> ({} \<union> {})) (collect_affected D t)"
    unfolding collect_affected_def by (intro steps_bindc steps_then_ret steps_collect_counts steps_liftc)
  then show ?thesis by simp
qed

lemma steps_delete_affected:
  assumes "allows_own P"
    and "\<And>m ok. m \<in> fst ` set affected \<Longrightarrow> mm_table m \<in> adopted \<Longrightarrow> P (adopted_statement D ct ro DeleteRows t m, ok)"
    and "\<And>m ok. m \<in> fst ` set affected \<Longrightarrow> mm_table m \<notin> adopted \<Longrightarrow> P (scoped_statement D ct ro DeleteRows t m, ok)"
  shows "steps ct ro P {} (delete_affected D t adopted affected)"
  unfolding delete_affected_def
proof (rule steps_for_each)
  fix mn assume "mn \<in> set affected"
  then obtain m n where mn: "mn = (m, n)" "m \<in> fst ` set affected" by (metis fst_conv image_eqI prod.collapse)
  have "steps ct ro P {} (if mm_table m \<in> adopted then delete_adopted_rows D t m else delete_scoped_rows D t m)"
    using assms mn(2)
    by (intro steps_if; intro steps_weaken [OF steps_adopted(3) [where ops = "{DeleteRows}"]]
        steps_weaken [OF steps_scoped(3) [where ops = "{DeleteRows}"]]) auto
  with mn show "steps ct ro P {} (case mn of (m, _) \<Rightarrow>
      if mm_table m \<in> adopted then delete_adopted_rows D t m else delete_scoped_rows D t m)" by simp
qed

section \<open>Nothing is deleted that was not exported\<close>

text \<open>
  A history, newest effect first, in which every deletion of rows comes after a successful read of the
  same rows: same alias, table, column and value.
\<close>

definition read_before :: "(event \<times> bool) set \<Rightarrow> event \<times> bool \<Rightarrow> bool" where
  "read_before es e \<longleftrightarrow> (\<forall>a tb c v. fst e = RowStatement DeleteRows a tb c v \<longrightarrow>
     (RowStatement ReadRows a tb c v, True) \<in> es)"

primrec backed_up :: "history \<Rightarrow> bool" where
  "backed_up [] \<longleftrightarrow> True"
| "backed_up (e # es) \<longleftrightarrow> read_before (set es) e \<and> backed_up es"

lemma read_before_mono: "read_before A e \<Longrightarrow> A \<subseteq> B \<Longrightarrow> read_before B e"
  unfolding read_before_def by blast

lemma read_before_own: "allows_own (read_before A)"
  by (auto simp: allows_own_def read_before_def)

lemma read_before_other [simp]:
  "read_before A (RowStatement ReadRows a tb c v, ok)" "read_before A (RowStatement CountRows a tb c v, ok)"
  "read_before A (DeleteTenant pk, ok)"
  by (simp_all add: read_before_def)

lemma backed_up_after:
  "list_all (read_before A) es \<Longrightarrow> A \<subseteq> set es' \<Longrightarrow> backed_up es' \<Longrightarrow> backed_up (es @ es')"
proof (induction es)
  case (Cons e es)
  then have "read_before (set (es @ es')) e" by (auto intro: read_before_mono)
  with Cons show ?case by simp
qed simp

lemma backed_up_none: "list_all (read_before {}) es \<Longrightarrow> backed_up es"
  using backed_up_after [of "{}" es "[]"] by simp

lemma backed_up_extend: "backed_up es \<Longrightarrow> backed_up es' \<Longrightarrow> backed_up (es @ es')"
  by (induction es) (auto intro: read_before_mono)

lemma bindc_InrE:
  assumes "bindc m k w = (Inr y, w2)"
  obtains x w1 where "m w = (Inr x, w1)" "k x w1 = (Inr y, w2)"
  using assms by (auto simp: bindc_def split: prod.splits sum.splits)

lemma collect_counts_subset:
  "collect_counts count ms w = (Inr found, w') \<Longrightarrow> fst ` set found \<subseteq> set ms"
proof (induction ms arbitrary: w found)
  case (Cons m ms)
  from Cons.prems obtain n w1 rest w2 where "collect_counts count ms w1 = (Inr rest, w2)"
    "ret (if n > 0 then (m, n) # rest else rest) w2 = (Inr found, w')"
    unfolding collect_counts.simps by (elim bindc_InrE)
  with Cons.IH [of w1 rest] show ?case by (auto simp: image_subset_iff split: if_splits)
qed simp

lemma collect_affected_subset:
  assumes "collect_affected D t w = (Inr affected, w')"
  obtains ms where "deprovision_adopted D = Inr ms" "fst ` set affected \<subseteq> set (scoped_models D) \<union> set ms"
proof -
  from assms obtain scoped w1 ms w2 adopted w3 where
    "collect_counts (count_scoped_rows D t) (scoped_models D) w = (Inr scoped, w1)"
    "liftc (deprovision_adopted D) w1 = (Inr ms, w2)"
    "collect_counts (count_adopted_rows D t) ms w2 = (Inr adopted, w3)"
    "ret (scoped @ adopted) w3 = (Inr affected, w')"
    unfolding collect_affected_def by (elim bindc_InrE)
  then have "fst ` set scoped \<subseteq> set (scoped_models D)" "fst ` set adopted \<subseteq> set ms"
    "affected = scoped @ adopted" "deprovision_adopted D = Inr ms"
    by (auto dest: collect_counts_subset simp del: set_map)
  then show ?thesis by (intro that [of ms]) (simp_all add: image_Un le_supI1 le_supI2)
qed

definition backs_up :: "'a comp \<Rightarrow> bool" where
  "backs_up m \<longleftrightarrow> (\<forall>w. \<exists>es. trace (snd (m w)) = es @ trace w \<and> backed_up es)"

lemma backs_up_none: "emits (read_before {}) m \<Longrightarrow> backs_up m"
  unfolding backs_up_def emits_def using backed_up_none by blast

lemma backs_up_bindc:
  assumes "backs_up m" "\<And>w x w'. m w = (Inr x, w') \<Longrightarrow> \<exists>es. trace (snd (k x w')) = es @ trace w' \<and> backed_up es"
  shows "backs_up (bindc m k)"
  unfolding backs_up_def
proof
  fix w
  obtain es where es: "trace (snd (m w)) = es @ trace w" "backed_up es"
    using assms(1) unfolding backs_up_def by blast
  show "\<exists>es. trace (snd (bindc m k w)) = es @ trace w \<and> backed_up es"
  proof (cases "m w")
    case (Pair r w')
    show ?thesis
    proof (cases r)
      case (Inr x)
      with Pair assms(2) obtain es' where "trace (snd (k x w')) = es' @ trace w'" "backed_up es'" by blast
      with es Pair Inr show ?thesis by (intro exI [of _ "es' @ es"]) (simp add: bindc_def backed_up_extend)
    qed (use es Pair in \<open>auto simp: bindc_def\<close>)
  qed
qed

lemma steps_backs_up: "(\<And>ct ro. steps ct ro (read_before {}) {} m) \<Longrightarrow> backs_up m"
  unfolding backs_up_def steps_def in_context_def using backed_up_none by blast

lemma remove_tenant_backs_up:
  assumes "deprovision_adopted D = Inr ms" "fst ` set affected \<subseteq> set (scoped_models D) \<union> set ms"
    and "mm_table ` set (scoped_models D) \<inter> mm_table ` set ms = {}"
    and "do_export opts = Some path" "path \<noteq> []"
  shows "backs_up (remove_tenant D opts t affected)"
  unfolding backs_up_def
proof
  fix w :: world
  let ?ct = "current_tenant w" and ?ro = "region_override w"
  let ?rest = "\<lambda>file. seqc (delete_affected D t (mm_table ` set ms) affected)
      (bindc (delete_tenant (dp_env D) t) (\<lambda>t'. ret (Deleted (t_pk t') file)))"
  let ?R = "exported D ?ct ?ro t ms"
  have c: "in_context ?ct ?ro w" by (simp add: in_context_def)
  have own: "m \<in> set ms \<or> mm_table m \<notin> mm_table ` set ms" "m \<in> set (scoped_models D) \<or> m \<in> set ms"
    if "m \<in> fst ` set affected" for m
    using that assms(2,3) by auto
  have "steps ?ct ?ro (read_before ?R) {} (delete_affected D t (mm_table ` set ms) affected)"
  proof (rule steps_delete_affected [OF read_before_own])
    fix m ok assume m: "m \<in> fst ` set affected"
    show "read_before ?R (adopted_statement D ?ct ?ro DeleteRows t m, ok)" if "mm_table m \<in> mm_table ` set ms"
      using own(1) [OF m] that by (simp add: read_before_def exported_def adopted_statement_def)
    show "read_before ?R (scoped_statement D ?ct ?ro DeleteRows t m, ok)" if "mm_table m \<notin> mm_table ` set ms"
    proof -
      have "m \<in> set (scoped_models D)" using own(2) [OF m] that by auto
      then show ?thesis by (simp add: read_before_def exported_def scoped_statement_def)
    qed
  qed
  then have "steps ?ct ?ro (read_before ?R) ({} \<union> {}) (?rest line)" for line
    by (intro steps_seqc steps_then_ret steps_delete_tenant) simp_all
  then have rest: "steps ?ct ?ro (read_before ?R) {} (?rest line)" for line by simp
  obtain es where es: "in_context ?ct ?ro (snd (export_if_asked D opts t w))"
    "trace (snd (export_if_asked D opts t w)) = es @ trace w" "list_all (read_before {}) es"
    "\<not> isl (fst (export_if_asked D opts t w)) \<longrightarrow> ?R \<subseteq> set es"
    using stepsE [OF steps_export_if_asked [OF read_before_own _ assms(1,4,5)] c] by auto
  have "\<exists>es. trace (snd (bindc (export_if_asked D opts t) ?rest w)) = es @ trace w \<and> backed_up es"
  proof (cases "export_if_asked D opts t w")
    case (Pair r w1)
    show ?thesis
    proof (cases r)
      case (Inl e)
      with Pair es(2) backed_up_none [OF es(3)] show ?thesis by (simp add: bindc_def)
    next
      case (Inr lines)
      with es(1) Pair obtain es' where "trace (snd (?rest lines w1)) = es' @ trace w1"
        "list_all (read_before ?R) es'"
        using stepsE [OF rest [of lines], of w1] by auto
      with es(2,4) Pair Inr backed_up_after [of ?R es' es] backed_up_none [OF es(3)]
      show ?thesis by (intro exI [of _ "es' @ es"]) (simp add: bindc_def)
    qed
  qed
  then show "\<exists>es. trace (snd (remove_tenant D opts t affected w)) = es @ trace w \<and> backed_up es"
    using assms(1) by (simp add: remove_tenant_def adopted_table_set_def bindc_liftc)
qed

lemma emits_except_when: "emits P m \<Longrightarrow> emits P h \<Longrightarrow> emits P (except_when Q m h)"
  unfolding except_when_def by (intro emits_intros)

lemma emits_fetch_tenant: "allows_own P \<Longrightarrow> emits P (fetch_tenant E lk)"
  by (auto simp: emits_def fetch_tenant_def allows_own_def split: sum.splits)

lemma emits_resolve_identifier: "allows_own P \<Longrightarrow> emits P (resolve_identifier E identifier)"
  unfolding resolve_identifier_def checked_model_def
  by (intro emits_intros emits_except_when emits_fetch_tenant emits_keeps keeps_intros)

text \<open>
  C18: With an export asked for, \<open>boundary_deprovision\<close> deletes no row it has not exported: in what it
  adds to the history, however far it gets and whatever fails, every deletion of rows comes after a
  successful read of the same rows (same alias, table, tenant column and tenant). The hook is only
  asked not to delete tenants' rows itself, and scoped and adopted models to have different tables.
\<close>
theorem deprovision_exports_before_deleting:
  assumes "do_export opts = Some path" "path \<noteq> []"
    and "\<forall>t. emits (read_before {}) (run_hook (dp_hook D) (PRE_DEPROVISION_HOOK (conf (dp_env D))) t)"
    and "\<forall>ms. deprovision_adopted D = Inr ms \<longrightarrow>
      mm_table ` set (scoped_models D) \<inter> mm_table ` set ms = {}"
  shows "\<exists>es. trace (snd (boundary_deprovision D opts w)) = es @ trace w \<and> backed_up es"
proof -
  have counting: "backs_up (collect_affected D t)" for t
    by (intro steps_backs_up steps_collect_affected read_before_own) simp
  have "backs_up (boundary_deprovision D opts)"
    unfolding boundary_deprovision_def seqc_def
  proof (intro backs_up_bindc backs_up_none emits_resolve_identifier read_before_own)
    fix t w1
    show "\<exists>es. trace (snd (bindc (run_hook (dp_hook D) (PRE_DEPROVISION_HOOK (conf (dp_env D))) t)
        (\<lambda>_. bindc (collect_affected D t) (remove_tenant D opts t)) w1)) = es @ trace w1 \<and> backed_up es"
    proof (rule backs_up_bindc [unfolded backs_up_def, rule_format])
      show "\<exists>es. trace (snd (run_hook (dp_hook D) (PRE_DEPROVISION_HOOK (conf (dp_env D))) t w')) = es @ trace w' \<and>
          backed_up es" for w'
        using backs_up_none [OF assms(3) [rule_format], of t] unfolding backs_up_def by blast
      show "\<exists>es. trace (snd (bindc (collect_affected D t) (remove_tenant D opts t) w2)) = es @ trace w2 \<and> backed_up es"
        for w2
      proof (rule backs_up_bindc [unfolded backs_up_def, rule_format])
        show "\<exists>es. trace (snd (collect_affected D t w')) = es @ trace w' \<and> backed_up es" for w'
          using counting unfolding backs_up_def by blast
        fix w' affected w3 assume "collect_affected D t w' = (Inr affected, w3)"
        then obtain ms where "deprovision_adopted D = Inr ms"
          "fst ` set affected \<subseteq> set (scoped_models D) \<union> set ms" by (rule collect_affected_subset)
        with assms(1,2,4) have "backs_up (remove_tenant D opts t affected)"
          by (intro remove_tenant_backs_up) auto
        then show "\<exists>es. trace (snd (remove_tenant D opts t affected w3)) = es @ trace w3 \<and> backed_up es"
          unfolding backs_up_def by blast
      qed
    qed
  qed
  then show ?thesis unfolding backs_up_def by blast
qed

section \<open>Without a confirmation nothing is deleted\<close>

definition deletes_nothing :: "event \<times> bool \<Rightarrow> bool" where
  "deletes_nothing e \<longleftrightarrow> (\<forall>a tb c v. fst e \<noteq> RowStatement DeleteRows a tb c v) \<and> (\<forall>pk. fst e \<noteq> DeleteTenant pk)"

lemma steps_emits: "(\<And>ct ro. steps ct ro P {} m) \<Longrightarrow> emits P m"
  unfolding emits_def steps_def in_context_def by blast

text \<open>
  C29: A dry run, and a run without \<open>--yes\<close> whose operator answers anything but \<open>yes\<close>, delete no row and
  no tenant, whatever the database does, and never report a deletion (the hook still runs, and is
  asked not to delete either).
\<close>
theorem unconfirmed_deprovision_deletes_nothing:
  assumes "do_dry_run opts \<or> (\<not> do_yes opts \<and> do_answer opts \<noteq> ''yes'')"
    and "\<forall>t. emits deletes_nothing (run_hook (dp_hook D) (PRE_DEPROVISION_HOOK (conf (dp_env D))) t)"
  shows "emits deletes_nothing (boundary_deprovision D opts) \<and>
    fst (boundary_deprovision D opts w) \<noteq> Inr (Deleted k lines)"
proof
  have own: "allows_own deletes_nothing" by (auto simp: allows_own_def deletes_nothing_def)
  have "emits deletes_nothing (collect_affected D t)" for t
    by (intro steps_emits steps_collect_affected own) (simp add: deletes_nothing_def)
  moreover have stop: "remove_tenant D opts t affected = bindc (liftc (adopted_table_set D)) (\<lambda>adopted.
      ret (if do_dry_run opts then DryRun (listing_of adopted affected) else Aborted (listing_of adopted affected)))"
    for t affected
    using assms(1) by (auto simp: remove_tenant_def intro!: arg_cong [where f = "bindc _"])
  then have "emits deletes_nothing (remove_tenant D opts t affected)" for t affected
    by (simp only: stop) (intro emits_intros emits_keeps keeps_intros)
  ultimately show "emits deletes_nothing (boundary_deprovision D opts)"
    unfolding boundary_deprovision_def using assms(2) own
    by (intro emits_intros emits_resolve_identifier) auto
  have "fst (remove_tenant D opts t affected w') \<noteq> Inr (Deleted k lines)" for t affected w'
    unfolding stop by (auto simp: bindc_def split: sum.splits if_splits)
  then show "fst (boundary_deprovision D opts w) \<noteq> Inr (Deleted k lines)"
    unfolding boundary_deprovision_def seqc_def by (auto simp: bindc_def split: prod.splits sum.splits)
qed

section \<open>No adopted row survives\<close>

text \<open>
  What PostgreSQL does with the policies this package creates: on a table whose RLS is forced, a
  statement for tenant \<open>v\<close> matches nothing unless the admin flag reads \<open>'true'\<close> or the session variable
  reads \<open>v\<close>; otherwise it matches the rows stored, and a deletion leaves none of them. Nothing but the
  application's own code adds rows meanwhile.
\<close>

definition hidden_by_rls :: "env \<Rightarrow> (string \<Rightarrow> bool) \<Rightarrow> history \<Rightarrow> string \<Rightarrow> string \<Rightarrow> pyval \<Rightarrow> bool" where
  "hidden_by_rls E forced tr a tb v \<longleftrightarrow> forced tb \<and> session_var E tr a (ADMIN_FLAG_VAR (conf E)) \<noteq> ''true'' \<and>
     session_var E tr a (DB_SESSION_VAR (conf E)) \<noteq> py_str v"

fun from_app :: "event \<Rightarrow> bool" where
  "from_app (AppEvent _) = True"
| "from_app _ = False"

definition rls_rows ::
  "deprovision_env \<Rightarrow> (string \<Rightarrow> bool) \<Rightarrow> (history \<Rightarrow> string \<Rightarrow> string \<Rightarrow> string \<Rightarrow> pyval \<Rightarrow> row list) \<Rightarrow> bool" where
  "rls_rows D forced stored \<longleftrightarrow>
     (\<forall>tr a tb c v. dp_rows D tr a tb c v =
        (if hidden_by_rls (dp_env D) forced tr a tb v then [] else stored tr a tb c v)) \<and>
     (\<forall>tr a tb c v. \<not> hidden_by_rls (dp_env D) forced tr a tb v \<longrightarrow>
        stored ((RowStatement DeleteRows a tb c v, True) # tr) a tb c v = []) \<and>
     (\<forall>e tr a tb c v. stored tr a tb c v = [] \<and> \<not> from_app (fst e) \<longrightarrow> stored (e # tr) a tb c v = [])"

text \<open>A PostgreSQL \<open>default\<close> on which nothing fails, with the policies in force.\<close>

definition sound_default ::
  "deprovision_env \<Rightarrow> (string \<Rightarrow> bool) \<Rightarrow> (history \<Rightarrow> string \<Rightarrow> string \<Rightarrow> string \<Rightarrow> pyval \<Rightarrow> row list) \<Rightarrow> bool" where
  "sound_default D forced stored \<longleftrightarrow> db_ok (dp_env D) \<and> reads_back (dp_env D) \<and> db_laws (dp_env D) \<and>
     WRAP_ATOMIC (conf (dp_env D)) \<and> db_vendor (dp_env D) ''default'' = Some ''postgresql'' \<and> rls_rows D forced stored"

lemma rls_rowsD:
  assumes "rls_rows D forced stored"
  shows rls_visible: "\<not> hidden_by_rls (dp_env D) forced tr a tb v \<Longrightarrow> dp_rows D tr a tb c v = stored tr a tb c v"
    and rls_hidden: "hidden_by_rls (dp_env D) forced tr a tb v \<Longrightarrow> dp_rows D tr a tb c v = []"
    and rls_deleted: "\<not> hidden_by_rls (dp_env D) forced tr a tb v \<Longrightarrow>
      stored ((RowStatement DeleteRows a tb c v, True) # tr) a tb c v = []"
    and rls_stays: "stored tr a tb c v = [] \<Longrightarrow> \<not> from_app (fst e) \<Longrightarrow> stored (e # tr) a tb c v = []"
  using assms unfolding rls_rows_def by (simp, simp, simp, blast)

lemma stored_stays:
  assumes "rls_rows D forced stored" "list_all (\<lambda>e. \<not> from_app (fst e)) es" "stored tr a tb c v = []"
  shows "stored (es @ tr) a tb c v = []"
  using assms(2)
proof (induction es)
  case (Cons e es)
  then show ?case by (simp add: rls_stays [OF assms(1)])
qed (simp add: assms(3))

lemma bypassed_statement:
  fixes f :: "row list \<Rightarrow> 'x"
  assumes D: "sound_default D forced stored"
  shows "\<exists>es tr1 w'. admin_bypass (dp_env D) ''default'' (bindc (rows_statement D op ''default'' tb c v) (\<lambda>x. ret (f x))) w
      = (Inr (f (stored tr1 ''default'' tb c v)), w') \<and>
    trace w' = es @ (RowStatement op ''default'' tb c v, True) # tr1 \<and>
    list_all (\<lambda>e. \<not> from_app (fst e)) es \<and> \<not> hidden_by_rls (dp_env D) forced tr1 ''default'' tb v"
proof -
  let ?E = "dp_env D" and ?f = "ADMIN_FLAG_VAR (conf (dp_env D))"
  let ?body = "bindc (rows_statement D op ''default'' tb c v) (\<lambda>x. ret (f x))"
  let ?al = "filter (opens ?E w) [''default'']"
  from D have facts: "db_ok ?E" "reads_back ?E" "db_laws ?E" "WRAP_ATOMIC (conf ?E)"
    "db_vendor ?E ''default'' = Some ''postgresql''" "rls_rows D forced stored"
    by (simp_all add: sound_default_def)
  define tr1 where "tr1 = (SendSignal (AdminBypassActivated ?f ''default''), True) # (CurrentSetting ''default'' ?f, True) #
      (SetConfig ''default'' ?f ''true'', True) # enters ?al @ trace w"
  obtain d l where run: "\<forall>body :: 'x comp. admin_bypass ?E ''default'' body w =
    (let w1 = w\<lparr>admin_bypass_depth := Some d, trace := tr1, logs := l\<rparr>;
         r = body w1;
         w2 = (if 0 < entry_depth w ''default'' then snd r
               else (snd r)\<lparr>trace := (SetConfig ''default'' ?f [], True) # trace (snd r)\<rparr>)
     in (fst r, w2\<lparr>trace := exits (isl (fst r)) ?al @ trace w2, admin_bypass_depth := admin_bypass_depth w\<rparr>))"
    using admin_bypass_run [OF facts(1-5), of w, where 'a = 'x] unfolding tr1_def by blast
  have "session_var ?E tr1 ''default'' ?f = ''true''"
    using bypass_entry_var [OF facts(3,5), of "AdminBypassActivated ?f ''default''" ?f w]
    by (simp only: Let_def tr1_def)
  then have seen: "\<not> hidden_by_rls ?E forced tr1 ''default'' tb v" by (simp add: hidden_by_rls_def)
  then have rows: "dp_rows D tr1 ''default'' tb c v = stored tr1 ''default'' tb c v"
    by (rule rls_visible [OF facts(6)])
  have body: "?body (w\<lparr>admin_bypass_depth := Some d, trace := tr1, logs := l\<rparr>) =
      (Inr (f (stored tr1 ''default'' tb c v)),
       w\<lparr>admin_bypass_depth := Some d, trace := (RowStatement op ''default'' tb c v, True) # tr1, logs := l\<rparr>)"
    by (simp add: rows_statement_def bindc_def seqc_def performs_ok [OF facts(1)] rows)
  define es where "es = exits False ?al @ (if 0 < entry_depth w ''default'' then [] else [(SetConfig ''default'' ?f [], True)])"
  have "list_all (\<lambda>e. \<not> from_app (fst e)) es" by (simp add: es_def exits_def)
  moreover have "admin_bypass ?E ''default'' ?body w = (Inr (f (stored tr1 ''default'' tb c v)),
      w\<lparr>trace := es @ (RowStatement op ''default'' tb c v, True) # tr1, logs := l\<rparr>)"
    using run [rule_format, of ?body] by (simp add: Let_def body es_def)
  ultimately show ?thesis using seen by (intro exI conjI) (assumption | simp)+
qed

definition gone ::
  "(history \<Rightarrow> string \<Rightarrow> string \<Rightarrow> string \<Rightarrow> pyval \<Rightarrow> row list) \<Rightarrow> tenant \<Rightarrow> model_meta \<Rightarrow> world \<Rightarrow> bool" where
  "gone stored t m w \<longleftrightarrow> stored (trace w) ''default'' (mm_table m) ''tenant_id'' (t_pk t) = []"

definition quiet_app :: "event \<times> bool \<Rightarrow> bool" where
  "quiet_app e \<longleftrightarrow> \<not> from_app (fst e)"

lemma quiet_app_intros [simp]:
  "allows_own quiet_app" "quiet_app (RowStatement op a tb c v, ok)" "quiet_app (DeleteTenant pk, ok)"
  by (auto simp: allows_own_def quiet_app_def elim!: from_app.elims)

lemma gone_stays:
  assumes "rls_rows D forced stored" "steps ct ro quiet_app R n" "in_context ct ro w" "gone stored t m w"
  shows "gone stored t m (snd (n w))"
proof -
  obtain es where "trace (snd (n w)) = es @ trace w" "list_all quiet_app es"
    using stepsE [OF assms(2,3)] by metis
  with stored_stays [OF assms(1), of es "trace w"] assms(4) show ?thesis
    by (simp add: gone_def quiet_app_def [abs_def])
qed

lemma default_alias:
  assumes "in_context ct None w" "\<not> is_tenant_model (class_of m)"
  shows "bindc (adopted_connection D m b) k w = k ''default'' w"
  using assms by (simp add: adopted_connection_def db_for_write_def db_for_read_def route_def bindc_def in_context_def
      split: option.splits)

lemma count_zero_gone:
  assumes D: "sound_default D forced stored" and c: "in_context ct None w" and m: "\<not> is_tenant_model (class_of m)"
    and run: "count_adopted_rows D t m w = (Inr 0, w')"
  shows "gone stored t m w'"
proof -
  obtain es tr1 w2 where b: "admin_bypass (dp_env D) ''default''
      (bindc (rows_statement D CountRows ''default'' (mm_table m) ''tenant_id'' (t_pk t)) (\<lambda>x. ret (length x))) w
      = (Inr (length (stored tr1 ''default'' (mm_table m) ''tenant_id'' (t_pk t))), w2)"
    "trace w2 = es @ (RowStatement CountRows ''default'' (mm_table m) ''tenant_id'' (t_pk t), True) # tr1"
    "list_all (\<lambda>e. \<not> from_app (fst e)) es"
    using bypassed_statement [OF D, where f = length] by blast
  have rls: "rls_rows D forced stored" using D by (simp add: sound_default_def)
  from run b(1) have "stored tr1 ''default'' (mm_table m) ''tenant_id'' (t_pk t) = []" "w2 = w'"
    by (simp_all add: count_adopted_rows_def default_alias [OF c m])
  with b(2,3) show ?thesis
    by (simp add: gone_def stored_stays [OF rls b(3)] rls_stays [OF rls])
qed

lemma delete_gone:
  assumes D: "sound_default D forced stored" and c: "in_context ct None w" and m: "\<not> is_tenant_model (class_of m)"
  shows "gone stored t m (snd (delete_adopted_rows D t m w))"
proof -
  obtain es tr1 w2 where b: "admin_bypass (dp_env D) ''default''
      (bindc (rows_statement D DeleteRows ''default'' (mm_table m) ''tenant_id'' (t_pk t)) (\<lambda>x. ret ())) w = (Inr (), w2)"
    "trace w2 = es @ (RowStatement DeleteRows ''default'' (mm_table m) ''tenant_id'' (t_pk t), True) # tr1"
    "list_all (\<lambda>e. \<not> from_app (fst e)) es" "\<not> hidden_by_rls (dp_env D) forced tr1 ''default'' (mm_table m) (t_pk t)"
    using bypassed_statement [OF D, where f = "\<lambda>_. ()"] by blast
  have rls: "rls_rows D forced stored" using D by (simp add: sound_default_def)
  from b(1) have "snd (delete_adopted_rows D t m w) = w2"
    by (simp add: delete_adopted_rows_def default_alias [OF c m] seqc_def)
  then show ?thesis
    by (simp add: gone_def b(2) stored_stays [OF rls b(3)] rls_deleted [OF rls b(4)])
qed

lemma steps_quiet_app:
  "steps ct ro quiet_app {} (count_scoped_rows D t m)" "steps ct ro quiet_app {} (count_adopted_rows D t m)"
  "steps ct ro quiet_app {} (delete_scoped_rows D t m)" "steps ct ro quiet_app {} (delete_adopted_rows D t m)"
  "steps ct ro quiet_app {} (export_if_asked D opts t)" "steps ct ro quiet_app {} (delete_tenant E t)"
proof -
  show "steps ct ro quiet_app {} (count_scoped_rows D t m)"
    by (rule steps_weaken [OF steps_scoped(1) [where ops = UNIV]]) (auto simp: scoped_statement_def)
  show "steps ct ro quiet_app {} (count_adopted_rows D t m)"
    by (rule steps_weaken [OF steps_adopted(1) [where ops = UNIV]]) (auto simp: adopted_statement_def)
  show "steps ct ro quiet_app {} (delete_scoped_rows D t m)"
    by (rule steps_weaken [OF steps_scoped(3) [where ops = UNIV]]) (auto simp: scoped_statement_def)
  show "steps ct ro quiet_app {} (delete_adopted_rows D t m)"
    by (rule steps_weaken [OF steps_adopted(3) [where ops = UNIV]]) (auto simp: adopted_statement_def)
  have "steps ct ro quiet_app {} (export_scoped_rows D t m)" for m
    by (rule steps_weaken [OF steps_scoped(2) [where ops = UNIV]]) (auto simp: scoped_statement_def)
  moreover have "steps ct ro quiet_app {} (export_adopted_rows D t m)" for m
    by (rule steps_weaken [OF steps_adopted(2) [where ops = UNIV]]) (auto simp: adopted_statement_def)
  moreover have "steps ct ro quiet_app {} (collect_lines read ms)"
    if "\<And>m. steps ct ro quiet_app {} (read m)" for read and ms :: "model_meta list"
    using that by (induction ms) (auto intro: steps_ret steps_then_ret steps_bindc [where ?R1.0 = "{}" and ?R2.0 = "{}", simplified])
  ultimately have "steps ct ro quiet_app {} (export_rows D t)"
    unfolding export_rows_def
    by (intro steps_bindc [where ?R1.0 = "{}" and ?R2.0 = "{}", simplified] steps_then_ret steps_liftc) auto
  then show "steps ct ro quiet_app {} (export_if_asked D opts t)"
    by (simp add: export_if_asked_def steps_ret steps_then_ret)
  show "steps ct ro quiet_app {} (delete_tenant E t)" by (rule steps_delete_tenant) simp
qed

lemma collect_counts_gone:
  assumes D: "sound_default D forced stored" and ms: "\<forall>m \<in> set ms. \<not> is_tenant_model (class_of m)"
  shows "in_context ct None w \<Longrightarrow> collect_counts (count_adopted_rows D t) ms w = (Inr found, w') \<Longrightarrow>
    \<forall>m \<in> set ms. m \<in> fst ` set found \<or> gone stored t m w'"
  using ms
proof (induction ms arbitrary: w found)
  case (Cons m ms)
  have rls: "rls_rows D forced stored" using D by (simp add: sound_default_def)
  from Cons.prems(2) obtain n w1 rest w2 where n: "count_adopted_rows D t m w = (Inr n, w1)"
    and rest: "collect_counts (count_adopted_rows D t) ms w1 = (Inr rest, w2)"
    and found: "found = (if n > 0 then (m, n) # rest else rest)" "w2 = w'"
    unfolding collect_counts.simps by (elim bindc_InrE) (auto split: if_splits)
  have c1: "in_context ct None w1"
    using stepsE [OF steps_quiet_app(2) Cons.prems(1), of D t m] n by (metis snd_conv)
  have "\<forall>m \<in> set ms. m \<in> fst ` set rest \<or> gone stored t m w'"
    using Cons.IH [OF c1] rest found(2) Cons.prems(3) by simp
  moreover have "gone stored t m w'" if "n = 0"
  proof -
    have "gone stored t m w1"
      using count_zero_gone [OF D Cons.prems(1)] Cons.prems(3) n that by simp
    then have "gone stored t m (snd (collect_counts (count_adopted_rows D t) ms w1))"
      by (rule gone_stays [OF rls steps_collect_counts [OF steps_quiet_app(2)] c1])
    with rest found(2) show ?thesis by simp
  qed
  ultimately show ?case using found(1) by auto
qed simp

lemma delete_affected_gone:
  assumes D: "sound_default D forced stored" and m: "\<not> is_tenant_model (class_of m)" "mm_table m \<in> adopted"
  shows "in_context ct None w \<Longrightarrow> m \<in> fst ` set affected \<or> gone stored t m w \<Longrightarrow>
    \<not> isl (fst (delete_affected D t adopted affected w)) \<Longrightarrow>
    gone stored t m (snd (delete_affected D t adopted affected w))"
proof (induction affected arbitrary: w)
  case (Cons mn affected)
  have rls: "rls_rows D forced stored" using D by (simp add: sound_default_def)
  obtain m' n where mn: "mn = (m', n)" by (cases mn)
  let ?del = "if mm_table m' \<in> adopted then delete_adopted_rows D t m' else delete_scoped_rows D t m'"
  have del: "steps ct None quiet_app {} ?del" by (simp add: steps_quiet_app)
  have eq: "delete_affected D t adopted (mn # affected) = seqc ?del (delete_affected D t adopted affected)"
    by (simp add: delete_affected_def mn)
  have c1: "in_context ct None (snd (?del w))" using stepsE [OF del Cons.prems(1)] by metis
  from Cons.prems(3) obtain u w1 where run: "?del w = (Inr u, w1)"
    by (cases "?del w"; cases "fst (?del w)") (auto simp: eq seqc_def bindc_def)
  have "m \<in> fst ` set affected \<or> gone stored t m w1"
  proof (cases "gone stored t m w \<or> m' = m")
    case True
    then have "gone stored t m (snd (?del w))"
      using gone_stays [OF rls del Cons.prems(1)] delete_gone [OF D Cons.prems(1) m(1)] m(2) by auto
    then show ?thesis by (simp add: run)
  qed (use Cons.prems(2) mn in auto)
  moreover have "delete_affected D t adopted (mn # affected) w = delete_affected D t adopted affected w1"
    unfolding eq by (rule seqc_Inr) (rule run)
  ultimately show ?case
    using Cons.IH [of w1] c1 Cons.prems(3) run by simp
qed (simp add: delete_affected_def)

section \<open>The command goes through\<close>

lemma total_performs_ok: "db_ok E \<Longrightarrow> total (performs E ev)"
  by (simp add: total_def performs_ok)

lemma total_rows_statement: "db_ok (dp_env D) \<Longrightarrow> total (rows_statement D op a tb c v)"
  unfolding rows_statement_def by (intro total_intros total_performs_ok)

lemma total_admin_bypass:
  assumes "db_ok E" "reads_back E" "db_laws E" "WRAP_ATOMIC (conf E)" and body: "total body"
  shows "total (admin_bypass E u body)"
proof (cases "db_vendor E u = Some ''postgresql''")
  case True
  show ?thesis
    unfolding total_def
  proof
    fix w
    show "\<exists>x. fst (admin_bypass E u body w) = Inr x"
      using admin_bypass_run [OF assms(1-4) True, of w, where 'a = 'a] body
      unfolding total_def Let_def by (metis fst_conv)
  qed
next
  case False
  have "total (announce_bypass E u msg)" for msg
    unfolding announce_bypass_def by (intro total_intros total_performs_ok assms(1))
  then have "total (bindc (ret False) (\<lambda>pg. if \<not> pg then seqc (announce_bypass E u
      ''RLS admin bypass entered on a non-PostgreSQL alias; no flag set'') body else m pg))" for m
    using body by (simp add: total_intros)
  with False show ?thesis
    unfolding admin_bypass_def is_postgresql_def
    by (auto simp: seqc_def total_def bindc_def log_apply split: option.splits)
qed

lemma total_collect: "(\<And>m. total (count m)) \<Longrightarrow> total (collect_counts count ms)"
  by (induction ms) (auto intro: total_intros)

lemma total_lines: "(\<And>m. total (read m)) \<Longrightarrow> total (collect_lines read ms)"
  by (induction ms) (auto intro: total_intros)

lemma total_tenant_deleted: "total (tenant_deleted E t)"
  by (auto simp: tenant_deleted_def invalidate_on_delete_def cache_invalidate_def Let_def
      intro: total_intros split: option.splits)

lemma total_command_parts:
  assumes D: "sound_default D forced stored" and ms: "deprovision_adopted D = Inr ms"
  shows "total (collect_affected D t)" "total (export_if_asked D opts t)"
    "total (delete_affected D t adopted affected)" "total (delete_tenant (dp_env D) t)"
proof -
  have ok: "db_ok (dp_env D)" "reads_back (dp_env D)" "db_laws (dp_env D)" "WRAP_ATOMIC (conf (dp_env D))"
    using D by (simp_all add: sound_default_def)
  note parts = total_intros total_rows_statement [OF ok(1)] total_admin_bypass [OF ok] total_route
  have "total (count_scoped_rows D t m)" "total (count_adopted_rows D t m)"
    "total (export_scoped_rows D t m)" "total (export_adopted_rows D t m)"
    "total (delete_scoped_rows D t m)" "total (delete_adopted_rows D t m)" for m
    unfolding count_scoped_rows_def count_adopted_rows_def export_scoped_rows_def export_adopted_rows_def
      delete_scoped_rows_def delete_adopted_rows_def adopted_connection_def db_for_read_def db_for_write_def if_True if_False
    by (intro parts)+
  note each = this
  show "total (collect_affected D t)"
    unfolding collect_affected_def ms bindc_liftc sum.case by (intro total_intros total_collect each)
  have "total (export_rows D t)"
    unfolding export_rows_def ms bindc_liftc sum.case by (intro total_intros total_lines each)
  then show "total (export_if_asked D opts t)"
    by (auto simp: export_if_asked_def intro: total_intros)
  show "total (delete_affected D t adopted affected)"
    unfolding delete_affected_def by (intro total_for_each) (auto intro: each)
  show "total (delete_tenant (dp_env D) t)"
    unfolding delete_tenant_def by (intro total_intros total_performs_ok ok total_tenant_deleted)
qed

lemma resolve_identifier_sender:
  assumes "resolve_identifier E identifier w = (Inr t, w1)"
  shows "\<exists>path. invalidation_sender (conf E) = Some path"
  using assms
  by (auto simp: resolve_identifier_def checked_model_def seqc_def bindc_liftc invalidation_sender_def split: sum.splits)

lemma delete_tenant_run:
  assumes "db_ok E" "invalidation_sender (conf E) = Some path"
  shows "delete_tenant E t w = (Inr (t\<lparr>t_pk := PNone\<rparr>),
    w\<lparr>trace := (DeleteTenant (t_pk t), True) # trace w,
      resolver_cache := filter (\<lambda>(k, c, ts). t_pk c \<noteq> t_pk t) (resolver_cache w)\<rparr>)"
  by (simp add: delete_tenant_def seqc_Inr [OF performs_ok [OF assms(1)]] seqc_Inr [OF tenant_deleted_cache [OF assms(2)]])

lemma steps_collecting:
  "steps ct ro quiet_app {} (collect_counts (count_scoped_rows D t) ms)"
  "steps ct ro quiet_app {} (collect_counts (count_adopted_rows D t) ms)"
  by (intro steps_collect_counts steps_quiet_app)+

lemma collect_affected_left:
  assumes D: "sound_default D forced stored" and ms: "deprovision_adopted D = Inr ms" "\<forall>m \<in> set ms. \<not> is_tenant_model (class_of m)"
    and c: "in_context ct None w" and collect: "collect_affected D t w = (Inr affected, w3)"
  shows "in_context ct None w3 \<and> (\<forall>m \<in> set ms. m \<in> fst ` set affected \<or> gone stored t m w3)"
proof -
  from collect obtain scoped w4 found where *: "collect_counts (count_scoped_rows D t) (scoped_models D) w = (Inr scoped, w4)"
    "collect_counts (count_adopted_rows D t) ms w4 = (Inr found, w3)" "affected = scoped @ found"
    unfolding collect_affected_def ms(1) bindc_liftc sum.case by (elim bindc_InrE) auto
  have c4: "in_context ct None w4" using stepsE [OF steps_collecting(1) c] *(1) by (metis snd_conv)
  moreover from this have "in_context ct None w3" using stepsE [OF steps_collecting(2)] *(2) by (metis snd_conv)
  ultimately show ?thesis
    using collect_counts_gone [OF D ms(2) c4 *(2)] *(3) by auto
qed

text \<open>
  C17: A confirmed \<open>boundary_deprovision\<close> on a PostgreSQL \<open>default\<close> where nothing fails, once tenant and
  hook are through, runs to its end: no row of the tenant is left in any adopted table of \<open>default\<close>,
  although their RLS is forced and the command has no tenant of its own; the tenant's own row goes last;
  and no cached look-up serves the tenant afterwards. The key it reports is the cleared one.
\<close>
theorem deprovision_leaves_no_adopted_row:
  assumes "sound_default D forced stored" and "deprovision_adopted D = Inr ms"
    and "\<forall>m \<in> set ms. \<not> is_tenant_model (class_of m)"
    and "resolve_identifier (dp_env D) (do_tenant opts) w = (Inr t, w1)"
    and "run_hook (dp_hook D) (PRE_DEPROVISION_HOOK (conf (dp_env D))) t w1 = (Inr (), w2)"
    and "region_override w2 = None" and "\<not> do_dry_run opts" "do_yes opts \<or> do_answer opts = ''yes''"
  shows "\<exists>lines w'. boundary_deprovision D opts w = (Inr (Deleted PNone lines), w') \<and>
    (\<forall>m \<in> set ms. stored (trace w') ''default'' (mm_table m) ''tenant_id'' (t_pk t) = []) \<and>
    hd (trace w') = (DeleteTenant (t_pk t), True) \<and>
    (\<forall>(k, c, ts) \<in> set (resolver_cache w'). t_pk c \<noteq> t_pk t)"
proof -
  let ?ct = "current_tenant w2" and ?T = "mm_table ` set ms"
  have rls: "rls_rows D forced stored" and ok: "db_ok (dp_env D)" using assms(1) by (simp_all add: sound_default_def)
  note totals = total_command_parts [OF assms(1,2)]
  have c2: "in_context ?ct None w2" using assms(6) by (simp add: in_context_def)
  obtain affected w3 where collect: "collect_affected D t w2 = (Inr affected, w3)"
    using totals(1) [of t] by (rule totalE)
  note left = collect_affected_left [OF assms(1-3) c2 collect]
  then have c3: "in_context ?ct None w3" by blast
  obtain lines w5 where export: "export_if_asked D opts t w3 = (Inr lines, w5)"
    using totals(2) [of opts t] by (rule totalE)
  have c5: "in_context ?ct None w5"
    using stepsE [OF steps_quiet_app(5) c3, of D opts t] export by (metis snd_conv)
  obtain u w6 where del: "delete_affected D t ?T affected w5 = (Inr u, w6)"
    using totals(3) [of t ?T affected] by (rule totalE)
  have gone6: "gone stored t m w6" if m: "m \<in> set ms" for m
  proof -
    have "m \<in> fst ` set affected \<or> gone stored t m w5"
      using left m gone_stays [OF rls steps_quiet_app(5) c3, of t m D opts t] export by auto
    then show ?thesis
      using delete_affected_gone [OF assms(1), of m ?T ?ct w5 affected t] assms(3) m c5 del by simp
  qed
  obtain path where "invalidation_sender (conf (dp_env D)) = Some path"
    using resolve_identifier_sender [OF assms(4)] by blast
  note last = delete_tenant_run [OF ok this, of t w6]
  let ?w7 = "snd (delete_tenant (dp_env D) t w6)"
  have "remove_tenant D opts t affected w3 = (Inr (Deleted PNone lines), ?w7)"
    using assms(7,8) export del last
    by (auto simp: remove_tenant_def adopted_table_set_def assms(2) bindc_liftc bindc_Inr seqc_Inr)
  then have "boundary_deprovision D opts w = (Inr (Deleted PNone lines), ?w7)"
    using assms(4,5) collect by (simp add: boundary_deprovision_def bindc_Inr seqc_Inr)
  moreover have "stored (trace ?w7) ''default'' (mm_table m) ''tenant_id'' (t_pk t) = []" if "m \<in> set ms" for m
    using gone6 [OF that] last by (simp add: gone_def rls_stays [OF rls])
  ultimately show ?thesis
    using last by (intro exI [of _ lines] exI [of _ ?w7]) auto
qed

section \<open>What the command does not reach\<close>

text \<open>
  The adopted half of the command stays on \<open>default\<close>: with no region override, every statement it
  issues on an adopted table (which is not a tenant model to the router) names \<open>default\<close>, whichever
  region the tenant's rows are in.
\<close>
theorem adopted_half_stays_on_default:
  assumes "\<not> is_tenant_model (class_of m)" "region_override w = None"
    and "run \<in> {seqc (count_adopted_rows D t m) (ret ()), seqc (export_adopted_rows D t m) (ret ()),
                delete_adopted_rows D t m}"
  shows "\<exists>es. trace (snd (run w)) = es @ trace w \<and>
    (\<forall>op a tb c v ok. (RowStatement op a tb c v, ok) \<in> set es \<longrightarrow> a = ''default'')"
proof -
  let ?P = "\<lambda>e :: event \<times> bool. \<forall>op a tb c v. fst e = RowStatement op a tb c v \<longrightarrow> a = ''default''"
  have routed: "routed (dp_env D) ct None (class_of m) = ''default''" for ct
    using assms(1) by (simp add: routed_def route_def bindc_def split: option.splits)
  have own: "allows_own ?P" by (auto simp: allows_own_def)
  note each = steps_adopted [OF own, where ops = UNIV and ro = None and t = t and m = m and D = D,
      unfolded adopted_statement_def routed, simplified]
  have "steps (current_tenant w) None ?P {} run"
    using assms(3) by (auto intro: steps_weaken [OF each(1)] steps_weaken [OF each(2)] steps_weaken [OF each(3)] steps_then_unit)
  then obtain es where "trace (snd (run w)) = es @ trace w" "list_all ?P es"
    using assms(2) by (auto elim!: stepsE simp: in_context_def)
  then show ?thesis by (intro exI [of _ es]) (auto simp: list_all_iff)
qed

text \<open>The other half, through the ORM, has neither the tenant's context nor the bypass.\<close>

definition outside :: "env \<Rightarrow> world \<Rightarrow> bool" where
  "outside E w \<longleftrightarrow> (\<forall>a. atomic_depth E (trace w) a = 0)"

lemma hidden_outside:
  assumes "db_laws E" "outside E w" "forced tb" "py_str v \<noteq> []"
  shows "hidden_by_rls E forced (trace w) a tb v"
  using assms by (simp add: hidden_by_rls_def outside_def var_outside [OF assms(1)])

lemma scoped_reads_nothing:
  assumes ok: "db_ok (dp_env D)" and laws: "db_laws (dp_env D)" and rls: "rls_rows D forced stored"
    and w: "outside (dp_env D) w" and m: "forced (mm_table m)" "py_str (t_pk t) \<noteq> []"
  shows "\<exists>w'. count_scoped_rows D t m w = (Inr 0, w') \<and> outside (dp_env D) w'"
    and "\<exists>w'. export_scoped_rows D t m w = (Inr [], w') \<and> outside (dp_env D) w'"
proof -
  obtain a w1 where r: "route (dp_env D) (Some (class_of m)) w = (Inr a, w1)"
    using route_total by (metis prod.collapse)
  have tr: "trace w1 = trace w" using keepsD [OF keeps_route(1), of "dp_env D" "Some (class_of m)" w] r by simp
  have run: "\<exists>w'. rows_statement D op a (mm_table m) (lookup_or_tenant m) (t_pk t) w1 = (Inr [], w') \<and> outside (dp_env D) w'" for op
  proof -
    let ?w' = "w1\<lparr>trace := (RowStatement op a (mm_table m) (lookup_or_tenant m) (t_pk t), True) # trace w1\<rparr>"
    have "outside (dp_env D) ?w'" using w tr by (simp add: outside_def depth_other [OF laws])
    moreover have "dp_rows D (trace w1) a (mm_table m) (lookup_or_tenant m) (t_pk t) = []"
      unfolding tr by (rule rls_hidden [OF rls hidden_outside [OF laws w, of forced, OF m]])
    ultimately show ?thesis by (simp add: rows_statement_def bindc_def seqc_def performs_ok [OF ok])
  qed
  from run [of CountRows] r show "\<exists>w'. count_scoped_rows D t m w = (Inr 0, w') \<and> outside (dp_env D) w'"
    by (auto simp: count_scoped_rows_def db_for_read_def bindc_def)
  from run [of ReadRows] r show "\<exists>w'. export_scoped_rows D t m w = (Inr [], w') \<and> outside (dp_env D) w'"
    by (auto simp: export_scoped_rows_def db_for_read_def bindc_def)
qed

text \<open>
  C39: Started outside a transaction, as a command is, the scoped half counts and exports nothing on
  tables whose RLS is forced, however many rows the tenant has there: neither the session variable nor
  the admin flag is set for its statements.
\<close>
theorem forced_rls_hides_scoped_rows:
  assumes "db_ok (dp_env D)" "db_laws (dp_env D)" "rls_rows D forced stored"
    and "\<forall>m \<in> set (scoped_models D). forced (mm_table m)" "py_str (t_pk t) \<noteq> []"
    and "outside (dp_env D) w" and "deprovision_adopted D = Inr []"
  shows "fst (collect_affected D t w) = Inr [] \<and> fst (export_rows D t w) = Inr []"
proof -
  have "outside (dp_env D) w \<Longrightarrow> \<forall>m \<in> set ms. forced (mm_table m) \<Longrightarrow>
      fst (collect_counts (count_scoped_rows D t) ms w) = Inr []" for ms w
  proof (induction ms arbitrary: w)
    case (Cons m ms)
    obtain w' where "count_scoped_rows D t m w = (Inr 0, w')" "outside (dp_env D) w'"
      using scoped_reads_nothing(1) [OF assms(1-3) Cons.prems(1) _ assms(5), of m] Cons.prems(2) by auto
    with Cons.IH [of w'] Cons.prems(2) show ?case
      by (auto simp: bindc_Inr bindc_def split: prod.splits)
  qed simp
  note counts = this [OF assms(6,4)]
  have "outside (dp_env D) w \<Longrightarrow> \<forall>m \<in> set ms. forced (mm_table m) \<Longrightarrow>
      fst (collect_lines (export_scoped_rows D t) ms w) = Inr []" for ms w
  proof (induction ms arbitrary: w)
    case (Cons m ms)
    obtain w' where "export_scoped_rows D t m w = (Inr [], w')" "outside (dp_env D) w'"
      using scoped_reads_nothing(2) [OF assms(1-3) Cons.prems(1) _ assms(5), of m] Cons.prems(2) by auto
    with Cons.IH [of w'] Cons.prems(2) show ?case
      by (auto simp: bindc_Inr bindc_def split: prod.splits)
  qed simp
  note lines = this [OF assms(6,4)]
  from counts lines show ?thesis
    by (auto simp: collect_affected_def export_rows_def assms(7) bindc_liftc bindc_def split: prod.splits)
qed

section \<open>A small installation, for the witnesses\<close>

text \<open>Rows by replay: a deletion that sees the rows empties the table for that tenant.\<close>

primrec stored_rows ::
  "env \<Rightarrow> (string \<Rightarrow> bool) \<Rightarrow> (string \<Rightarrow> row list) \<Rightarrow> history \<Rightarrow> string \<Rightarrow> string \<Rightarrow> string \<Rightarrow> pyval \<Rightarrow> row list" where
  "stored_rows E forced init [] a tb c v = init tb"
| "stored_rows E forced init (e # tr) a tb c v =
     (if e = (RowStatement DeleteRows a tb c v, True) \<and> \<not> hidden_by_rls E forced tr a tb v then []
      else stored_rows E forced init tr a tb c v)"

definition one_row :: "string \<Rightarrow> row list" where
  "one_row tb = [[(''id'', PInt 9), (''tenant_id'', PInt 1)]]"

definition removal_env :: "django_settings \<Rightarrow> env" where
  "removal_env s = replay_env s (\<lambda>_. Some ''postgresql'')
     (\<lambda>lk. if lk = ByPk (PStr ''1'') then Inr (club 1 []) else Inl ObjectDoesNotExist)"

definition removal :: "django_settings \<Rightarrow> deprovision_env" where
  "removal s = \<lparr> dp_env = removal_env s, dp_live = tenants_registry,
     dp_models = [club_class, member_class, booking_class],
     dp_rows = (\<lambda>tr a tb c v. if hidden_by_rls (removal_env s) (\<lambda>_. True) tr a tb v then []
                 else stored_rows (removal_env s) (\<lambda>_. True) one_row tr a tb c v),
     dp_attnames = (\<lambda>_. [''id'', ''tenant_id'']), dp_pk_attname = (\<lambda>_. ''id''),
     dp_hook = (\<lambda>p. Inl (PyImportError p)) \<rparr>"

definition asked :: "string option \<Rightarrow> bool \<Rightarrow> string \<Rightarrow> deprovision_options" where
  "asked export dry answer = \<lparr> do_tenant = ''1'', do_export = export, do_dry_run = dry, do_yes = False, do_answer = answer \<rparr>"

lemma removal_simps [simp]:
  "dp_env (removal s) = removal_env s" "dp_live (removal s) = tenants_registry" "conf (removal_env s) = s"
  "do_tenant (asked e d a) = ''1''" "do_export (asked e d a) = e" "do_dry_run (asked e d a) = d"
  "\<not> do_yes (asked e d a)" "do_answer (asked e d a) = a"
  by (simp_all add: removal_def removal_env_def asked_def)

lemma removal_rls: "rls_rows (removal s) (\<lambda>_. True) (stored_rows (removal_env s) (\<lambda>_. True) one_row)"
  by (auto simp: rls_rows_def removal_def)

lemma removal_sound:
  assumes "WRAP_ATOMIC s"
  shows "sound_default (removal s) (\<lambda>_. True) (stored_rows (removal_env s) (\<lambda>_. True) one_row)"
  using assms removal_rls
  by (simp add: sound_default_def) (simp add: removal_env_def replay_env_ok replay_env_laws replay_env_reads_back)

lemma removal_adopted:
  "deprovision_adopted (removal adopting_settings) = Inr [member_class]"
  "deprovision_adopted (removal default_settings) = Inr []"
  by (simp add: deprovision_adopted_def adopting_settings_expects)
    (simp add: deprovision_adopted_def expected_adopted_models_def expected_adopted_apps_def TENANT_APPS_def
      default_settings_def)

lemma removal_scoped: "scoped_models (removal s) = [booking_class]"
  by (simp add: scoped_models_def removal_def club_class_def member_class_def booking_class_def plain_model_def
      is_tenant_model_def path_declared_def model_class.truncate_def)

lemmas removal_models = removal_scoped removal_adopted

lemma removal_hook: "PRE_DEPROVISION_HOOK adopting_settings = None" "WRAP_ATOMIC adopting_settings"
  "run_hook h None t = ret ()"
  by (simp_all add: adopting_settings_def default_settings_def conf_defs run_hook_def)

lemma removal_resolves:
  "\<exists>w1. resolve_identifier (removal_env adopting_settings) ''1'' fresh_world = (Inr (club 1 []), w1) \<and> region_override w1 = None"
  by (simp add: resolve_identifier_def checked_model_def resolve_tenant_model_setting_def adopting_settings_def
      default_settings_def str_or_def except_when_def fetch_tenant_def removal_env_def pyc_defs)

theorem deprovision_exports_before_deleting_witness:
  "\<exists>es. trace (snd (boundary_deprovision (removal adopting_settings) (asked (Some ''out.ndjson'') False ''yes'') fresh_world)) = es
     \<and> backed_up es"
  using deprovision_exports_before_deleting [of "asked (Some ''out.ndjson'') False ''yes''" "''out.ndjson''"
      "removal adopting_settings" fresh_world]
  by (simp add: removal_hook removal_models emits_ret member_class_def booking_class_def plain_model_def)

theorem unconfirmed_deprovision_deletes_nothing_witness:
  "emits deletes_nothing (boundary_deprovision (removal adopting_settings) (asked None False ''no''))"
  using unconfirmed_deprovision_deletes_nothing [of "asked None False ''no''" "removal adopting_settings"]
  by (simp add: removal_hook emits_ret)

theorem deprovision_leaves_no_adopted_row_witness:
  "\<exists>lines w'. boundary_deprovision (removal adopting_settings) (asked None False ''yes'') fresh_world
      = (Inr (Deleted PNone lines), w') \<and>
    stored_rows (removal_env adopting_settings) (\<lambda>_. True) one_row (trace w') ''default'' ''tenants_member'' ''tenant_id'' (PInt 1) = []"
proof -
  obtain w1 where w1: "resolve_identifier (removal_env adopting_settings) ''1'' fresh_world = (Inr (club 1 []), w1)"
    "region_override w1 = None" using removal_resolves by blast
  have member: "\<not> is_tenant_model (class_of member_class)" "mm_table member_class = ''tenants_member''"
    by (simp_all add: member_class_def plain_model_def is_tenant_model_def path_declared_def model_class.truncate_def)
  show ?thesis
    using deprovision_leaves_no_adopted_row [OF removal_sound [OF removal_hook(2)] removal_models(2),
        of "asked None False ''yes''" fresh_world "club 1 []" w1 w1] w1 member
    by (simp add: removal_hook) blast
qed

theorem adopted_half_stays_on_default_witness:
  "\<exists>es. trace (snd (delete_adopted_rows (removal adopting_settings) (club 1 ''eu'') member_class fresh_world)) = es \<and>
    (\<forall>op a tb c v ok. (RowStatement op a tb c v, ok) \<in> set es \<longrightarrow> a = ''default'')"
  using adopted_half_stays_on_default [of member_class fresh_world
      "delete_adopted_rows (removal adopting_settings) (club 1 ''eu'') member_class" "removal adopting_settings" "club 1 ''eu''"]
  by (simp add: member_class_def plain_model_def is_tenant_model_def path_declared_def model_class.truncate_def)

theorem forced_rls_hides_scoped_rows_witness:
  "fst (collect_affected (removal default_settings) (club 1 []) fresh_world) = Inr [] \<and>
   stored_rows (removal_env default_settings) (\<lambda>_. True) one_row [] ''default'' ''tenants_booking'' ''tenant'' (PInt 1) \<noteq> []"
  using forced_rls_hides_scoped_rows [OF _ _ removal_rls, of default_settings "club 1 []" fresh_world]
  by (simp add: removal_models one_row_def outside_def)
    (simp add: removal_env_def replay_env_ok replay_env_laws int_str_def)

end
