(* ===== verification/Worker.thy ===== *)
theory Worker
  imports Celery Deprovision
begin

text \<open>
  A worker over its lifetime. The other theories say what one operation does; here the state of one
  worker (a thread's three \<open>ContextVar\<close>s with the process-wide cache and warn-once set) is followed
  through any sequence of requests, tasks, the four commands and saved or deleted tenants. \<open>app_code\<close> is the
  code an application runs inside them: any composition of the package's scoped operations, its
  managers, its router and effects of its own. \<open>serves\<close> is one job, \<open>reachable\<close> every state between
  two jobs of a worker that started fresh.
\<close>

section \<open>Invariants of a computation\<close>

definition stable :: "('w \<Rightarrow> bool) \<Rightarrow> ('w, 'a) pyc \<Rightarrow> bool" where
  "stable I m \<longleftrightarrow> (\<forall>w. I w \<longrightarrow> I (snd (m w)))"

named_theorems stable_intros \<open>rules showing that a computation preserves an invariant\<close>

lemma stableD: "stable I m \<Longrightarrow> I w \<Longrightarrow> I (snd (m w))"
  by (simp add: stable_def)

lemma stable_keeps: "keeps I m \<Longrightarrow> stable I m"
  by (simp add: stable_def keeps_def)

lemma stable_leaf [stable_intros]:
  "stable I (ret x)" "stable I (raise e)" "stable I (liftc r)" "stable I (readc g)"
  by (simp_all add: stable_def)

lemma stable_writec: "(\<And>w. I w \<Longrightarrow> I (g w)) \<Longrightarrow> stable I (writec g)"
  by (simp add: stable_def)

lemma stable_bindc [stable_intros]: "stable I m \<Longrightarrow> (\<And>x. stable I (k x)) \<Longrightarrow> stable I (bindc m k)"
  unfolding stable_def bindc_def by (auto split: prod.splits sum.splits)

lemma stable_seqc [stable_intros]: "stable I m \<Longrightarrow> stable I k \<Longrightarrow> stable I (seqc m k)"
  unfolding seqc_def by (rule stable_bindc)

lemma stable_try_finally [stable_intros]: "stable I m \<Longrightarrow> stable I fin \<Longrightarrow> stable I (try_finally m fin)"
  unfolding stable_def try_finally_def by (auto split: prod.splits sum.splits)

lemma stable_try_except [stable_intros]:
  "stable I m \<Longrightarrow> (\<And>e. stable I (h e)) \<Longrightarrow> stable I (try_except m h)"
  unfolding stable_def try_except_def by (auto split: prod.splits sum.splits)

lemma stable_for_each [stable_intros]:
  "(\<And>x. x \<in> set xs \<Longrightarrow> stable I (g x)) \<Longrightarrow> stable I (for_each xs g)"
  by (induction xs) (auto intro: stable_intros)

lemma stable_if [stable_intros]:
  "(b \<Longrightarrow> stable I m) \<Longrightarrow> (\<not> b \<Longrightarrow> stable I n) \<Longrightarrow> stable I (if b then m else n)"
  by simp

lemma stable_option [stable_intros]:
  "(x = None \<Longrightarrow> stable I m) \<Longrightarrow> (\<And>y. x = Some y \<Longrightarrow> stable I (n y))
    \<Longrightarrow> stable I (case x of None \<Rightarrow> m | Some y \<Rightarrow> n y)"
  by (cases x) auto

lemma stable_with_cm [stable_intros]:
  assumes I: "state_only I" and body: "stable I body"
  shows "stable I (with_cm E c body)"
proof (cases c)
  case (Atomic a)
  have "stable I (performs E ev)" for ev using I by (intro stable_keeps keeps_performs)
  note enter_exit = this [unfolded stable_def, rule_format]
  show ?thesis
    unfolding stable_def Atomic with_cm_def seqc_def bindc_def cm.case
    using stableD [OF body] enter_exit
    by (auto split: prod.splits sum.splits) (metis snd_conv)+
qed (simp add: with_cm_def body)

lemma stable_with_stack [stable_intros]:
  "state_only I \<Longrightarrow> stable I body \<Longrightarrow> stable I (with_stack E als body)"
  by (induction als) (auto intro!: stable_intros stable_keeps [OF keeps_ensure_atomic])

section \<open>What every operation leaves alone, and what it keeps bounded\<close>

text \<open>The three \<open>ContextVar\<close>s of the thread.\<close>

definition ambient :: "world \<Rightarrow> tenant option \<times> string option \<times> (string, nat) dict option" where
  "ambient w = (current_tenant w, region_override w, admin_bypass_depth w)"

text \<open>The process-wide state keeps its bounds: no key twice, no growth beyond the two limits.\<close>

definition bounded_state :: "env \<Rightarrow> world \<Rightarrow> bool" where
  "bounded_state E w \<longleftrightarrow>
     cache_bounded E w \<and> distinct (warned_regions w) \<and> length (warned_regions w) \<le> max_unmatched_region_warnings"

definition neutral :: "env \<Rightarrow> 'a comp \<Rightarrow> bool" where
  "neutral E m \<longleftrightarrow> keeps ambient m \<and> stable (bounded_state E) m"

named_theorems neutral_intros \<open>rules showing that a computation restores the context and keeps the bounds\<close>

text \<open>A property of the process-wide state only.\<close>

definition blind :: "(world \<Rightarrow> bool) \<Rightarrow> bool" where
  "blind I \<longleftrightarrow> state_only I \<and> (\<forall>w t. I (w\<lparr>current_tenant := t\<rparr>) = I w) \<and>
     (\<forall>w r. I (w\<lparr>region_override := r\<rparr>) = I w) \<and> (\<forall>w d. I (w\<lparr>admin_bypass_depth := d\<rparr>) = I w)"

lemma blind_bounded: "blind (bounded_state E)"
  by (simp add: blind_def state_only_def bounded_state_def cache_bounded_def)

lemma state_only_ambient [keeps_intros]: "state_only ambient"
  by (simp add: state_only_def ambient_def)

lemma state_only_bounded [keeps_intros]: "state_only (bounded_state E)"
  using blind_bounded by (simp add: blind_def)

lemma keeps_ambient:
  "keeps ambient m \<longleftrightarrow> keeps current_tenant m \<and> keeps region_override m \<and> keeps admin_bypass_depth m"
  by (auto simp: keeps_def ambient_def)

lemma neutralI: "keeps ambient m \<Longrightarrow> stable (bounded_state E) m \<Longrightarrow> neutral E m"
  by (simp add: neutral_def)

lemma neutral_of_keeps: "keeps ambient m \<Longrightarrow> keeps (bounded_state E) m \<Longrightarrow> neutral E m"
  by (simp add: neutral_def stable_keeps)

lemma neutral_leaf [neutral_intros]:
  "neutral E (ret x)" "neutral E (raise e)" "neutral E (liftc r)" "neutral E (readc g)"
  "neutral E (perform E' ev)" "neutral E (performs E' ev)" "neutral E (log lvl msg)"
  by (rule neutral_of_keeps; intro keeps_intros)+

lemma neutral_Pair [simp, neutral_intros]: "neutral E (Pair r)"
  by (simp add: neutral_def stable_def)

lemma neutral_bindc [neutral_intros]: "neutral E m \<Longrightarrow> (\<And>x. neutral E (k x)) \<Longrightarrow> neutral E (bindc m k)"
  unfolding neutral_def by (auto intro: keeps_intros stable_intros)

lemma neutral_seqc [neutral_intros]: "neutral E m \<Longrightarrow> neutral E k \<Longrightarrow> neutral E (seqc m k)"
  unfolding seqc_def by (rule neutral_bindc)

lemma neutral_try_finally [neutral_intros]: "neutral E m \<Longrightarrow> neutral E fin \<Longrightarrow> neutral E (try_finally m fin)"
  unfolding neutral_def by (auto intro: keeps_intros stable_intros)

lemma neutral_try_except [neutral_intros]:
  "neutral E m \<Longrightarrow> (\<And>e. neutral E (h e)) \<Longrightarrow> neutral E (try_except m h)"
  unfolding neutral_def by (auto intro: keeps_intros stable_intros)

lemma neutral_for_each [neutral_intros]:
  "(\<And>x. x \<in> set xs \<Longrightarrow> neutral E (g x)) \<Longrightarrow> neutral E (for_each xs g)"
  unfolding neutral_def by (auto intro: keeps_intros stable_intros)

lemma neutral_if [neutral_intros]:
  "(b \<Longrightarrow> neutral E m) \<Longrightarrow> (\<not> b \<Longrightarrow> neutral E n) \<Longrightarrow> neutral E (if b then m else n)"
  by simp

lemma neutral_option [neutral_intros]:
  "(x = None \<Longrightarrow> neutral E m) \<Longrightarrow> (\<And>y. x = Some y \<Longrightarrow> neutral E (n y))
    \<Longrightarrow> neutral E (case x of None \<Rightarrow> m | Some y \<Rightarrow> n y)"
  by (cases x) auto

section \<open>The scopes\<close>

lemma neutral_ensure_atomic [neutral_intros]: "neutral E (ensure_atomic E a)"
  by (rule neutral_of_keeps; intro keeps_intros)

lemma neutral_with_cm [neutral_intros]: "neutral E m \<Longrightarrow> neutral E (with_cm E c m)"
  unfolding neutral_def by (auto intro: keeps_intros stable_intros)

lemma neutral_with_stack [neutral_intros]: "neutral E m \<Longrightarrow> neutral E (with_stack E als m)"
  unfolding neutral_def by (auto intro: keeps_intros stable_intros)

lemma stable_tc_put: "blind I \<Longrightarrow> stable I (tc_put t)"
  unfolding tc_put_def by (rule stable_writec) (simp add: blind_def)

lemma stable_tc_set: "blind I \<Longrightarrow> stable I (tc_set E t u)"
  unfolding tc_set_def tc_get_def
  by (intro stable_intros stable_tc_put stable_keeps [OF keeps_tc_write_session] stable_keeps [OF keeps_log])
    (simp_all add: blind_def)

lemma stable_tc_clear: "blind I \<Longrightarrow> stable I (tc_clear E token u)"
  unfolding tc_clear_def tc_get_def
  by (intro stable_intros stable_tc_put stable_keeps [OF keeps_clear_best_effort]
      stable_keeps [OF keeps_restore_best_effort] stable_keeps [OF keeps_log])
    (simp_all add: blind_def)

lemma stable_tc_using: "blind I \<Longrightarrow> stable I body \<Longrightarrow> stable I (tc_using E t u body)"
  unfolding tc_using_def tc_get_def Let_def
  by (intro stable_intros stable_tc_put stable_tc_set stable_keeps [OF keeps_clear_best_effort]
      stable_keeps [OF keeps_restore_best_effort])
    (simp_all add: blind_def)

lemma neutral_tc_using [neutral_intros]:
  assumes "neutral E body"
  shows "neutral E (tc_using E t u body)"
proof (rule neutralI)
  from assms have "keeps region_override body" "keeps admin_bypass_depth body"
    by (simp_all add: neutral_def keeps_ambient)
  then show "keeps ambient (tc_using E t u body)"
    unfolding keeps_ambient by (auto intro!: keeps_tc_using keeps_tc_using_other keeps_intros)
qed (use assms in \<open>simp add: neutral_def stable_tc_using [OF blind_bounded]\<close>)

lemma neutral_set_and_clear [neutral_intros]:
  assumes "\<And>token. neutral E (body token)"
  shows "neutral E (set_and_clear E t body)"
proof (rule neutralI)
  have body: "keeps region_override (body token)" "keeps admin_bypass_depth (body token)" for token
    using assms [of token] by (simp_all add: neutral_def keeps_ambient)
  have put: "keeps region_override (tc_put t)" "keeps admin_bypass_depth (tc_put t)" for t
    by (simp_all add: keeps_def tc_put_def)
  show "keeps ambient (set_and_clear E t body)"
    unfolding keeps_ambient
    by (auto simp: keeps_set_and_clear) (auto simp: set_and_clear_def tc_set_def tc_clear_def tc_get_def
        intro!: keeps_intros body put)
  have "stable (bounded_state E) (body token)" for token
    using assms [of token] by (simp add: neutral_def)
  then show "stable (bounded_state E) (set_and_clear E t body)"
    unfolding set_and_clear_def by (intro stable_intros stable_tc_set stable_tc_clear blind_bounded)
qed

lemma neutral_specific_region [neutral_intros]:
  assumes "neutral E body"
  shows "neutral E (specific_region r body)"
proof (rule neutralI)
  have set: "keeps current_tenant (writec (\<lambda>w. w\<lparr>region_override := x\<rparr>))"
    "keeps admin_bypass_depth (writec (\<lambda>w. w\<lparr>region_override := x\<rparr>))" for x
    by (simp_all add: keeps_writec)
  from assms have "keeps current_tenant body" "keeps admin_bypass_depth body"
    by (simp_all add: neutral_def keeps_ambient)
  then show "keeps ambient (specific_region r body)"
    unfolding keeps_ambient
    by (auto simp: keeps_specific_region) (auto simp: specific_region_def intro!: keeps_intros set)
  have set: "stable (bounded_state E) (writec (\<lambda>w. w\<lparr>region_override := x\<rparr>))" for x
    using blind_bounded by (intro stable_writec) (simp add: blind_def)
  show "stable (bounded_state E) (specific_region r body)"
    unfolding specific_region_def using assms by (intro stable_intros set) (simp add: neutral_def)
qed

lemma neutral_is_postgresql [neutral_intros]: "neutral E (is_postgresql E a)"
  by (rule neutral_of_keeps; intro keeps_intros)

lemma neutral_admin_block:
  "neutral E body \<Longrightarrow> neutral E (admin_block E a already body)"
  unfolding admin_block_def announce_bypass_def clear_admin_flag_def by (intro neutral_intros)

lemma keeps_bypass_frame:
  "keeps admin_bypass_depth (bindc (readc admin_bypass_depth) (\<lambda>d.
     seqc (writec (\<lambda>w. w\<lparr>admin_bypass_depth := g d\<rparr>))
       (try_finally (m d) (writec (\<lambda>w. w\<lparr>admin_bypass_depth := d\<rparr>)))))"
proof -
  have "admin_bypass_depth (snd (try_finally (m d) (writec (\<lambda>w. w\<lparr>admin_bypass_depth := d\<rparr>)) w)) = d" for d w
    by (rule try_finally_keeps_only_fin) simp
  then show ?thesis by (simp add: keeps_def bindc_Inr [OF readc_apply] seqc_Inr [OF writec_apply])
qed

lemma neutral_admin_bypass [neutral_intros]:
  assumes "neutral E body"
  shows "neutral E (admin_bypass E a body)"
proof (rule neutralI)
  note block = neutral_admin_block [OF assms]
  have announce: "neutral E (announce_bypass E a msg)" for msg
    unfolding announce_bypass_def by (intro neutral_intros)
  have "keeps admin_bypass_depth (admin_bypass E a body)"
    unfolding admin_bypass_def Let_def
  proof (rule keeps_bindc, goal_cases)
    case (2 pg)
    show ?case
    proof (rule keeps_if)
      show "keeps admin_bypass_depth (seqc (announce_bypass E a
          ''RLS admin bypass entered on a non-PostgreSQL alias; no flag set'') body)"
        using assms announce by (intro keeps_seqc) (auto simp: neutral_def keeps_ambient)
    qed (rule keeps_bypass_frame)
  qed (intro keeps_intros)
  moreover have set: "keeps current_tenant (writec (\<lambda>w. w\<lparr>admin_bypass_depth := x\<rparr>))"
    "keeps region_override (writec (\<lambda>w. w\<lparr>admin_bypass_depth := x\<rparr>))" for x
    by (simp_all add: keeps_writec)
  have "keeps current_tenant (admin_bypass E a body)" "keeps region_override (admin_bypass E a body)"
    unfolding admin_bypass_def Let_def
    using assms announce block [where a = a] by (intro keeps_intros set; auto simp: neutral_def keeps_ambient)+
  ultimately show "keeps ambient (admin_bypass E a body)" by (simp add: keeps_ambient)
  have set: "stable (bounded_state E) (writec (\<lambda>w. w\<lparr>admin_bypass_depth := x\<rparr>))" for x
    using blind_bounded by (intro stable_writec) (simp add: blind_def)
  show "stable (bounded_state E) (admin_bypass E a body)"
    unfolding admin_bypass_def Let_def
    using assms announce block stable_keeps [OF keeps_is_postgresql [OF state_only_bounded]]
      stable_keeps [OF keeps_ensure_atomic [OF state_only_bounded]] state_only_bounded
    by (intro stable_intros set) (auto simp: neutral_def)
qed

lemma neutral_tenant_scoped [neutral_intros]:
  "neutral E (f args kwargs) \<Longrightarrow> neutral E (tenant_scoped E tenant_arg sig f args kwargs)"
  unfolding tenant_scoped_def Let_def
  by (auto split: sum.splits option.splits pyarg.splits intro!: neutral_intros)

section \<open>The cache and the warn-once set\<close>

lemma bounded_filter_cache:
  "bounded_state E w \<Longrightarrow> bounded_state E (w\<lparr>resolver_cache := filter P (resolver_cache w)\<rparr>)"
  using cache_bounded_filter [of E w P] by (simp add: bounded_state_def)

lemma neutral_cache_writec: "(\<And>w. bounded_state E w \<Longrightarrow> bounded_state E (w\<lparr>resolver_cache := g w\<rparr>)) \<Longrightarrow>
    neutral E (writec (\<lambda>w. w\<lparr>resolver_cache := g w\<rparr>))"
  by (intro neutralI keeps_writec stable_writec) (simp_all add: ambient_def)

lemma neutral_cache_get [neutral_intros]: "neutral E (cache_get E key)"
  unfolding cache_get_def
  by (auto simp: dict_del_def split: option.splits
      intro!: neutral_intros neutral_cache_writec bounded_filter_cache)

lemma bounded_cache_set: "bounded_state E w \<Longrightarrow> bounded_state E (snd (cache_set E k t w))"
  using cache_bounded_set [of E w k t] by (auto simp: bounded_state_def cache_set_run)

lemma neutral_cache_set [neutral_intros]: "neutral E (cache_set E k t)"
proof (rule neutralI)
  show "stable (bounded_state E) (cache_set E k t)" by (simp add: stable_def bounded_cache_set)
  show "keeps ambient (cache_set E k t)" by (auto simp: keeps_def cache_set_run ambient_def)
qed

lemma neutral_cache_invalidate [neutral_intros]: "neutral E (cache_invalidate arg)"
  unfolding cache_invalidate_def Let_def
  by (intro neutral_cache_writec bounded_filter_cache)

lemma neutral_invalidate_cache [neutral_intros]: "neutral E (invalidate_cache arg)"
  unfolding invalidate_cache_def by (rule neutral_cache_invalidate)

lemma neutral_cache_clear [neutral_intros]: "neutral E cache_clear"
  unfolding cache_clear_def
  by (rule neutral_cache_writec) (simp add: bounded_state_def cache_bounded_def dict_wf_def)

lemma neutral_tenant_signals [neutral_intros]: "neutral E (tenant_saved E t)" "neutral E (tenant_deleted E t)"
  unfolding tenant_saved_def tenant_deleted_def invalidate_on_save_def invalidate_on_delete_def
  by (auto split: option.splits intro!: neutral_intros)

lemma neutral_warn_once [neutral_intros]: "neutral E (warn_unmatched_region_once pk region)"
proof (rule neutralI)
  show "keeps ambient (warn_unmatched_region_once pk region)"
    unfolding warn_unmatched_region_once_def by (intro keeps_intros keeps_writec) (simp_all add: ambient_def)
  have "0 < max_unmatched_region_warnings" by (simp add: max_unmatched_region_warnings_def)
  then show "stable (bounded_state E) (warn_unmatched_region_once pk region)"
    by (auto simp: stable_def warn_unmatched_region_once_def pyc_defs log_def bounded_state_def cache_bounded_def)
qed

lemma neutral_route [neutral_intros]: "neutral E (route E m)"
  unfolding route_def tc_get_def Let_def
  by (auto split: option.splits intro!: neutral_intros)

lemma neutral_tc_require [neutral_intros]: "neutral E (tc_require E)"
  by (intro neutral_of_keeps context_source.keeps_require)

lemma neutral_require_region [neutral_intros]: "neutral E (require_region E t)"
  unfolding require_region_def tc_get_def Let_def
  by (auto split: option.splits intro!: neutral_intros)

section \<open>The resolvers\<close>

lemma neutral_fetch_tenant [neutral_intros]: "neutral E (fetch_tenant E lk)"
  by (rule neutral_of_keeps; intro keeps_fetch_tenant keeps_intros)

lemma neutral_checked_model [neutral_intros]: "neutral E (checked_model E)"
  unfolding checked_model_def by (intro neutral_intros)

lemma neutral_except_when [neutral_intros]: "neutral E m \<Longrightarrow> neutral E h \<Longrightarrow> neutral E (except_when P m h)"
  unfolding except_when_def by (intro neutral_intros)

lemma neutral_through_cache [neutral_intros]:
  "neutral E fetch \<Longrightarrow> neutral E (through_cache (cache_get E) (cache_set E) key fetch)"
  unfolding through_cache_def by (intro neutral_intros)

lemma neutral_resolvers [neutral_intros]:
  "neutral E (subdomain_resolve E req)" "neutral E (header_resolve E req)"
  "neutral E (session_resolve E req)" "neutral E (explicit_resolve req)"
  unfolding subdomain_resolve_def header_resolve_def session_resolve_def explicit_resolve_def header_fetch_def Let_def
  by (intro neutral_intros)+

lemma neutral_jwt_resolve [neutral_intros]: "neutral E (jwt_resolve E decode req)"
  unfolding jwt_resolve_def Let_def
  by (auto split: option.splits json.splits intro!: neutral_intros)

section \<open>Managers, requests, tasks and commands\<close>

lemma neutral_case_prod [neutral_intros]: "(\<And>x y. p = (x, y) \<Longrightarrow> neutral E (f x y)) \<Longrightarrow> neutral E (case p of (x, y) \<Rightarrow> f x y)"
  by (cases p) simp

lemma neutral_get_queryset [neutral_intros]: "neutral E (get_queryset E m db)"
  unfolding get_queryset_def tc_get_def Let_def by (intro neutral_intros)

lemma neutral_managers [neutral_intros]:
  "(\<And>objs. neutral E (create objs)) \<Longrightarrow> neutral E (tm_bulk_create E create m objs)"
  "(\<And>objs. neutral E (update objs cols)) \<Longrightarrow> neutral E (tm_bulk_update E update m objs cols)"
  "(\<And>d l. neutral E (get_create d l)) \<Longrightarrow> neutral E (tm_get_or_create E get_create m defaults lookup)"
  "(\<And>d c l. neutral E (upd_create d c l)) \<Longrightarrow>
     neutral E (tm_update_or_create E upd_create m defaults create_defaults lookup)"
  "(\<And>obj. neutral E (save obj)) \<Longrightarrow> neutral E (mixin_save E save fk obj)"
  "(\<And>obj. neutral E (save obj)) \<Longrightarrow> neutral E (um_create save build kw)"
  "(\<And>objs. neutral E (create objs)) \<Longrightarrow> neutral E (um_bulk_create create objs)"
  unfolding tm_bulk_create_def tm_bulk_update_def tm_get_or_create_def tm_update_or_create_def
    mixin_save_def um_create_def um_bulk_create_def inject_tenant_kwargs_def
  by (intro neutral_intros; simp)+

lemma neutral_resolve_chain:
  assumes "\<And>path name r. load path = Inr (name, r) \<Longrightarrow> neutral E (r req)"
    and "\<And>path e. neutral E (on_error req path e)"
  shows "neutral E (resolve_chain load on_error req paths)"
proof (induction paths)
  case (Cons path paths)
  have "neutral E (bindc (liftc (load path)) (\<lambda>(name, resolve).
      bindc (resolve req) (\<lambda>tenant. ret (map_option (\<lambda>t. (t, name)) tenant))))"
    using assms(1) by (cases "load path") (auto simp: bindc_liftc intro!: neutral_intros)
  with Cons show ?case
    by (auto simp: try_resolver_def intro!: neutral_intros assms(2))
qed simp

lemma neutral_middleware_call:
  assumes "\<And>path name r. load path = Inr (name, r) \<Longrightarrow> neutral E (r req)"
    and "\<And>path e. neutral E (on_error req path e)" "\<And>t e. neutral E (on_inactive req t e)"
    and "\<And>attrs. neutral E (view req attrs)"
  shows "neutral E (middleware_call E load on_error on_inactive view req)"
  unfolding middleware_call_def resolve_tenant_def
  by (intro neutral_intros neutral_resolve_chain assms) (assumption | rule assms)+

lemma neutral_run_task [neutral_intros]: "neutral E body \<Longrightarrow> neutral E (run_task E hs body)"
proof (cases "\<exists>v. names_task_tenant hs v")
  case True
  then obtain v where v: "names_task_tenant hs v" by blast
  assume "neutral E body"
  then show ?thesis
    unfolding run_task_named [OF v] task_fetch_def by (intro neutral_intros)
next
  case False
  assume "neutral E body"
  then show ?thesis
    unfolding run_task_anonymous [OF False] by (intro neutral_intros)
qed

lemma neutral_tasks [neutral_intros]:
  "neutral E body \<Longrightarrow> neutral E (tenant_task E current body)"
  "neutral E body \<Longrightarrow> neutral E (tenant_task_call E request_headers body)"
  "(\<And>hs. neutral E (send hs)) \<Longrightarrow> neutral E (apply_async E send opts)"
  unfolding tenant_task_def tenant_task_call_def apply_async_def get_tenant_headers_def tc_get_def Let_def
  by (auto split: sum.splits option.splits exn.splits intro!: neutral_intros)

lemma neutral_resolve_identifier [neutral_intros]: "neutral E (resolve_identifier E ident)"
  unfolding resolve_identifier_def by (intro neutral_intros)

lemma neutral_boundary_run:
  "neutral E (call command) \<Longrightarrow> neutral E (boundary_run E call ident command)"
  unfolding boundary_run_def by (intro neutral_intros)

lemma neutral_run_each:
  "neutral E (call command) \<Longrightarrow> neutral E (run_each E call command pks)"
  by (induction pks) (auto simp: run_one_def run_in_context_def intro!: neutral_intros)

lemma neutral_boundary_run_all:
  assumes "neutral E (call command)" "\<And>q. neutral E (tenant_pks q)"
  shows "neutral E (boundary_run_all E call tenant_pks start opts command)"
  unfolding boundary_run_all_def run_parallel_def run_sequential_def Let_def
  by (intro neutral_intros neutral_run_each assms)

text \<open>A tenant saved, a hook called, and the two commands that create and remove a tenant.\<close>

lemma neutral_save_tenant [neutral_intros]: "neutral E (save_tenant E alias t)" "neutral E (delete_tenant E t)"
  unfolding save_tenant_def delete_tenant_def by (intro neutral_intros)+

lemma neutral_run_hook:
  "(\<And>path hook. import_string path = Inr hook \<Longrightarrow> neutral E (hook t)) \<Longrightarrow> neutral E (run_hook import_string path t)"
  unfolding run_hook_def by (auto simp: bindc_liftc split: option.splits sum.splits intro: neutral_leaf)

lemma neutral_boundary_provision:
  assumes "pv_env P = E" "\<And>path hook t. pv_hook P path = Inr hook \<Longrightarrow> neutral E (hook t)"
  shows "neutral E (boundary_provision P opts)"
proof -
  have "neutral E (place_tenant P opts kwargs)" for kwargs
    unfolding place_tenant_def assms(1) db_for_write_def Let_def by (intro neutral_intros)
  then show ?thesis
    unfolding boundary_provision_def assms(1)
    by (auto split: option.splits intro!: neutral_intros neutral_run_hook dest: assms(2))
qed

lemma neutral_rows_statement: "neutral (dp_env D) (rows_statement D op alias table column v)"
  unfolding rows_statement_def by (intro neutral_intros)

lemma neutral_collect:
  "(\<And>m. neutral E (count m)) \<Longrightarrow> neutral E (collect_counts count ms)"
  "(\<And>m. neutral E (lines m)) \<Longrightarrow> neutral E (collect_lines lines ms)"
  by (induction ms) (auto intro!: neutral_intros)

lemma neutral_removal_parts:
  "neutral (dp_env D) (count_scoped_rows D t m)" "neutral (dp_env D) (count_adopted_rows D t m)"
  "neutral (dp_env D) (export_scoped_rows D t m)" "neutral (dp_env D) (export_adopted_rows D t m)"
  "neutral (dp_env D) (delete_scoped_rows D t m)" "neutral (dp_env D) (delete_adopted_rows D t m)"
  unfolding count_scoped_rows_def count_adopted_rows_def export_scoped_rows_def export_adopted_rows_def
    delete_scoped_rows_def delete_adopted_rows_def adopted_connection_def db_for_read_def db_for_write_def
  by (intro neutral_intros neutral_rows_statement)+

lemma neutral_boundary_deprovision:
  assumes "dp_env D = E" "\<And>path hook t. dp_hook D path = Inr hook \<Longrightarrow> neutral E (hook t)"
  shows "neutral E (boundary_deprovision D opts)"
proof -
  note parts = neutral_removal_parts [of D, unfolded assms(1)]
  have "neutral E (collect_affected D t)" for t
    unfolding collect_affected_def by (intro neutral_intros neutral_collect parts neutral_intros)
  moreover have "neutral E (remove_tenant D opts t affected)" for t affected
    unfolding remove_tenant_def export_if_asked_def export_rows_def delete_affected_def assms(1)
    by (intro neutral_intros neutral_collect parts neutral_intros)
  ultimately show ?thesis
    unfolding boundary_deprovision_def assms(1) by (intro neutral_intros neutral_run_hook assms(2))
qed

section \<open>Application code\<close>

text \<open>
  What an application may run inside a request, a task or a command: effects of its own, whose answer
  it may look at, in any order and under any handler or clean-up, and the package's operations around
  code of the same kind. The explicit \<open>TenantContext.set()\<close> and \<open>clear()\<close> are left out: an application
  that uses them answers for their pairing.
\<close>

inductive app_code :: "env \<Rightarrow> unit comp \<Rightarrow> bool" for E where
  code_return: "app_code E (ret ())"
| code_raise: "app_code E (raise e)"
| code_log: "app_code E (log lvl msg)"
| code_effect: "(\<And>answer. app_code E (k answer)) \<Longrightarrow> app_code E (bindc (perform E ev) k)"
| code_sequence: "app_code E m \<Longrightarrow> app_code E n \<Longrightarrow> app_code E (seqc m n)"
| code_handler: "app_code E m \<Longrightarrow> (\<And>e. app_code E (h e)) \<Longrightarrow> app_code E (try_except m h)"
| code_cleanup: "app_code E m \<Longrightarrow> app_code E n \<Longrightarrow> app_code E (try_finally m n)"
| code_loop: "(\<And>x :: nat. app_code E (f x)) \<Longrightarrow> app_code E (for_each xs f)"
| code_get: "(\<And>t. app_code E (k t)) \<Longrightarrow> app_code E (bindc tc_get k)"
| code_require: "(\<And>t. app_code E (k t)) \<Longrightarrow> app_code E (bindc (tc_require E) k)"
| code_using: "app_code E m \<Longrightarrow> app_code E (tc_using E t u m)"
| code_bypass: "app_code E m \<Longrightarrow> app_code E (admin_bypass E u m)"
| code_scoped: "app_code E (f args kwargs) \<Longrightarrow> app_code E (tenant_scoped E tenant_arg sig f args kwargs)"
| code_region: "app_code E m \<Longrightarrow> app_code E (specific_region r m)"
| code_query: "(\<And>qs. app_code E (k qs)) \<Longrightarrow> app_code E (bindc (get_queryset E m db) k)"
| code_save: "(\<And>obj. app_code E (save obj)) \<Longrightarrow> app_code E (mixin_save E save fk obj)"
| code_bulk_create: "(\<And>objs. app_code E (create objs)) \<Longrightarrow> app_code E (tm_bulk_create E create m objs)"
| code_bulk_update: "(\<And>objs. app_code E (update objs cols)) \<Longrightarrow> app_code E (tm_bulk_update E update m objs cols)"
| code_get_or_create: "(\<And>d l. app_code E (create' d l)) \<Longrightarrow> app_code E (tm_get_or_create E create' m dflt lookup)"
| code_update_or_create: "(\<And>d c l. app_code E (upd d c l)) \<Longrightarrow> app_code E (tm_update_or_create E upd m dflt create_dflt lookup)"
| code_unscoped_bulk: "(\<And>objs. app_code E (create objs)) \<Longrightarrow> app_code E (um_bulk_create create objs)"
| code_unscoped: "(\<And>obj. app_code E (save obj)) \<Longrightarrow> app_code E (um_create save build kw)"
| code_route: "(\<And>a. app_code E (k a)) \<Longrightarrow> app_code E (bindc (route E m) k)"
| code_require_region: "(\<And>a. app_code E (k a)) \<Longrightarrow> app_code E (bindc (require_region E t) k)"
| code_dispatch: "(\<And>hs. app_code E (send hs)) \<Longrightarrow> app_code E (apply_async E send headers)"
| code_invalidate: "app_code E (invalidate_cache arg)"
| code_clear_cache: "app_code E cache_clear"

lemma app_code_neutral: "app_code E m \<Longrightarrow> neutral E m"
  by (induction rule: app_code.induct) (simp_all add: tc_get_def neutral_intros)

section \<open>The jobs of a worker\<close>

definition builtin_resolver :: "env \<Rightarrow> (request \<Rightarrow> tenant option comp) \<Rightarrow> bool" where
  "builtin_resolver E r \<longleftrightarrow> r \<in> {subdomain_resolve E, header_resolve E, session_resolve E, explicit_resolve} \<or>
     (\<exists>decode. r = jwt_resolve E decode)"

lemma builtin_neutral: "builtin_resolver E r \<Longrightarrow> neutral E (r req)"
  by (auto simp: builtin_resolver_def intro: neutral_intros)

inductive serves :: "env \<Rightarrow> world \<Rightarrow> world \<Rightarrow> bool" for E where
  request: "(\<And>path name r. load path = Inr (name, r) \<Longrightarrow> builtin_resolver E r) \<Longrightarrow>
    (\<And>path e. app_code E (on_error req path e)) \<Longrightarrow> (\<And>attrs. app_code E (view req attrs)) \<Longrightarrow>
    serves E w (snd (middleware_call E load on_error (handle_inactive_tenant E) view req w))"
| task: "app_code E body \<Longrightarrow> serves E w (snd (tenant_task E current body w))"
| class_task: "app_code E body \<Longrightarrow> serves E w (snd (tenant_task_call E request_headers body w))"
| run_command: "app_code E (call command) \<Longrightarrow> serves E w (snd (boundary_run E call ident command w))"
| run_all_command: "app_code E (call command) \<Longrightarrow>
    serves E w (snd (boundary_run_all E call
      (\<lambda>q. bindc (perform E (ask q)) (\<lambda>answer. ret (pks answer))) start opts command w))"
| provision_command: "pv_env P = E \<Longrightarrow> (\<And>path hook t. pv_hook P path = Inr hook \<Longrightarrow> app_code E (hook t)) \<Longrightarrow>
    serves E w (snd (boundary_provision P provision_opts w))"
| deprovision_command: "dp_env D = E \<Longrightarrow> (\<And>path hook t. dp_hook D path = Inr hook \<Longrightarrow> app_code E (hook t)) \<Longrightarrow>
    serves E w (snd (boundary_deprovision D deprovision_opts w))"
| tenant_saved: "serves E w (snd (tenant_saved E t w))"
| tenant_deleted: "serves E w (snd (tenant_deleted E t w))"

inductive reachable :: "env \<Rightarrow> world \<Rightarrow> bool" for E where
  fresh: "reachable E fresh_world"
| job: "reachable E w \<Longrightarrow> serves E w w' \<Longrightarrow> reachable E w'"

text \<open>Every job is the run of a neutral computation.\<close>

lemma serves_neutral:
  assumes "serves E w w'"
  shows "ambient w' = ambient w \<and> (bounded_state E w \<longrightarrow> bounded_state E w')"
proof -
  have via: "ambient (snd (m w)) = ambient w \<and> (bounded_state E w \<longrightarrow> bounded_state E (snd (m w)))"
    if "neutral E m" for m :: "'a comp"
    using that by (auto simp: neutral_def keepsD stableD)
  have inactive: "neutral E (handle_inactive_tenant E req t e :: 'b response comp)" for req t e
    unfolding handle_inactive_tenant_def by (rule neutral_leaf)
  show ?thesis
    using assms
  proof cases
    case (provision_command P opts)
    show ?thesis unfolding provision_command(1)
      by (intro via neutral_boundary_provision [OF provision_command(2)] app_code_neutral provision_command(3))
  next
    case (deprovision_command D opts)
    show ?thesis unfolding deprovision_command(1)
      by (intro via neutral_boundary_deprovision [OF deprovision_command(2)] app_code_neutral deprovision_command(3))
  qed (auto intro!: via neutral_middleware_call neutral_tasks neutral_boundary_run neutral_boundary_run_all
        neutral_tenant_signals inactive intro: builtin_neutral app_code_neutral neutral_leaf neutral_bindc)
qed

lemma reachable_idle: "reachable E w \<Longrightarrow> ambient w = (None, None, None) \<and> bounded_state E w"
  by (induction rule: reachable.induct)
    (use serves_neutral in \<open>auto simp: ambient_def bounded_state_def cache_bounded_def dict_wf_def\<close>)

text \<open>
  C13: a worker never carries anything from one job into the next. Whatever requests, tasks and commands
  it has served, with whatever application code inside them, and whatever failed on the way (receivers,
  statements, transaction boundaries, the tenant table), between two jobs no tenant is active, no
  region is pinned and no admin bypass counts as active; the cache holds no key twice and at most
  \<open>BOUNDARY_RESOLVER_CACHE_SIZE\<close> entries, the warn-once set at most 10000 pairs; in strict mode a query
  there raises, and the router sends it to \<open>default\<close>.
\<close>
theorem worker_is_idle_between_jobs:
  assumes "reachable E w"
  shows "current_tenant w = None \<and> region_override w = None \<and> admin_bypass_depth w = None \<and>
    dict_wf (resolver_cache w) \<and> int (length (resolver_cache w)) \<le> max 0 (RESOLVER_CACHE_SIZE (conf E)) \<and>
    distinct (warned_regions w) \<and> length (warned_regions w) \<le> 10000 \<and>
    (STRICT_MODE (conf E) \<longrightarrow> (\<forall>m db. isl (fst (get_queryset E m db w)))) \<and>
    (\<forall>m. is_tenant_model m \<longrightarrow> fst (route E (Some m) w) = Inr ''default'')"
proof -
  from reachable_idle [OF assms] have idle: "current_tenant w = None" "region_override w = None"
    "admin_bypass_depth w = None" "bounded_state E w" by (simp_all add: ambient_def)
  have "isl (fst (get_queryset E m db w))" if "STRICT_MODE (conf E)" for m db
    using that idle(1) by (auto simp: get_queryset_def tc_get_def bindc_def seqc_def split: prod.splits sum.splits)
  moreover have "fst (route E (Some m) w) = Inr ''default''" if "is_tenant_model m" for m
    using route_by_tenant [OF idle(2) that, of E] idle(1) by (simp add: active_region_def regional_alias_def)
  ultimately show ?thesis
    using idle by (simp add: bounded_state_def cache_bounded_def max_unmatched_region_warnings_def)
qed

text \<open>A request whose view writes under another tenant, in a bypass, and then fails.\<close>

definition busy_view :: "request \<Rightarrow> (string, pyarg) dict \<Rightarrow> unit comp" where
  "busy_view req attrs =
     seqc (tc_using pg_env (Some (club 9 ''us'')) ''default''
             (admin_bypass pg_env ''default'' (bindc (perform pg_env (AppEvent ''report'')) (\<lambda>_. ret ()))))
       (raise (PyValueError ''boom''))"

lemma busy_view_code: "app_code pg_env (busy_view req attrs)"
  unfolding busy_view_def
  by (intro code_sequence code_using code_bypass code_effect code_return code_raise)

theorem worker_is_idle_between_jobs_witness:
  "current_tenant (snd (middleware_call pg_env explicit_only on_resolver_error (handle_inactive_tenant pg_env)
     busy_view (host_request ''a.example.com''\<lparr>r_boundary_tenant := Some (club 1 ''eu'')\<rparr>) fresh_world)) = None"
proof -
  have "serves pg_env fresh_world (snd (middleware_call pg_env explicit_only on_resolver_error
      (handle_inactive_tenant pg_env) busy_view
      (host_request ''a.example.com''\<lparr>r_boundary_tenant := Some (club 1 ''eu'')\<rparr>) fresh_world))"
    by (rule request)
      (auto simp: explicit_only_def builtin_resolver_def on_resolver_error_def busy_view_code intro: code_return)
  from worker_is_idle_between_jobs [OF job [OF fresh this]] show ?thesis by simp
qed

end
