(* ===== verification/Concurrent_Lookups.thy ===== *)
theory Concurrent_Lookups
  imports Apps "HOL-Library.Sublist"
begin

text \<open>
  Requests of one process that resolve their tenants at the same time (\<open>src/boundary/resolvers.py\<close> under
  threads). The cache is shared, and \<open>_cache_lock\<close> is held for one cache operation only: between the
  look-up that misses, the reads of the tenant model and the store, other threads look up, store and
  invalidate. A configuration is where each thread is and the shared state; a step lets one of them go on.
\<close>

section \<open>The threads\<close>

text \<open>What a caching resolver has read from a request, the key it forms and how it asks the model.\<close>

datatype cache_request = BySubdomain string | ByHeader string | BySession pyval

fun cache_key :: "cache_request \<Rightarrow> string" where
  "cache_key (BySubdomain slug) = ''subdomain:'' @ slug"
| "cache_key (ByHeader v) = ''header:'' @ v"
| "cache_key (BySession v) = ''session:'' @ py_str v"

fun cache_fetch :: "env \<Rightarrow> cache_request \<Rightarrow> tenant option comp" where
  "cache_fetch E (BySubdomain slug) = slug_fetch E slug"
| "cache_fetch E (ByHeader v) = seqc (checked_model E) (header_fetch E v)"
| "cache_fetch E (BySession v) = seqc (checked_model E)
     (except_when (\<lambda>e. is_does_not_exist e \<or> is_value_error e)
        (bindc (fetch_tenant E (ByPk v)) (\<lambda>t. ret (Some t))) (ret None))"

definition cached_lookup :: "env \<Rightarrow> cache_request \<Rightarrow> tenant option comp" where
  "cached_lookup E j = through_cache (cache_get E) (cache_set E) (cache_key j) (cache_fetch E j)"

text \<open>The look-ups a request may send.\<close>

fun lookups :: "env \<Rightarrow> cache_request \<Rightarrow> lookup list" where
  "lookups E (BySubdomain slug) = [ByField (SUBDOMAIN_FIELD (conf E)) slug]"
| "lookups E (ByHeader v) = (case parse_uuid v of Inl _ \<Rightarrow> [] | Inr u \<Rightarrow> [ByPk u]) @
     [ByPk (PStr v), ByField (SUBDOMAIN_FIELD (conf E)) v]"
| "lookups E (BySession v) = [ByPk v]"

text \<open>The three resolvers are that look-up, after they have read the request and logged the attempt.\<close>

lemma resolvers_look_up:
  "subdomain_resolve E req =
     bindc (liftc (r_host req)) (\<lambda>raw. case subdomain_slug (conf E) raw of
         None \<Rightarrow> ret None
       | Some slug \<Rightarrow> seqc (log LogDebug ''SubdomainResolver attempt'') (cached_lookup E (BySubdomain slug)))"
  "map_of (r_meta req) (header_meta_key (conf E)) = Some v \<Longrightarrow> v \<noteq> [] \<Longrightarrow>
     header_resolve E req = seqc (log LogDebug ''HeaderResolver attempt'') (cached_lookup E (ByHeader v))"
  "r_session req = Some session \<Longrightarrow> map_of session (SESSION_KEY (conf E)) = Some i \<Longrightarrow> truthy i \<Longrightarrow>
     session_resolve E req = seqc (log LogDebug ''SessionResolver attempt'') (cached_lookup E (BySession i))"
  by (simp_all add: subdomain_resolve_def header_resolve_def session_resolve_def cached_lookup_def slug_fetch_def
      cong: option.case_cong)

text \<open>Where a thread is in that look-up; \<open>Served\<close> once it has its answer, and free for the next request.\<close>

datatype thread =
    Idle
  | Missed cache_request
  | Fetched cache_request tenant
  | Served cache_request tenant

type_synonym config = "(nat \<Rightarrow> thread) \<times> world"

fun free :: "thread \<Rightarrow> bool" where
  "free Idle = True"
| "free (Served _ _) = True"
| "free _ = False"

text \<open>
  One step of the process. Between two reads of \<open>header_fetch\<close> the others may run, too. \<open>elsewhere\<close> is
  anything that leaves the cache alone: time passes, tenants are written, requests are logged.
\<close>

inductive cstep :: "env \<Rightarrow> config \<Rightarrow> config \<Rightarrow> bool" for E where
  hit: "free (threads i) \<Longrightarrow> cache_get E (cache_key j) w = (Inr (Some t), w') \<Longrightarrow>
    cstep E (threads, w) (threads(i := Served j t), w')"
| miss: "free (threads i) \<Longrightarrow> cache_get E (cache_key j) w = (Inr None, w') \<Longrightarrow>
    cstep E (threads, w) (threads(i := Missed j), w')"
| read: "threads i = Missed j \<Longrightarrow> lk \<in> set (lookups E j) \<Longrightarrow> fetch_tenant E lk w = (r, w') \<Longrightarrow>
    cstep E (threads, w) (threads(i := (case r of Inl _ \<Rightarrow> Missed j | Inr t \<Rightarrow> Fetched j t)), w')"
| give_up: "threads i = Missed j \<Longrightarrow> cstep E (threads, w) (threads(i := Idle), w)"
| store: "threads i = Fetched j t \<Longrightarrow> cache_set E (cache_key j) t w = (r, w') \<Longrightarrow>
    cstep E (threads, w) (threads(i := (case r of Inl _ \<Rightarrow> Idle | Inr _ \<Rightarrow> Served j t)), w')"
| saved: "cstep E (threads, w) (threads, snd (tenant_saved E t w))"
| deleted: "cstep E (threads, w) (threads, snd (tenant_deleted E t w))"
| invalidated: "cstep E (threads, w) (threads, snd (invalidate_cache arg w))"
| cleared: "cstep E (threads, w) (threads, snd (cache_clear w))"
| elsewhere: "resolver_cache w' = resolver_cache w \<Longrightarrow> suffix (trace w) (trace w') \<Longrightarrow>
    cstep E (threads, w) (threads, w')"

inductive concurrent :: "env \<Rightarrow> config \<Rightarrow> bool" for E where
  start: "concurrent E (\<lambda>_. Idle, fresh_world)"
| go: "concurrent E s \<Longrightarrow> cstep E s s' \<Longrightarrow> concurrent E s'"

lemma concurrent_steps: "(cstep E)\<^sup>*\<^sup>* s s' \<Longrightarrow> concurrent E s \<Longrightarrow> concurrent E s'"
  by (induction rule: rtranclp_induct) (auto intro: go)

section \<open>What every schedule keeps\<close>

text \<open>
  \<open>answered_before\<close>: at some moment up to \<open>h\<close> the tenant model answered a look-up that a request with this
  key sends with that very tenant. An entry of the cache was read that way, and stored later, at the
  time its stamp says; the threads that hold a tenant have read it that way themselves or from such an
  entry.
\<close>

definition answered_before :: "env \<Rightarrow> string \<Rightarrow> tenant \<Rightarrow> history \<Rightarrow> bool" where
  "answered_before E k t h \<longleftrightarrow> (\<exists>j lk h'. cache_key j = k \<and> lk \<in> set (lookups E j) \<and>
     suffix h' h \<and> tenant_get E h' lk = Inr t)"

definition sound_entry :: "env \<Rightarrow> history \<Rightarrow> string \<times> tenant \<times> real \<Rightarrow> bool" where
  "sound_entry E now e \<longleftrightarrow> (case e of (k, t, ts) \<Rightarrow>
     \<exists>h. suffix h now \<and> ts = clock E h \<and> answered_before E k t h)"

fun sound_thread :: "env \<Rightarrow> history \<Rightarrow> thread \<Rightarrow> bool" where
  "sound_thread E now (Fetched j t) = answered_before E (cache_key j) t now"
| "sound_thread E now (Served j t) = answered_before E (cache_key j) t now"
| "sound_thread E now _ = True"

definition sound_config :: "env \<Rightarrow> config \<Rightarrow> bool" where
  "sound_config E s \<longleftrightarrow> (\<forall>e \<in> set (resolver_cache (snd s)). sound_entry E (trace (snd s)) e) \<and>
     (\<forall>i. sound_thread E (trace (snd s)) (fst s i)) \<and> cache_bounded E (snd s)"

lemma answered_before_mono: "answered_before E k t h \<Longrightarrow> suffix h h' \<Longrightarrow> answered_before E k t h'"
  unfolding answered_before_def using suffix_order.trans by blast

lemma sound_entry_mono: "sound_entry E h e \<Longrightarrow> suffix h h' \<Longrightarrow> sound_entry E h' e"
  unfolding sound_entry_def by (auto intro: suffix_order.trans)

lemma sound_thread_mono: "sound_thread E h th \<Longrightarrow> suffix h h' \<Longrightarrow> sound_thread E h' th"
  by (cases th) (auto intro: answered_before_mono)

lemma sound_entry_read: "sound_entry E now (k, t, ts) \<Longrightarrow> answered_before E k t now"
  unfolding sound_entry_def by (auto intro: answered_before_mono)

text \<open>A step that only removes entries and lets time pass; it may move one thread to a sound place.\<close>

lemma sound_config_quiet:
  assumes "sound_config E (threads, w)" "set (resolver_cache w') \<subseteq> set (resolver_cache w)"
    and "suffix (trace w) (trace w')" "cache_bounded E w'"
  shows "sound_config E (threads, w')"
proof -
  have "\<forall>e \<in> set (resolver_cache w'). sound_entry E (trace w') e"
    using assms(1,2) sound_entry_mono [OF _ assms(3)] unfolding sound_config_def fst_conv snd_conv by blast
  moreover have "sound_thread E (trace w') (threads l)" for l
    using assms(1) sound_thread_mono [OF _ assms(3)] by (simp add: sound_config_def)
  ultimately show ?thesis using assms(4) by (simp add: sound_config_def)
qed

lemma sound_config_moved:
  "sound_config E (threads, w) \<Longrightarrow> sound_thread E (trace w) th \<Longrightarrow> sound_config E (threads(i := th), w)"
  by (simp add: sound_config_def)

definition pruned :: "env \<Rightarrow> world \<Rightarrow> world \<Rightarrow> bool" where
  "pruned E w w' \<longleftrightarrow>
     trace w' = trace w \<and> set (resolver_cache w') \<subseteq> set (resolver_cache w) \<and> cache_bounded E w'"

lemma sound_config_pruned: "sound_config E (threads, w) \<Longrightarrow> pruned E w w' \<Longrightarrow> sound_config E (threads, w')"
  unfolding pruned_def by (elim conjE) (rule sound_config_quiet, auto)

lemma cache_get_effect:
  assumes "cache_get E k w = (r, w')" "cache_bounded E w"
  shows "pruned E w w' \<and> (\<forall>t. r = Inr (Some t) \<longrightarrow> (\<exists>ts. (k, t, ts) \<in> set (resolver_cache w) \<and> fresh_entry E w ts))"
  using assms cache_bounded_filter [OF assms(2)]
  by (auto simp: pruned_def cache_get_run dict_del_def split: option.splits prod.splits if_splits dest: map_of_SomeD)

lemma invalidations_prune:
  assumes "cache_bounded E w"
  shows "pruned E w (snd (tenant_saved E t w))" "pruned E w (snd (tenant_deleted E t w))"
    and "pruned E w (snd (invalidate_cache arg w))" "pruned E w (snd (cache_clear w))"
  using assms cache_bounded_filter [OF assms]
  by (auto simp: pruned_def tenant_saved_def tenant_deleted_def invalidate_on_save_def invalidate_on_delete_def
      invalidate_cache_def cache_invalidate_def cache_clear_def Let_def cache_bounded_def dict_wf_def split: option.splits)

lemma read_effect:
  assumes "fetch_tenant E lk w = (r, w')"
  shows "resolver_cache w' = resolver_cache w \<and> suffix (trace w) (trace w') \<and>
    (\<forall>t. r = Inr t \<longrightarrow> tenant_get E (trace w) lk = Inr t)"
  using assms by (auto simp: fetch_tenant_def suffix_ConsI split: sum.splits)

lemma store_effect:
  assumes "cache_set E k t w = (r, w')" "sound_config E (threads, w)" "answered_before E k t (trace w)"
  shows "trace w' = trace w \<and> (\<forall>e \<in> set (resolver_cache w'). sound_entry E (trace w') e) \<and> cache_bounded E w'"
proof -
  from assms(2) have old: "\<forall>e \<in> set (resolver_cache w). sound_entry E (trace w) e" and b: "cache_bounded E w"
    by (simp_all add: sound_config_def)
  from cache_bounded_set [OF b, of k t] assms(1) have "cache_bounded E w'" by simp
  moreover have tr: "trace w' = trace w" using assms(1) by (auto simp: cache_set_run split: if_splits)
  moreover have "sound_entry E (trace w) (k, t, clock E (trace w))"
    using assms(3) by (auto simp: sound_entry_def)
  then have "sound_entry E (trace w) (k', t', ts')" if "(k', t', ts') \<in> set (resolver_cache w')" for k' t' ts'
    using that assms(1) old room_for_subset [of E k w]
    by (auto simp: cache_set_run split: if_splits dest!: dict_set_elem)
  ultimately show ?thesis by auto
qed

lemma sound_config_bounded: "sound_config E (threads, w) \<Longrightarrow> cache_bounded E w"
  by (simp add: sound_config_def)

lemma cstep_sound: "cstep E s s' \<Longrightarrow> sound_config E s \<Longrightarrow> sound_config E s'"
proof (induction rule: cstep.induct)
  case (hit threads i j w t w')
  note eff = cache_get_effect [OF hit.hyps(2) sound_config_bounded [OF hit.prems]]
  then obtain ts where "(cache_key j, t, ts) \<in> set (resolver_cache w)" by blast
  with hit.prems have "sound_entry E (trace w) (cache_key j, t, ts)" unfolding sound_config_def by auto
  then have "sound_thread E (trace w') (Served j t)" using eff sound_entry_read by (simp add: pruned_def)
  with eff show ?case by (intro sound_config_moved sound_config_pruned [OF hit.prems]) simp_all
next
  case (miss threads i j w w')
  note eff = cache_get_effect [OF miss.hyps(2) sound_config_bounded [OF miss.prems]]
  then show ?case by (intro sound_config_moved sound_config_pruned [OF miss.prems]) simp_all
next
  case (read threads i j lk w r w')
  note eff = read_effect [OF read.hyps(3)]
  have "sound_thread E (trace w') (case r of Inl _ \<Rightarrow> Missed j | Inr t \<Rightarrow> Fetched j t)"
    using eff read.hyps(2) by (auto simp: answered_before_def split: sum.splits)
  moreover have "cache_bounded E w'" using eff sound_config_bounded [OF read.prems] by (simp add: cache_bounded_def)
  ultimately show ?case using eff by (intro sound_config_moved sound_config_quiet [OF read.prems]) simp_all
next
  case (give_up threads i j w)
  then show ?case by (simp add: sound_config_moved)
next
  case (store threads i j t w r w')
  from store.prems have "sound_thread E (trace w) (threads i)" unfolding sound_config_def by simp
  with store.hyps(1) have t: "answered_before E (cache_key j) t (trace w)" by simp
  note eff = store_effect [OF store.hyps(2) store.prems t]
  then have "sound_config E (threads, w')" using store.prems unfolding sound_config_def fst_conv snd_conv by metis
  with t eff show ?case by (intro sound_config_moved) (auto split: sum.splits)
next
  case (saved threads w t)
  show ?case by (intro sound_config_pruned [OF saved] invalidations_prune sound_config_bounded [OF saved])
next
  case (deleted threads w t)
  show ?case by (intro sound_config_pruned [OF deleted] invalidations_prune sound_config_bounded [OF deleted])
next
  case (invalidated threads w arg)
  show ?case by (intro sound_config_pruned [OF invalidated] invalidations_prune sound_config_bounded [OF invalidated])
next
  case (cleared threads w)
  show ?case by (intro sound_config_pruned [OF cleared] invalidations_prune sound_config_bounded [OF cleared])
next
  case (elsewhere w' w threads)
  have "cache_bounded E w'" using elsewhere.hyps(1) sound_config_bounded [OF elsewhere.prems] by (simp add: cache_bounded_def)
  with elsewhere show ?case by (intro sound_config_quiet [OF elsewhere.prems]) simp_all
qed

lemma concurrent_sound: "concurrent E s \<Longrightarrow> sound_config E s"
proof (induction rule: concurrent.induct)
  case start
  then show ?case by (simp add: sound_config_def cache_bounded_def dict_wf_def)
next
  case (go s s')
  then show ?case by (blast intro: cstep_sound)
qed

section \<open>A resolver alone is a schedule\<close>

lemma read_step:
  assumes "lk \<in> set (lookups E j)" "fetch_tenant E lk w = (r, w')"
  shows "cstep E (threads(i := Missed j), w) (threads(i := (case r of Inl _ \<Rightarrow> Missed j | Inr t \<Rightarrow> Fetched j t)), w')"
  using read [of "threads(i := Missed j)" i j lk E w r w'] assms by simp

lemmas failed_read = read_step [where r = "Inl e" for e, simplified]
lemmas answered_read = read_step [where r = "Inr t" for t, simplified]

lemma fetch_schedule:
  assumes "cache_fetch E j w = (Inr (Some t), w')"
  shows "(cstep E)\<^sup>*\<^sup>* (threads(i := Missed j), w) (threads(i := Fetched j t), w')"
proof (cases j)
  case (BySubdomain slug)
  with assms have "fetch_tenant E (ByField (SUBDOMAIN_FIELD (conf E)) slug) w = (Inr t, w')"
    by (auto simp: slug_fetch_def checked_model_def except_when_def pyc_defs split: sum.splits prod.splits if_splits)
  from answered_read [OF _ this] BySubdomain show ?thesis by auto
next
  case (BySession v)
  with assms have "fetch_tenant E (ByPk v) w = (Inr t, w')"
    by (auto simp: checked_model_def except_when_def pyc_defs split: sum.splits prod.splits if_splits)
  from answered_read [OF _ this] BySession show ?thesis by auto
next
  case (ByHeader v)
  let ?s = "\<lambda>w. (threads(i := Missed j), w)"
  from assms ByHeader have hf: "header_fetch E v w = (Inr (Some t), w')"
    by (auto simp: checked_model_def pyc_defs split: sum.splits)
  have rest: "(cstep E)\<^sup>*\<^sup>* (?s w0) (threads(i := Fetched j t), w')"
    if "except_when (\<lambda>e. is_does_not_exist e \<or> is_value_error e \<or> is_type_error e)
          (bindc (fetch_tenant E (ByPk (PStr v))) (\<lambda>t. ret (Some t)))
          (except_when is_does_not_exist
             (bindc (fetch_tenant E (ByField (SUBDOMAIN_FIELD (conf E)) v)) (\<lambda>t. ret (Some t)))
             (ret None)) w0 = (Inr (Some t), w')" for w0
  proof (cases "fetch_tenant E (ByPk (PStr v)) w0")
    case (Pair r w1)
    show ?thesis
    proof (cases r)
      case (Inr t')
      with Pair that have "fetch_tenant E (ByPk (PStr v)) w0 = (Inr t, w')"
        by (auto simp: except_when_def pyc_defs)
      from answered_read [OF _ this] ByHeader show ?thesis by auto
    next
      case (Inl e)
      with Pair that have "fetch_tenant E (ByField (SUBDOMAIN_FIELD (conf E)) v) w1 = (Inr t, w')"
        by (auto simp: except_when_def pyc_defs split: sum.splits prod.splits if_splits)
      from answered_read [OF _ this] ByHeader
      have "cstep E (?s w1) (threads(i := Fetched j t), w')" by auto
      moreover from failed_read [OF _ Pair [unfolded Inl]] ByHeader have "cstep E (?s w0) (?s w1)" by auto
      ultimately show ?thesis by (meson converse_rtranclp_into_rtranclp rtranclp.rtrancl_refl)
    qed
  qed
  show ?thesis
  proof (cases "parse_uuid v")
    case (Inl e)
    with hf show ?thesis
      by (intro rest) (auto simp: header_fetch_def except_when_def pyc_defs split: if_splits)
  next
    case (Inr u)
    obtain r w1 where f: "fetch_tenant E (ByPk u) w = (r, w1)" by (cases "fetch_tenant E (ByPk u) w")
    show ?thesis
    proof (cases r)
      case (Inr t')
      with f \<open>parse_uuid v = Inr u\<close> hf have "fetch_tenant E (ByPk u) w = (Inr t, w')"
        by (auto simp: header_fetch_def except_when_def pyc_defs)
      from answered_read [OF _ this] ByHeader \<open>parse_uuid v = Inr u\<close> show ?thesis by auto
    next
      case (Inl e)
      with f \<open>parse_uuid v = Inr u\<close> hf have "(cstep E)\<^sup>*\<^sup>* (?s w1) (threads(i := Fetched j t), w')"
        by (intro rest) (auto simp: header_fetch_def except_when_def pyc_defs split: if_splits)
      moreover from failed_read [OF _ f [unfolded Inl]] ByHeader \<open>parse_uuid v = Inr u\<close>
      have "cstep E (?s w) (?s w1)" by auto
      ultimately show ?thesis by (rule converse_rtranclp_into_rtranclp [rotated])
    qed
  qed
qed

lemma lookup_schedule:
  assumes "cached_lookup E j w = (Inr (Some t), w')" "free (threads i)"
  shows "(cstep E)\<^sup>*\<^sup>* (threads, w) (threads(i := Served j t), w')"
proof -
  obtain c w1 where c: "cache_get E (cache_key j) w = (Inr c, w1)" using resolver_cache.get_total by (rule totalE)
  show ?thesis
  proof (cases c)
    case (Some t')
    with c assms(1) have "cache_get E (cache_key j) w = (Inr (Some t), w')"
      by (simp add: cached_lookup_def through_cache_def bindc_Inr)
    from hit [where threads = threads, OF assms(2) this] show ?thesis by auto
  next
    case None
    with c have "cached_lookup E j w = bindc (cache_fetch E j) (\<lambda>r. case r of None \<Rightarrow> ret None
        | Some t \<Rightarrow> seqc (cache_set E (cache_key j) t) (ret (Some t))) w1"
      by (simp add: cached_lookup_def through_cache_def bindc_Inr)
    with assms(1) obtain w2 where f: "cache_fetch E j w1 = (Inr (Some t), w2)"
      and s: "cache_set E (cache_key j) t w2 = (Inr (), w')"
      by (auto simp: bindc_def seqc_def split: prod.splits sum.splits option.splits)
    have "cstep E (threads, w) (threads(i := Missed j), w1)" using miss [where threads = threads, OF assms(2) c [unfolded None]] .
    moreover note fetch_schedule [OF f, of threads i]
    moreover have "cstep E (threads(i := Fetched j t), w2) (threads(i := Served j t), w')"
      using store [of "threads(i := Fetched j t)" i j t E w2 "Inr ()" w'] s by simp
    ultimately show ?thesis by (meson converse_rtranclp_into_rtranclp rtranclp.rtrancl_into_rtrancl)
  qed
qed

section \<open>What a request gets\<close>

text \<open>A look-up that asks for what the request carries; a session is keyed by the text of its value.\<close>

fun asks :: "env \<Rightarrow> cache_request \<Rightarrow> lookup \<Rightarrow> bool" where
  "asks E (BySession v) (ByPk a) \<longleftrightarrow> py_str a = py_str v"
| "asks E j lk \<longleftrightarrow> lk \<in> set (lookups E j)"

text \<open>The prefixes keep the resolvers apart.\<close>

lemma cache_key_eq:
  "cache_key j = cache_key j' \<longleftrightarrow>
     j = j' \<or> (\<exists>a b. j = BySession a \<and> j' = BySession b \<and> py_str a = py_str b)"
  by (cases j; cases j') auto

lemma read_for_request:
  assumes "answered_before E (cache_key j) t now"
  shows "\<exists>lk h. asks E j lk \<and> suffix h now \<and> tenant_get E h lk = Inr t"
proof -
  from assms obtain j' lk h where r: "cache_key j' = cache_key j" "lk \<in> set (lookups E j')"
    "suffix h now" "tenant_get E h lk = Inr t" by (auto simp: answered_before_def)
  from r(1,2) have "asks E j lk" by (cases j; cases j') (auto split: sum.splits)
  with r(3,4) show ?thesis by blast
qed

text \<open>
  C14: requests resolved at the same time never get each other's tenants out of the shared cache. Under
  every interleaving of the threads' cache operations, reads, stores and invalidations, and whatever
  happens to the tenants meanwhile, a thread is only ever served a tenant that the tenant model once
  returned for a look-up of what its own request carries; and what the cache would serve now was
  returned so and then stored at most \<open>BOUNDARY_RESOLVER_CACHE_TTL\<close> seconds ago. The cache keeps its size.
\<close>
theorem concurrent_answers_are_own_and_recent:
  assumes "concurrent E (threads, w)"
  shows "cache_bounded E w \<and>
    (\<forall>i j t. threads i = Served j t \<longrightarrow>
       (\<exists>lk h. asks E j lk \<and> suffix h (trace w) \<and> tenant_get E h lk = Inr t)) \<and>
    (\<forall>j t. fst (cache_get E (cache_key j) w) = Inr (Some t) \<longrightarrow>
       (\<exists>lk h stored. asks E j lk \<and> suffix h stored \<and> suffix stored (trace w) \<and> tenant_get E h lk = Inr t \<and>
          clock E (trace w) - clock E stored \<le> of_int (RESOLVER_CACHE_TTL (conf E))))"
proof (intro conjI allI impI)
  note sound = concurrent_sound [OF assms]
  then show b: "cache_bounded E w" by (rule sound_config_bounded)
  show "\<exists>lk h. asks E j lk \<and> suffix h (trace w) \<and> tenant_get E h lk = Inr t" if "threads i = Served j t" for i j t
  proof (rule read_for_request)
    from sound have "sound_thread E (trace w) (threads i)" by (simp add: sound_config_def)
    with that show "answered_before E (cache_key j) t (trace w)" by simp
  qed
  fix j t assume "fst (cache_get E (cache_key j) w) = Inr (Some t)"
  then obtain w' where "cache_get E (cache_key j) w = (Inr (Some t), w')" by (cases "cache_get E (cache_key j) w") auto
  from cache_get_effect [OF this b] obtain ts
    where e: "(cache_key j, t, ts) \<in> set (resolver_cache w)" "fresh_entry E w ts" by auto
  with sound have "sound_entry E (trace w) (cache_key j, t, ts)" unfolding sound_config_def by auto
  then obtain stored where st: "suffix stored (trace w)" "ts = clock E stored" "answered_before E (cache_key j) t stored"
    by (auto simp: sound_entry_def)
  from read_for_request [OF st(3)] st(1,2) e(2)
  show "\<exists>lk h stored. asks E j lk \<and> suffix h stored \<and> suffix stored (trace w) \<and> tenant_get E h lk = Inr t \<and>
      clock E (trace w) - clock E stored \<le> of_int (RESOLVER_CACHE_TTL (conf E))"
    unfolding fresh_entry_def by blast
qed

text \<open>
  C38: an invalidation does not reach a tenant that another thread has read and not stored yet. When the
  receiver of a deletion has run and no entry of the tenant is left, that thread still stores what it
  read, and the next request with the key is served the deleted tenant, which stays cached.
\<close>
theorem stale_store_survives_invalidation:
  assumes "threads i = Fetched j t" "free (threads l)" "0 < RESOLVER_CACHE_SIZE (conf E)" "0 \<le> RESOLVER_CACHE_TTL (conf E)"
    and "invalidation_sender (conf E) = Some path"
  shows "let w' = snd (tenant_deleted E t w) in cstep E (threads, w) (threads, w') \<and> (\<forall>k t'. cached w' k t' \<longrightarrow> t_pk t' \<noteq> t_pk t) \<and>
    (\<exists>threads' w''. (cstep E)\<^sup>*\<^sup>* (threads, w') (threads', w'') \<and> threads' l = Served j t \<and>
       cached w'' (cache_key j) t)"
proof -
  let ?w' = "snd (tenant_deleted E t w)"
  have gone: "\<forall>k t'. cached ?w' k t' \<longrightarrow> t_pk t' \<noteq> t_pk t"
    using assms(5) by (auto simp: tenant_deleted_cache cached_def)
  obtain w1 where w1: "cache_set E (cache_key j) t ?w' = (Inr (), w1)"
    using cache_set_total [OF assms(3)] by (rule totalE) auto
  then have m: "map_of (resolver_cache w1) (cache_key j) = Some (t, clock E (trace w1))"
    by (auto simp: cache_set_run split: if_splits)
  have "i \<noteq> l" using assms(1,2) by auto
  then have l: "free ((threads(i := Served j t)) l)" using assms(2) by simp
  have "cstep E (threads, ?w') (threads(i := Served j t), w1)"
    using store [where threads = threads, OF assms(1) w1] by simp
  moreover have "cache_get E (cache_key j) w1 = (Inr (Some t), w1)"
    using m assms(4) by (simp add: cache_get_run fresh_entry_def)
  from hit [where threads = "threads(i := Served j t)", OF l this]
  have "cstep E (threads(i := Served j t), w1) (threads(i := Served j t, l := Served j t), w1)" .
  ultimately have "(cstep E)\<^sup>*\<^sup>* (threads, ?w') (threads(i := Served j t, l := Served j t), w1)"
    by (rule converse_rtranclp_into_rtranclp [OF _ r_into_rtranclp])
  moreover have "cached w1 (cache_key j) t" using map_of_SomeD [OF m] by (auto simp: cached_def)
  ultimately have "\<exists>threads' w''. (cstep E)\<^sup>*\<^sup>* (threads, ?w') (threads', w'') \<and> threads' l = Served j t \<and>
      cached w'' (cache_key j) t"
    by (intro exI [of _ "threads(i := Served j t, l := Served j t)"] exI [of _ w1]) simp
  with gone deleted show ?thesis unfolding Let_def by blast
qed

text \<open>A model that finds one tenant until a deletion is in the history.\<close>

definition deleting_env :: env where
  "deleting_env = pg_env\<lparr>tenant_get := (\<lambda>h lk.
     if (AppEvent ''delete'', True) \<in> set h then Inl ObjectDoesNotExist else Inr (club 1 ''eu''))\<rparr>"

abbreviation (input) eu_request :: cache_request where
  "eu_request \<equiv> BySubdomain ''eu''"

lemma deleting_env_get: "tenant_get deleting_env h lk =
    (if (AppEvent ''delete'', True) \<in> set h then Inl ObjectDoesNotExist else Inr (club 1 ''eu''))"
  by (simp add: deleting_env_def)

lemma deleting_env_size: 
  "conf deleting_env = regional_settings"
  "RESOLVER_CACHE_SIZE regional_settings = 1000" "RESOLVER_CACHE_TTL regional_settings = 60"
  by (simp_all add: deleting_env_def RESOLVER_CACHE_SIZE_def RESOLVER_CACHE_TTL_def regional_settings_def default_settings_def)

text \<open>Thread 0 has read the tenant; then it is deleted in the database.\<close>

lemma deletion_race:
  "\<exists>w. concurrent deleting_env ((\<lambda>_. Idle)(0 := Fetched eu_request (club 1 ''eu'')), w) \<and>
     tenant_get deleting_env (trace w) (ByField (SUBDOMAIN_FIELD regional_settings) ''eu'') = Inl ObjectDoesNotExist"
proof -
  let ?E = deleting_env and ?lk = "ByField (SUBDOMAIN_FIELD regional_settings) ''eu''"
  have missed: "cstep ?E (\<lambda>_. Idle, fresh_world) ((\<lambda>_. Idle)(0 := Missed eu_request), fresh_world)"
    by (rule miss) (simp_all add: cache_get_run)
  have "fetch_tenant ?E ?lk fresh_world = (Inr (club 1 ''eu''), fresh_world\<lparr>trace := [(GetTenant ?lk, True)]\<rparr>)"
    by (simp add: fetch_tenant_def deleting_env_def)
  then have fetched: "cstep ?E ((\<lambda>_. Idle)(0 := Missed eu_request), fresh_world)
      ((\<lambda>_. Idle)(0 := Fetched eu_request (club 1 ''eu'')), fresh_world\<lparr>trace := [(GetTenant ?lk, True)]\<rparr>)"
    by (intro answered_read) (simp_all add: deleting_env_size)
  have gone: "cstep ?E (threads, fresh_world\<lparr>trace := [(GetTenant ?lk, True)]\<rparr>)
      (threads, fresh_world\<lparr>trace := [(AppEvent ''delete'', True), (GetTenant ?lk, True)]\<rparr>)" for threads
    by (rule elsewhere) (simp_all add: suffix_ConsI)
  note run = go [OF go [OF go [OF start missed] fetched] gone]
  show ?thesis by (rule exI, rule conjI, rule run) (simp add: deleting_env_def)
qed

theorem stale_store_survives_invalidation_witness:
  "\<exists>threads w w0. concurrent deleting_env (threads, w) \<and> threads 1 = Served (BySubdomain ''eu'') (club 1 ''eu'') \<and>
     tenant_get deleting_env (trace w0) (ByField (SUBDOMAIN_FIELD regional_settings) ''eu'') = Inl ObjectDoesNotExist \<and>
     (cstep deleting_env)\<^sup>*\<^sup>* ((\<lambda>_. Idle)(0 := Fetched (BySubdomain ''eu'') (club 1 ''eu'')), w0) (threads, w)"
proof -
  obtain w0 where w0: "concurrent deleting_env ((\<lambda>_. Idle)(0 := Fetched eu_request (club 1 ''eu'')), w0)"
    "tenant_get deleting_env (trace w0) (ByField (SUBDOMAIN_FIELD regional_settings) ''eu'') = Inl ObjectDoesNotExist"
    using deletion_race by blast
  have "invalidation_sender (conf deleting_env) = Some ''tenants.Club''"
    unfolding deleting_env_size by code_simp
  let ?threads = "(\<lambda>_. Idle)(0 := Fetched eu_request (club 1 ''eu'')) :: nat \<Rightarrow> thread"
    and ?w1 = "snd (tenant_deleted deleting_env (club 1 ''eu'') w0)"
  have "?threads 0 = Fetched eu_request (club 1 ''eu'')" "free (?threads 1)"
    "0 < RESOLVER_CACHE_SIZE (conf deleting_env)" "0 \<le> RESOLVER_CACHE_TTL (conf deleting_env)"
    by (simp_all add: deleting_env_size)
  note race = stale_store_survives_invalidation [OF this \<open>invalidation_sender _ = _\<close>, of w0, unfolded Let_def]
  then obtain threads' w'' where after: "threads' 1 = Served eu_request (club 1 ''eu'')"
    "(cstep deleting_env)\<^sup>*\<^sup>* (?threads, ?w1) (threads', w'')" by blast
  from race have "cstep deleting_env (?threads, w0) (?threads, ?w1)" by blast
  then have "(cstep deleting_env)\<^sup>*\<^sup>* (?threads, w0) (threads', w'')"
    using after(2) by (rule converse_rtranclp_into_rtranclp)
  with w0 after(1) concurrent_steps [OF this w0(1)] show ?thesis by blast
qed

theorem concurrent_answers_are_own_and_recent_witness:
  "\<exists>threads w lk h. concurrent deleting_env (threads, w) \<and> asks deleting_env (BySubdomain ''eu'') lk \<and>
     suffix h (trace w) \<and> tenant_get deleting_env h lk = Inr (club 1 ''eu'')"
proof -
  let ?E = deleting_env and ?lk = "ByField (SUBDOMAIN_FIELD regional_settings) ''eu''"
  have "resolve_tenant_model_setting regional_settings = Inr ''tenants.Club''" by code_simp
  then have "cached_lookup ?E eu_request fresh_world = (Inr (Some (club 1 ''eu'')),
      fresh_world\<lparr>trace := [(GetTenant ?lk, True)],
        resolver_cache := [(''subdomain:eu'', club 1 ''eu'', clock ?E [(GetTenant ?lk, True)])]\<rparr>)" (is "_ = (_, ?w)")
    by (simp add: cached_lookup_def through_cache_def slug_fetch_def checked_model_def except_when_def fetch_tenant_def
        try_except_def bindc_def seqc_def cache_get_run cache_set_run room_for_def deleting_env_size deleting_env_get)
  from lookup_schedule [OF this, of "\<lambda>_. Idle" 0]
  have "concurrent ?E ((\<lambda>_. Idle)(0 := Served eu_request (club 1 ''eu'')), ?w)"
    by (intro concurrent_steps [OF _ start]) simp
  with concurrent_answers_are_own_and_recent [OF this] show ?thesis by (metis fun_upd_same)
qed

end
