(* ===== verification/Migration_Ops.thy ===== *)
theory Migration_Ops
  imports Adoption
begin

text \<open>
  The migration operations (\<open>src/boundary/migrations_ops.py\<close>, with \<open>schema_compat.py\<close>): row-level
  security and its policies on a tenant table, and the adoption of a third-party app. A statement
  is a value with its SQL text; the state of a migration is the list of statements sent so far and
  the log lines. Django's schema editor, the router and PostgreSQL are the fields of an environment,
  functions of the statements sent before.
\<close>

section \<open>Statements\<close>

definition sql_string_literal :: "string \<Rightarrow> string" where
  "sql_string_literal value =
     [CHR 0x27] @ replace_all [CHR 0x27] [CHR 0x27, CHR 0x27] value @ [CHR 0x27]"

text \<open>\<open>CreateHelper pg_type session_var leakproof\<close>; \<open>Backfill\<close> carries its parameter apart.\<close>

datatype sql =
    CreateHelper string string bool
  | CreateIsolationPolicy string string
  | CreateBypassPolicy string string
  | DropPolicy string string
  | EnableRowSecurity string
  | ForceRowSecurity string
  | DisableRowSecurity string
  | NoForceRowSecurity string
  | AddTenantColumnDefault string string
  | AddTenantColumnNull string string
  | Backfill string pyval
  | SetTenantNotNull string
  | SetTenantDefault string
  | DropTenantColumn string
  | DropConstraint string string
  | AddUnique string string "string list"

definition quoted :: "string \<Rightarrow> string" where
  "quoted name = CHR 0x22 # name @ [CHR 0x22]"

definition nl :: "nat \<Rightarrow> string" where
  "nl indent = CHR 0x0A # replicate indent (CHR '' '')"

definition joined :: "string \<Rightarrow> string list \<Rightarrow> string" where
  "joined sep parts = (case parts of [] \<Rightarrow> [] | p # ps \<Rightarrow> p @ concat (map (\<lambda>q. sep @ q) ps))"

fun sql_text :: "sql \<Rightarrow> string" where
  "sql_text (CreateHelper pg_type var leakproof) =
     nl 12 @ ''CREATE OR REPLACE FUNCTION boundary_current_tenant_id()'' @
     nl 12 @ ''RETURNS '' @ pg_type @ '' AS $$'' @
     nl 12 @ ''BEGIN'' @
     nl 16 @ ''RETURN NULLIF('' @
     nl 20 @ ''current_setting('' @ sql_string_literal var @ '', true), '' @ sql_string_literal [] @
     nl 16 @ '')::'' @ pg_type @ '';'' @
     nl 12 @ ''EXCEPTION WHEN OTHERS THEN'' @
     nl 16 @ ''RETURN NULL;'' @
     nl 12 @ ''END;'' @
     nl 12 @ ''$$ LANGUAGE plpgsql STABLE'' @ (if leakproof then '' LEAKPROOF'' else []) @
     nl 8"
| "sql_text (CreateIsolationPolicy table column) =
     ''CREATE POLICY boundary_tenant_isolation ON '' @ quoted table @
     '' USING ('' @ column @ '' = boundary_current_tenant_id())'' @
     '' WITH CHECK ('' @ column @ '' = boundary_current_tenant_id())''"
| "sql_text (CreateBypassPolicy table flag) =
     ''CREATE POLICY boundary_admin_bypass ON '' @ quoted table @
     '' USING (current_setting('' @ sql_string_literal flag @ '', TRUE) = '' @ sql_string_literal ''true'' @ '')''"
| "sql_text (DropPolicy name table) = ''DROP POLICY IF EXISTS '' @ name @ '' ON '' @ quoted table"
| "sql_text (EnableRowSecurity table) = ''ALTER TABLE '' @ quoted table @ '' ENABLE ROW LEVEL SECURITY''"
| "sql_text (ForceRowSecurity table) = ''ALTER TABLE '' @ quoted table @ '' FORCE ROW LEVEL SECURITY''"
| "sql_text (DisableRowSecurity table) = ''ALTER TABLE '' @ quoted table @ '' DISABLE ROW LEVEL SECURITY''"
| "sql_text (NoForceRowSecurity table) = ''ALTER TABLE '' @ quoted table @ '' NO FORCE ROW LEVEL SECURITY''"
| "sql_text (AddTenantColumnDefault table pg_type) = ''ALTER TABLE '' @ quoted table @
     '' ADD COLUMN tenant_id '' @ pg_type @ '' NOT NULL DEFAULT boundary_current_tenant_id()''"
| "sql_text (AddTenantColumnNull table pg_type) = ''ALTER TABLE '' @ quoted table @
     '' ADD COLUMN tenant_id '' @ pg_type @ '' NULL''"
| "sql_text (Backfill table value) = ''UPDATE '' @ quoted table @ '' SET tenant_id = %s''"
| "sql_text (SetTenantNotNull table) =
     ''ALTER TABLE '' @ quoted table @ '' ALTER COLUMN tenant_id SET NOT NULL''"
| "sql_text (SetTenantDefault table) = ''ALTER TABLE '' @ quoted table @
     '' ALTER COLUMN tenant_id SET DEFAULT boundary_current_tenant_id()''"
| "sql_text (DropTenantColumn table) = ''ALTER TABLE '' @ quoted table @ '' DROP COLUMN tenant_id''"
| "sql_text (DropConstraint table name) =
     ''ALTER TABLE '' @ quoted table @ '' DROP CONSTRAINT '' @ quoted name"
| "sql_text (AddUnique table name columns) = ''ALTER TABLE '' @ quoted table @
     '' ADD CONSTRAINT '' @ quoted name @ '' UNIQUE ('' @ joined '', '' (map quoted columns) @ '')''"

section \<open>The migration environment and its state\<close>

text \<open>
  \<open>se_alias\<close>, \<open>se_vendor\<close>: the schema editor's connection. \<open>se_router\<close>: \<open>router.allow_migrate_model\<close>.
  \<open>se_live\<close>: the live app registry. \<open>se_read\<close>: what a catalogue query sees, or the exception it raises.
  \<open>se_execute\<close>: the outcome of a statement and the number of rows it affected. \<open>se_index_name\<close> and
  \<open>se_unique_sql\<close>: the schema editor's \<open>_create_index_name\<close> and \<open>_create_unique_sql\<close>.
\<close>

type_synonym statements = "(sql \<times> bool) list"

record skip_line =
  sk_operation :: string
  sk_model :: string
  sk_using :: string
  sk_vendor :: string

record migration =
  executed :: statements
  skip_log :: "skip_line list"

type_synonym 'a mig = "(migration, 'a) pyc"

record schema_env =
  se_conf :: django_settings
  se_alias :: string
  se_vendor :: string
  se_router :: "string \<Rightarrow> model_meta \<Rightarrow> bool"
  se_live :: apps_registry
  se_read :: "statements \<Rightarrow> exn + catalogue"
  se_execute :: "statements \<Rightarrow> sql \<Rightarrow> exn + nat"
  se_index_name :: "string \<Rightarrow> string list \<Rightarrow> string \<Rightarrow> string"
  se_unique_sql :: "model_meta \<Rightarrow> meta_field list \<Rightarrow> sql option"

definition execute_rows :: "schema_env \<Rightarrow> sql \<Rightarrow> nat mig" where
  "execute_rows E s w =
     (case se_execute E (executed w) s of
        Inl e \<Rightarrow> (Inl e, w\<lparr>executed := (s, False) # executed w\<rparr>)
      | Inr n \<Rightarrow> (Inr n, w\<lparr>executed := (s, True) # executed w\<rparr>))"

definition execute :: "schema_env \<Rightarrow> sql \<Rightarrow> unit mig" where
  "execute E s = seqc (execute_rows E s) (ret ())"

definition catalogue_now :: "schema_env \<Rightarrow> catalogue mig" where
  "catalogue_now E w = (se_read E (executed w), w)"

section \<open>Shared statements\<close>

definition create_tenant_id_helper :: "schema_env \<Rightarrow> string \<Rightarrow> unit mig" where
  "create_tenant_id_helper E pg_type =
     execute E (CreateHelper pg_type (DB_SESSION_VAR (se_conf E)) (FUNCTION_LEAKPROOF (se_conf E)))"

definition create_tenant_policies :: "schema_env \<Rightarrow> string \<Rightarrow> string \<Rightarrow> unit mig" where
  "create_tenant_policies E table tenant_column =
     seqc (execute E (CreateIsolationPolicy table tenant_column))
          (execute E (CreateBypassPolicy table (ADMIN_FLAG_VAR (se_conf E))))"

definition PG_TYPE_MAP :: "(string, string) dict" where
  "PG_TYPE_MAP = [(''uuid'', ''uuid''), (''integer'', ''bigint''), (''bigint'', ''bigint''),
     (''serial'', ''bigint''), (''bigserial'', ''bigint'')]"

definition MAX_IDENTIFIER_LENGTH :: nat where
  "MAX_IDENTIFIER_LENGTH = 63"

text \<open>\<open>_PG_TYPE_MAP.get(db_type)\<close>; a field may have no database type.\<close>

definition pg_type_of :: "string option \<Rightarrow> string option" where
  "pg_type_of db_type = (case db_type of None \<Rightarrow> None | Some t \<Rightarrow> map_of PG_TYPE_MAP t)"

definition detect_tenant_pg_type :: "string option \<Rightarrow> string" where
  "detect_tenant_pg_type db_type = (case pg_type_of db_type of None \<Rightarrow> ''bigint'' | Some t \<Rightarrow> t)"

text \<open>\<open>schema_compat.py\<close>: the two private methods of the schema editor, reached through one module.\<close>

definition index_name :: "schema_env \<Rightarrow> string \<Rightarrow> string list \<Rightarrow> string \<Rightarrow> string" where [simp]:
  "index_name E table columns suffix = se_index_name E table columns suffix"

definition unique_sql :: "schema_env \<Rightarrow> model_meta \<Rightarrow> meta_field list \<Rightarrow> sql option" where [simp]:
  "unique_sql E m fs = se_unique_sql E m fs"

definition composite_constraint_name ::
  "schema_env \<Rightarrow> string \<Rightarrow> string \<Rightarrow> string list \<Rightarrow> string" where
  "composite_constraint_name E table original columns =
     (let suffixed = original @ ''_tenant'' in
      if length suffixed \<le> MAX_IDENTIFIER_LENGTH then suffixed
      else index_name E table columns ''_tenant'')"

text \<open>\<open>s.strip().lower()\<close> on ASCII text\<close>

definition strip_lower :: "string \<Rightarrow> string" where
  "strip_lower s = lower (strip_chars [CHR '' '', CHR 0x09, CHR 0x0A, CHR 0x0B, CHR 0x0C, CHR 0x0D] s)"

definition pg_types_match :: "string \<Rightarrow> string \<Rightarrow> bool" where
  "pg_types_match found expected \<longleftrightarrow> strip_lower found = strip_lower expected"

section \<open>Gates\<close>

definition router_allows :: "schema_env \<Rightarrow> model_meta \<Rightarrow> bool" where
  "router_allows E m = se_router E (se_alias E) m"

definition postgresql_or_logged_noop :: "schema_env \<Rightarrow> string \<Rightarrow> model_meta \<Rightarrow> bool mig" where
  "postgresql_or_logged_noop E operation m =
     (if se_vendor E = ''postgresql'' then ret True
      else seqc (writec (\<lambda>w. w\<lparr>skip_log := \<lparr> sk_operation = operation, sk_model = model_label m,
             sk_using = se_alias E, sk_vendor = se_vendor E \<rparr> # skip_log w\<rparr>))
           (ret False))"

section \<open>EnableRLS, CreateTenantPolicy, DropTenantPolicy\<close>

record enable_rls =
  er_model_name :: string
  er_app_label :: "string option"

text \<open>\<open>CreateTenantPolicy\<close> and \<open>DropTenantPolicy\<close> have the same attributes.\<close>

record tenant_policy =
  tp_model_name :: string
  tp_tenant_column :: string
  tp_app_label :: "string option"

definition enable_rls_init :: "string \<Rightarrow> string option \<Rightarrow> enable_rls" where
  "enable_rls_init model_name app_label = \<lparr> er_model_name = model_name, er_app_label = app_label \<rparr>"

definition tenant_policy_init :: "string \<Rightarrow> string option \<Rightarrow> string option \<Rightarrow> tenant_policy" where
  "tenant_policy_init model_name tenant_column app_label =
     \<lparr> tp_model_name = model_name,
       tp_tenant_column = (case tenant_column of None \<Rightarrow> ''tenant_id''
                           | Some c \<Rightarrow> if c = [] then ''tenant_id'' else c),
       tp_app_label = app_label \<rparr>"

text \<open>\<open>self.app_label or app_label\<close>\<close>

definition target_app :: "string option \<Rightarrow> string \<Rightarrow> string" where
  "target_app override app_label =
     (case override of None \<Rightarrow> app_label | Some a \<Rightarrow> if a = [] then app_label else a)"

definition enable_rls_forwards ::
  "schema_env \<Rightarrow> enable_rls \<Rightarrow> string \<Rightarrow> apps_registry \<Rightarrow> apps_registry \<Rightarrow> unit mig" where
  "enable_rls_forwards E op app_label from_apps to_apps =
     bindc (liftc (model_at to_apps (target_app (er_app_label op) app_label) (er_model_name op))) (\<lambda>m.
       if \<not> router_allows E m then ret ()
       else bindc (postgresql_or_logged_noop E ''EnableRLS'' m) (\<lambda>pg.
         if \<not> pg then ret ()
         else seqc (execute E (EnableRowSecurity (mm_table m)))
                   (execute E (ForceRowSecurity (mm_table m)))))"

definition enable_rls_backwards ::
  "schema_env \<Rightarrow> enable_rls \<Rightarrow> string \<Rightarrow> apps_registry \<Rightarrow> apps_registry \<Rightarrow> unit mig" where
  "enable_rls_backwards E op app_label from_apps to_apps =
     bindc (liftc (model_at from_apps (target_app (er_app_label op) app_label) (er_model_name op))) (\<lambda>m.
       if \<not> router_allows E m then ret ()
       else bindc (postgresql_or_logged_noop E ''EnableRLS'' m) (\<lambda>pg.
         if \<not> pg then ret ()
         else seqc (execute E (DropPolicy ''boundary_tenant_isolation'' (mm_table m)))
              (seqc (execute E (DropPolicy ''boundary_admin_bypass'' (mm_table m)))
              (seqc (execute E (DisableRowSecurity (mm_table m)))
                    (execute E (NoForceRowSecurity (mm_table m)))))))"

definition removesuffix :: "string \<Rightarrow> string \<Rightarrow> string" where
  "removesuffix s suffix =
     (if suffix \<noteq> [] \<and> length suffix \<le> length s \<and> drop (length s - length suffix) s = suffix
      then take (length s - length suffix) s else s)"

definition detect_tenant_column_type :: "tenant_policy \<Rightarrow> model_meta \<Rightarrow> exn + string" where
  "detect_tenant_column_type op m =
     (case mm_get_field m (removesuffix (tp_tenant_column op) ''_id'') of
        Inl e \<Rightarrow> Inl e
      | Inr f \<Rightarrow>
          (case mf_related_pk f of
             None \<Rightarrow> Inl (PyAttributeError ''_meta'')
           | Some db_type \<Rightarrow> Inr (detect_tenant_pg_type db_type)))"

definition create_policy_forwards ::
  "schema_env \<Rightarrow> tenant_policy \<Rightarrow> string \<Rightarrow> apps_registry \<Rightarrow> apps_registry \<Rightarrow> unit mig" where
  "create_policy_forwards E op app_label from_apps to_apps =
     bindc (liftc (model_at to_apps (target_app (tp_app_label op) app_label) (tp_model_name op))) (\<lambda>m.
       if \<not> router_allows E m then ret ()
       else bindc (postgresql_or_logged_noop E ''CreateTenantPolicy'' m) (\<lambda>pg.
         if \<not> pg then ret ()
         else bindc (liftc (detect_tenant_column_type op m)) (\<lambda>pg_type.
           seqc (create_tenant_id_helper E pg_type)
                (create_tenant_policies E (mm_table m) (tp_tenant_column op)))))"

definition create_policy_backwards ::
  "schema_env \<Rightarrow> tenant_policy \<Rightarrow> string \<Rightarrow> apps_registry \<Rightarrow> apps_registry \<Rightarrow> unit mig" where
  "create_policy_backwards E op app_label from_apps to_apps =
     bindc (liftc (model_at from_apps (target_app (tp_app_label op) app_label) (tp_model_name op))) (\<lambda>m.
       if \<not> router_allows E m then ret ()
       else bindc (postgresql_or_logged_noop E ''CreateTenantPolicy'' m) (\<lambda>pg.
         if \<not> pg then ret ()
         else seqc (execute E (DropPolicy ''boundary_tenant_isolation'' (mm_table m)))
                   (execute E (DropPolicy ''boundary_admin_bypass'' (mm_table m)))))"

definition drop_policy_forwards ::
  "schema_env \<Rightarrow> tenant_policy \<Rightarrow> string \<Rightarrow> apps_registry \<Rightarrow> apps_registry \<Rightarrow> unit mig" where
  "drop_policy_forwards E op app_label from_apps to_apps =
     bindc (liftc (model_at to_apps (target_app (tp_app_label op) app_label) (tp_model_name op))) (\<lambda>m.
       if \<not> router_allows E m then ret ()
       else bindc (postgresql_or_logged_noop E ''DropTenantPolicy'' m) (\<lambda>pg.
         if \<not> pg then ret ()
         else seqc (execute E (DropPolicy ''boundary_tenant_isolation'' (mm_table m)))
                   (execute E (DropPolicy ''boundary_admin_bypass'' (mm_table m)))))"

definition drop_policy_backwards ::
  "schema_env \<Rightarrow> tenant_policy \<Rightarrow> string \<Rightarrow> apps_registry \<Rightarrow> apps_registry \<Rightarrow> unit mig" where
  "drop_policy_backwards E op app_label from_apps to_apps =
     bindc (liftc (model_at from_apps (target_app (tp_app_label op) app_label) (tp_model_name op))) (\<lambda>m.
       if \<not> router_allows E m then ret ()
       else bindc (postgresql_or_logged_noop E ''DropTenantPolicy'' m) (\<lambda>pg.
         if \<not> pg then ret ()
         else create_policy_forwards E
                (tenant_policy_init (tp_model_name op) (Some (tp_tenant_column op)) (tp_app_label op))
                app_label from_apps to_apps))"

section \<open>deconstruct()\<close>

datatype kwarg = KwStr string | KwStrs "string list" | KwValue pyval

definition enable_rls_deconstruct :: "enable_rls \<Rightarrow> string \<times> (string, kwarg) dict" where
  "enable_rls_deconstruct op =
     (let kw = [(''model_name'', KwStr (er_model_name op))];
          kw = (case er_app_label op of None \<Rightarrow> kw | Some a \<Rightarrow> dict_set ''app_label'' (KwStr a) kw)
      in (''EnableRLS'', kw))"

definition tenant_policy_deconstruct :: "string \<Rightarrow> tenant_policy \<Rightarrow> string \<times> (string, kwarg) dict" where
  "tenant_policy_deconstruct qualname op =
     (let kw = [(''model_name'', KwStr (tp_model_name op))];
          kw = (if tp_tenant_column op \<noteq> ''tenant_id''
                then dict_set ''tenant_column'' (KwStr (tp_tenant_column op)) kw else kw);
          kw = (case tp_app_label op of None \<Rightarrow> kw | Some a \<Rightarrow> dict_set ''app_label'' (KwStr a) kw)
      in (qualname, kw))"

text \<open>\<open>_target_description()\<close> and \<open>describe()\<close>\<close>

definition target_description :: "string option \<Rightarrow> string \<Rightarrow> string" where
  "target_description app_label model_name =
     (case app_label of None \<Rightarrow> model_name
      | Some a \<Rightarrow> if a = [] then model_name else a @ ''.'' @ model_name)"

definition enable_rls_describe :: "enable_rls \<Rightarrow> string" where
  "enable_rls_describe op =
     ''Enable Row Level Security on '' @ target_description (er_app_label op) (er_model_name op)"

definition create_policy_describe :: "tenant_policy \<Rightarrow> string" where
  "create_policy_describe op =
     ''Create tenant RLS policies on '' @ target_description (tp_app_label op) (tp_model_name op)"

definition drop_policy_describe :: "tenant_policy \<Rightarrow> string" where
  "drop_policy_describe op =
     ''Drop tenant RLS policies from '' @ target_description (tp_app_label op) (tp_model_name op)"

section \<open>AdoptTenantApp\<close>

record adoption_plan =
  pl_model :: model_meta
  pl_table :: string
  pl_label :: string
  pl_pg_type :: string
  pl_existing_rows :: nat
  pl_rewrites :: "(string \<times> string list) list"

record adopt_app =
  aa_app_label :: string
  aa_exclude :: "string list"
  aa_backfill :: pyval

definition adopt_app_init :: "string \<Rightarrow> string list \<Rightarrow> pyval \<Rightarrow> adopt_app" where
  "adopt_app_init app_label exclude backfill =
     \<lparr> aa_app_label = app_label, aa_exclude = exclude, aa_backfill = backfill \<rparr>"

abbreviation refuse :: "refusal \<Rightarrow> 'a mig" where
  "refuse r \<equiv> raise (AdoptionRefusedError r)"

definition router_allowed_models :: "schema_env \<Rightarrow> model_meta list \<Rightarrow> model_meta list" where
  "router_allowed_models E ms = filter (se_router E (se_alias E)) ms"

definition require_postgresql :: "schema_env \<Rightarrow> adopt_app \<Rightarrow> unit mig" where
  "require_postgresql E op =
     (if se_vendor E = ''postgresql'' then ret ()
      else refuse (WrongVendor (aa_app_label op) (se_alias E) (se_vendor E)))"

definition tenant_pg_type :: "schema_env \<Rightarrow> adopt_app \<Rightarrow> string mig" where
  "tenant_pg_type E op =
     bindc (liftc (get_tenant_model (model_path (se_live E)) (se_conf E))) (\<lambda>tm.
       case pg_type_of (mf_db_type (mm_pk tm)) of
         None \<Rightarrow> bindc (liftc (resolve_tenant_model_setting (se_conf E))) (\<lambda>path.
                   refuse (UnmappableTenantKey (aa_app_label op) path))
       | Some t \<Rightarrow> ret t)"

text \<open>The reasons \<open>_refuse_empty_set\<close> collects.\<close>

fun model_refusals ::
  "django_settings \<Rightarrow> apps_registry \<Rightarrow> string \<Rightarrow> model_meta list \<Rightarrow> exn + refusal list" where
  "model_refusals s live tlabel [] = Inr []"
| "model_refusals s live tlabel (m # ms) =
     (if mm_abstract m \<or> mm_proxy m then model_refusals s live tlabel ms
      else case refusal_reason_for_model s live (Some tlabel) m of
             Inl e \<Rightarrow> Inl e
           | Inr r \<Rightarrow> map_sum id (\<lambda>rs. case r of None \<Rightarrow> rs | Some x \<Rightarrow> x # rs)
               (model_refusals s live tlabel ms))"

definition refuse_empty_set :: "schema_env \<Rightarrow> adopt_app \<Rightarrow> apps_registry \<Rightarrow> unit mig" where
  "refuse_empty_set E op apps =
     bindc (liftc (tenant_model_label (se_conf E) (se_live E))) (\<lambda>tlabel.
     bindc (liftc (app_models apps (aa_app_label op))) (\<lambda>ms.
     bindc (liftc (model_refusals (se_conf E) (se_live E) tlabel ms)) (\<lambda>reasons.
       refuse (NoAdoptableModel (aa_app_label op) reasons))))"

text \<open>The two loops of \<open>_plan_unique_rewrites\<close>.\<close>

fun refuse_index_forms :: "string \<Rightarrow> string \<Rightarrow> unique_index list \<Rightarrow> exn + unit" where
  "refuse_index_forms table label [] = Inr ()"
| "refuse_index_forms table label (i # is) =
     (if ui_primary i \<or> ui_constraint i \<noteq> None then refuse_index_forms table label is
      else if ui_partial i then Inl (AdoptionRefusedError (PartialIndex table label (ui_name i)))
      else if ui_expression i then Inl (AdoptionRefusedError (ExpressionIndex table label (ui_name i)))
      else Inl (AdoptionRefusedError (BareUniqueIndex table label (ui_name i))))"

fun rewrites_of :: "string \<Rightarrow> string \<Rightarrow> unique_constraint list \<Rightarrow> exn + (string \<times> string list) list" where
  "rewrites_of table label [] = Inr []"
| "rewrites_of table label (c # cs) =
     (if uc_deferrable c then Inl (AdoptionRefusedError (DeferrableConstraint table label (uc_name c)))
      else if uc_fk_targeted c then Inl (AdoptionRefusedError (FkTargetedConstraint table label (uc_name c)))
      else map_sum id (\<lambda>rs. (uc_name c, ''tenant_id'' # uc_columns c) # rs) (rewrites_of table label cs))"

definition plan_unique_rewrites ::
  "schema_env \<Rightarrow> string \<Rightarrow> string \<Rightarrow> (string \<times> string list) list mig" where
  "plan_unique_rewrites E table label =
     bindc (catalogue_now E) (\<lambda>cat.
     seqc (liftc (refuse_index_forms table label (unique_indexes cat table)))
     (bindc (catalogue_now E) (\<lambda>cat'. liftc (rewrites_of table label (unique_constraints cat' table)))))"

definition validate_table :: "schema_env \<Rightarrow> adopt_app \<Rightarrow> model_meta \<Rightarrow> string \<Rightarrow> adoption_plan option mig" where
  "validate_table E op m pg_type =
     (let table = mm_table m; label = model_label m in
      bindc (catalogue_now E) (\<lambda>cat.
        case column_type cat table ''tenant_id'' of
          Some existing \<Rightarrow>
            if pg_types_match existing pg_type then ret None
            else refuse (WrongColumnType table label existing pg_type)
        | None \<Rightarrow>
            bindc (liftc (refusal_reason_for_model (se_conf E) (se_live E) None m)) (\<lambda>refusal.
              case refusal of
                Some r \<Rightarrow> refuse r
              | None \<Rightarrow>
                  bindc (catalogue_now E) (\<lambda>cat'.
                  bindc (liftc (row_count cat' table)) (\<lambda>existing_rows.
                    if existing_rows \<noteq> 0 \<and> aa_backfill op = PNone
                    then refuse (PopulatedWithoutBackfill table label existing_rows)
                    else bindc (plan_unique_rewrites E table label) (\<lambda>rewrites.
                      ret (Some \<lparr> pl_model = m, pl_table = table, pl_label = label, pl_pg_type = pg_type,
                        pl_existing_rows = existing_rows, pl_rewrites = rewrites \<rparr>)))))))"

text \<open>Pass one of \<open>database_forwards\<close>.\<close>

primrec plan_tables :: "schema_env \<Rightarrow> adopt_app \<Rightarrow> string \<Rightarrow> model_meta list \<Rightarrow> adoption_plan list mig" where
  "plan_tables E op pg_type [] = ret []"
| "plan_tables E op pg_type (m # ms) =
     bindc (validate_table E op m pg_type) (\<lambda>plan.
     bindc (plan_tables E op pg_type ms) (\<lambda>plans.
       ret (case plan of None \<Rightarrow> plans | Some p \<Rightarrow> p # plans)))"

definition add_tenant_column ::
  "schema_env \<Rightarrow> adopt_app \<Rightarrow> string \<Rightarrow> string \<Rightarrow> string \<Rightarrow> nat \<Rightarrow> unit mig" where
  "add_tenant_column E op table label pg_type existing_rows =
     (if existing_rows = 0 then execute E (AddTenantColumnDefault table pg_type)
      else seqc (execute E (AddTenantColumnNull table pg_type))
        (bindc (execute_rows E (Backfill table (aa_backfill op))) (\<lambda>updated.
           if updated \<noteq> existing_rows
           then refuse (BackfillMismatch table label updated existing_rows)
           else seqc (execute E (SetTenantNotNull table))
                     (execute E (SetTenantDefault table)))))"

definition apply_unique_rewrites ::
  "schema_env \<Rightarrow> string \<Rightarrow> (string \<times> string list) list \<Rightarrow> unit mig" where
  "apply_unique_rewrites E table rewrites =
     for_each rewrites (\<lambda>(name, columns).
       let new_name = composite_constraint_name E table name columns in
       seqc (execute E (DropConstraint table name))
            (execute E (AddUnique table new_name columns)))"

definition adopt_table :: "schema_env \<Rightarrow> adopt_app \<Rightarrow> adoption_plan \<Rightarrow> unit mig" where
  "adopt_table E op plan =
     (let table = pl_table plan in
      seqc (add_tenant_column E op table (pl_label plan) (pl_pg_type plan) (pl_existing_rows plan))
     (seqc (apply_unique_rewrites E table (pl_rewrites plan))
     (seqc (execute E (EnableRowSecurity table))
     (seqc (execute E (ForceRowSecurity table))
           (create_tenant_policies E table ''tenant_id'')))))"

definition adopt_app_forwards ::
  "schema_env \<Rightarrow> adopt_app \<Rightarrow> string \<Rightarrow> apps_registry \<Rightarrow> apps_registry \<Rightarrow> unit mig" where
  "adopt_app_forwards E op app_label from_apps to_apps =
     bindc (liftc (refusal_reason to_apps (aa_app_label op))) (\<lambda>refusal.
       case refusal of
         Some r \<Rightarrow> refuse r
       | None \<Rightarrow>
           bindc (liftc (adopted_models (se_conf E) (se_live E) to_apps (aa_app_label op) (aa_exclude op))) (\<lambda>models.
           seqc (if models = [] then refuse_empty_set E op to_apps else ret ())
             (let allowed = router_allowed_models E models in
              if allowed = [] then ret ()
              else seqc (require_postgresql E op)
                (bindc (tenant_pg_type E op) (\<lambda>pg_type.
                 bindc (plan_tables E op pg_type allowed) (\<lambda>plans.
                 seqc (if plans \<noteq> [] then create_tenant_id_helper E pg_type else ret ())
                      (for_each plans (adopt_table E op))))))))"

section \<open>Reversing an adoption\<close>

text \<open>\<open>any(getattr(constraint, attribute, None) for attribute in (...))\<close>\<close>

definition rewritten_form :: "unique_declaration \<Rightarrow> bool" where
  "rewritten_form d \<longleftrightarrow>
     \<not> (ud_condition d \<or> ud_expressions d \<or> ud_deferrable d \<or> ud_include d \<or> ud_opclasses d)"

fun get_fields_named :: "model_meta \<Rightarrow> string list \<Rightarrow> exn + meta_field list" where
  "get_fields_named m [] = Inr []"
| "get_fields_named m (n # ns) =
     (case mm_get_field m n of
        Inl e \<Rightarrow> Inl e
      | Inr f \<Rightarrow> map_sum id (\<lambda>fs. f # fs) (get_fields_named m ns))"

text \<open>
  The generator \<open>_historical_unique_column_sets\<close>: each element is the field list it yields, or the
  exception at which it stops.
\<close>

definition historical_unique_column_sets :: "model_meta \<Rightarrow> (exn + meta_field list) list" where
  "historical_unique_column_sets m =
     map (\<lambda>f. Inr [f]) (filter (\<lambda>f. mf_unique f \<and> \<not> mf_primary_key f) (mm_local_fields m)) @
     map (get_fields_named m) (mm_unique_together m) @
     concat (map (\<lambda>c. case c of
         OtherConstraint _ \<Rightarrow> []
       | UniqueConstraint d \<Rightarrow>
           if ud_fields d = [] then []
           else if \<not> rewritten_form d then []
           else [get_fields_named m (ud_fields d)]) (mm_constraints m))"

text \<open>One round of the loop: drop the first constraint on the wanted columns, then rebuild.\<close>

definition restore_column_set ::
  "schema_env \<Rightarrow> model_meta \<Rightarrow> string \<Rightarrow> unique_constraint list \<Rightarrow> meta_field list \<Rightarrow> unit mig" where
  "restore_column_set E m table live fs =
     (case find (\<lambda>c. uc_columns c = ''tenant_id'' # map mf_column fs) live of
        None \<Rightarrow> ret ()
      | Some c \<Rightarrow>
          seqc (execute E (DropConstraint table (uc_name c)))
            (case unique_sql E m fs of None \<Rightarrow> ret () | Some statement \<Rightarrow> execute E statement))"

definition restore_unique_constraints :: "schema_env \<Rightarrow> model_meta \<Rightarrow> string \<Rightarrow> unit mig" where
  "restore_unique_constraints E m table =
     bindc (catalogue_now E) (\<lambda>cat.
       for_each (historical_unique_column_sets m) (\<lambda>columns.
         bindc (liftc columns) (restore_column_set E m table (unique_constraints cat table))))"

definition unadopt_table :: "schema_env \<Rightarrow> model_meta \<Rightarrow> unit mig" where
  "unadopt_table E m =
     (let table = mm_table m in
      bindc (catalogue_now E) (\<lambda>cat.
        if column_type cat table ''tenant_id'' = None then ret ()
        else seqc (execute E (DropPolicy ''boundary_tenant_isolation'' table))
             (seqc (execute E (DropPolicy ''boundary_admin_bypass'' table))
             (seqc (execute E (DisableRowSecurity table))
             (seqc (execute E (NoForceRowSecurity table))
             (seqc (restore_unique_constraints E m table)
                   (execute E (DropTenantColumn table))))))))"

definition adopt_app_backwards ::
  "schema_env \<Rightarrow> adopt_app \<Rightarrow> string \<Rightarrow> apps_registry \<Rightarrow> apps_registry \<Rightarrow> unit mig" where
  "adopt_app_backwards E op app_label from_apps to_apps =
     bindc (liftc (adopted_models (se_conf E) (se_live E) from_apps (aa_app_label op) (aa_exclude op))) (\<lambda>models.
       let allowed = router_allowed_models E models in
       if allowed = [] then ret ()
       else seqc (require_postgresql E op) (for_each allowed (unadopt_table E)))"

definition adopt_app_describe :: "adopt_app \<Rightarrow> string" where
  "adopt_app_describe op =
     ''Adopt every concrete table of '' @ [CHR 0x27] @ aa_app_label op @ [CHR 0x27] @ '' into tenant scope '' @
     ''(adds a tenant_id column, per-tenant unique constraints and RLS policies). '' @
     ''Reversing this operation drops the tenant_id column and therefore '' @
     ''destroys the tenant assignment of every row on those tables.''"

definition adopt_app_deconstruct :: "adopt_app \<Rightarrow> string \<times> (string, kwarg) dict" where
  "adopt_app_deconstruct op =
     (let kw = [(''app_label'', KwStr (aa_app_label op))];
          kw = (if aa_exclude op \<noteq> [] then dict_set ''exclude'' (KwStrs (aa_exclude op)) kw else kw);
          kw = (if aa_backfill op \<noteq> PNone then dict_set ''backfill_tenant'' (KwValue (aa_backfill op)) kw else kw)
      in (''AdoptTenantApp'', kw))"

section \<open>What a migration step sends\<close>

text \<open>Which exceptions a computation can raise.\<close>

definition raises_only :: "(exn \<Rightarrow> bool) \<Rightarrow> ('w, 'a) pyc \<Rightarrow> bool" where
  "raises_only P m \<longleftrightarrow> (\<forall>w e w'. m w = (Inl e, w') \<longrightarrow> P e)"

named_theorems raises_intros \<open>rules bounding the exceptions a computation raises\<close>
named_theorems issues_intros \<open>rules listing the statements a successful computation sends\<close>

lemma raises_ret [raises_intros]: "raises_only P (ret x)"
  by (simp add: raises_only_def)

lemma raises_raise [raises_intros]: "P e \<Longrightarrow> raises_only P (raise e)"
  by (simp add: raises_only_def)

lemma raises_bindc [raises_intros]: "raises_only P m \<Longrightarrow> (\<And>x. raises_only P (k x)) \<Longrightarrow> raises_only P (bindc m k)"
  by (auto simp: raises_only_def bindc_def split: prod.splits sum.splits)

lemma raises_seqc [raises_intros]: "raises_only P m \<Longrightarrow> raises_only P k \<Longrightarrow> raises_only P (seqc m k)"
  unfolding seqc_def by (rule raises_bindc)

lemma raises_if [raises_intros]:
  "(b \<Longrightarrow> raises_only P m) \<Longrightarrow> (\<not> b \<Longrightarrow> raises_only P n) \<Longrightarrow> raises_only P (if b then m else n)"
  by simp

lemma raises_for_each [raises_intros]: "(\<And>x. raises_only P (g x)) \<Longrightarrow> raises_only P (for_each xs g)"
  by (induction xs) (auto intro: raises_intros)

lemma raises_execute_rows [raises_intros]:
  "(\<And>tr e. se_execute E tr s = Inl e \<Longrightarrow> P e) \<Longrightarrow> raises_only P (execute_rows E s)"
  by (auto simp: raises_only_def execute_rows_def split: sum.splits)

lemma raises_execute [raises_intros]:
  "(\<And>tr e. se_execute E tr s = Inl e \<Longrightarrow> P e) \<Longrightarrow> raises_only P (execute E s)"
  unfolding execute_def by (intro raises_intros) auto

text \<open>A successful run sends exactly these statements, in this order.\<close>

definition sent :: "sql list \<Rightarrow> statements" where
  "sent ss = rev (map (\<lambda>s. (s, True)) ss)"

lemma sent_simps [simp]: "sent [] = []" "sent (s # ss) = sent ss @ [(s, True)]" "sent (ss @ ss') = sent ss' @ sent ss"
  by (simp_all add: sent_def)

definition issues :: "sql list \<Rightarrow> 'a mig \<Rightarrow> bool" where
  "issues ss m \<longleftrightarrow> (\<forall>w r w'. m w = (Inr r, w') \<longrightarrow> executed w' = sent ss @ executed w)"

lemma issuesD: "issues ss m \<Longrightarrow> m w = (Inr r, w') \<Longrightarrow> executed w' = sent ss @ executed w"
  by (simp add: issues_def)

lemma issues_ret [issues_intros]: "issues [] (ret x)"
  by (simp add: issues_def)

lemma issues_raise [issues_intros]: "issues ss (raise e)"
  by (simp add: issues_def)

lemma issues_bindc: "issues ss m \<Longrightarrow> (\<And>x. issues ss' (k x)) \<Longrightarrow> issues (ss @ ss') (bindc m k)"
  unfolding issues_def bindc_def by (fastforce split: prod.splits sum.splits)

lemma issues_seqc [issues_intros]: "issues ss m \<Longrightarrow> issues ss' k \<Longrightarrow> issues (ss @ ss') (seqc m k)"
  unfolding seqc_def by (rule issues_bindc)

lemma issues_execute_rows [issues_intros]: "issues [s] (execute_rows E s)"
  by (auto simp: issues_def execute_rows_def split: sum.splits)

lemma issues_execute [issues_intros]: "issues [s] (execute E s)"
  by (auto simp: issues_def execute_def seqc_def bindc_def execute_rows_def split: sum.splits)

lemma issues_for_each [issues_intros]:
  "(\<And>x. issues (ss x) (g x)) \<Longrightarrow> issues (concat (map ss xs)) (for_each xs g)"
  by (induction xs) (auto intro: issues_intros)

lemma issues_eq: "issues ss m \<Longrightarrow> ss = ss' \<Longrightarrow> issues ss' m"
  by simp

text \<open>A read of the catalogue leaves the migration as it was.\<close>

lemma keeps_catalogue_now [keeps_intros]: "keeps f (catalogue_now E)"
  by (simp add: keeps_def catalogue_now_def)

lemma keeps_refuse_empty_set [keeps_intros]: "keeps f (refuse_empty_set E op apps)"
  unfolding refuse_empty_set_def by (intro keeps_intros)

lemma keeps_require_postgresql [keeps_intros]: "keeps f (require_postgresql E op)"
  unfolding require_postgresql_def by (intro keeps_intros)

lemma keeps_tenant_pg_type [keeps_intros]: "keeps f (tenant_pg_type E op)"
  unfolding tenant_pg_type_def by (intro keeps_intros)

lemma keeps_plan_unique_rewrites [keeps_intros]: "keeps f (plan_unique_rewrites E table label)"
  unfolding plan_unique_rewrites_def by (intro keeps_intros)

lemma keeps_validate_table [keeps_intros]: "keeps f (validate_table E op m pg_type)"
  unfolding validate_table_def Let_def by (intro keeps_intros)

lemma keeps_plan_tables [keeps_intros]: "keeps f (plan_tables E op pg_type ms)"
  by (induction ms) (auto intro!: keeps_intros simp del: bindc_ret)

section \<open>AdoptTenantApp in two passes\<close>

lemma bindc_assoc: "bindc (bindc m k) h = bindc m (\<lambda>x. bindc (k x) h)"
  by (rule ext) (auto simp: bindc_def split: prod.splits sum.splits)

lemma bindc_if: "bindc (if b then m else n) h = (if b then bindc m h else bindc n h)"
  by simp

lemma bindc_case_option:
  "bindc (case x of None \<Rightarrow> m | Some y \<Rightarrow> n y) h = (case x of None \<Rightarrow> bindc m h | Some y \<Rightarrow> bindc (n y) h)"
  by (cases x) simp_all

lemma ret_Pair: "ret x = Pair (Inr x)"
  by (rule ext) simp

lemma ret_unit: "ret = (\<lambda>_ :: unit. Pair (Inr ()))"
  by (intro ext) simp

lemma bindc_Pair: "bindc (Pair (Inr x)) k = k x"
  by (rule ext) (simp add: bindc_def)

text \<open>Everything up to the first statement: the type and the plans, \<open>None\<close> when the router leaves no table.\<close>

definition prepare :: "schema_env \<Rightarrow> adopt_app \<Rightarrow> apps_registry \<Rightarrow> (string \<times> adoption_plan list) option mig" where
  "prepare E op to_apps =
     bindc (liftc (refusal_reason to_apps (aa_app_label op))) (\<lambda>refusal.
       case refusal of
         Some r \<Rightarrow> refuse r
       | None \<Rightarrow>
           bindc (liftc (adopted_models (se_conf E) (se_live E) to_apps (aa_app_label op) (aa_exclude op))) (\<lambda>models.
           seqc (if models = [] then refuse_empty_set E op to_apps else ret ())
             (let allowed = router_allowed_models E models in
              if allowed = [] then ret None
              else seqc (require_postgresql E op)
                (bindc (tenant_pg_type E op) (\<lambda>pg_type.
                 bindc (plan_tables E op pg_type allowed) (\<lambda>plans. ret (Some (pg_type, plans))))))))"

definition carry_out :: "schema_env \<Rightarrow> adopt_app \<Rightarrow> (string \<times> adoption_plan list) option \<Rightarrow> unit mig" where
  "carry_out E op prepared =
     (case prepared of
        None \<Rightarrow> ret ()
      | Some (pg_type, plans) \<Rightarrow>
          seqc (if plans \<noteq> [] then create_tenant_id_helper E pg_type else ret ())
               (for_each plans (adopt_table E op)))"

lemma adopt_app_forwards_passes:
  "adopt_app_forwards E op app_label from_apps to_apps = bindc (prepare E op to_apps) (carry_out E op)"
  by (simp add: adopt_app_forwards_def prepare_def carry_out_def bindc_assoc seqc_def Let_def bindc_if
      bindc_case_option router_allowed_models_def ret_Pair bindc_Pair ret_unit cong: if_cong option.case_cong)

lemma keeps_prepare: "keeps f (prepare E op to_apps)"
  unfolding prepare_def Let_def by (intro keeps_intros)

lemma raises_case_prod [raises_intros]:
  "(\<And>a b. raises_only P (f a b)) \<Longrightarrow> raises_only P (case x of (a, b) \<Rightarrow> f a b)"
  by (cases x) simp

text \<open>Once statements are sent, the only refusal left is that of the backfill.\<close>

lemma raises_carry_out:
  "raises_only (\<lambda>e. (\<exists>t l n m. e = AdoptionRefusedError (BackfillMismatch t l n m)) \<or>
     (\<exists>tr s. se_execute E tr s = Inl e)) (carry_out E op prepared)"
proof (cases prepared)
  case None
  then show ?thesis by (simp add: carry_out_def raises_only_def)
next
  case (Some pr)
  then show ?thesis
    unfolding carry_out_def create_tenant_id_helper_def adopt_table_def add_tenant_column_def
      apply_unique_rewrites_def create_tenant_policies_def Let_def
    by (simp del: bindc_ret seqc_ret) (intro raises_intros; blast)
qed

section \<open>What the statements do to a table\<close>

text \<open>
  The documented effect of the statements on one table, for the specifications: the tenant column
  (its type, its constraints, and the value carried by the rows that were there before), the unique
  constraints by name, and row-level security. Under forced row-level security an \<open>UPDATE\<close> by a role
  that no policy admits changes no row.
\<close>

record tenant_column =
  tc_type :: string
  tc_not_null :: bool
  tc_default :: bool
  tc_rows :: "pyval option"

record table_schema =
  ts_column :: "tenant_column option"
  ts_uniques :: "(string \<times> string list) list"
  ts_enabled :: bool
  ts_forced :: bool
  ts_policies :: "string set"

definition on_column :: "(tenant_column \<Rightarrow> tenant_column) \<Rightarrow> table_schema \<Rightarrow> table_schema" where
  "on_column f ts = ts\<lparr>ts_column := map_option f (ts_column ts)\<rparr>"

fun sql_effect :: "sql \<Rightarrow> table_schema \<Rightarrow> table_schema" where
  "sql_effect (CreateHelper _ _ _) ts = ts"
| "sql_effect (CreateIsolationPolicy _ _) ts = ts\<lparr>ts_policies := insert ''boundary_tenant_isolation'' (ts_policies ts)\<rparr>"
| "sql_effect (CreateBypassPolicy _ _) ts = ts\<lparr>ts_policies := insert ''boundary_admin_bypass'' (ts_policies ts)\<rparr>"
| "sql_effect (DropPolicy name _) ts = ts\<lparr>ts_policies := ts_policies ts - {name}\<rparr>"
| "sql_effect (EnableRowSecurity _) ts = ts\<lparr>ts_enabled := True\<rparr>"
| "sql_effect (ForceRowSecurity _) ts = ts\<lparr>ts_forced := True\<rparr>"
| "sql_effect (DisableRowSecurity _) ts = ts\<lparr>ts_enabled := False\<rparr>"
| "sql_effect (NoForceRowSecurity _) ts = ts\<lparr>ts_forced := False\<rparr>"
| "sql_effect (AddTenantColumnDefault _ ty) ts = ts\<lparr>ts_column :=
     Some \<lparr> tc_type = ty, tc_not_null = True, tc_default = True, tc_rows = None \<rparr>\<rparr>"
| "sql_effect (AddTenantColumnNull _ ty) ts = ts\<lparr>ts_column :=
     Some \<lparr> tc_type = ty, tc_not_null = False, tc_default = False, tc_rows = None \<rparr>\<rparr>"
| "sql_effect (Backfill _ v) ts =
     (if ts_enabled ts \<and> ts_forced ts then ts else on_column (\<lambda>c. c\<lparr>tc_rows := Some v\<rparr>) ts)"
| "sql_effect (SetTenantNotNull _) ts = on_column (\<lambda>c. c\<lparr>tc_not_null := True\<rparr>) ts"
| "sql_effect (SetTenantDefault _) ts = on_column (\<lambda>c. c\<lparr>tc_default := True\<rparr>) ts"
| "sql_effect (DropTenantColumn _) ts = ts\<lparr>ts_column := None,
     ts_uniques := filter (\<lambda>u. ''tenant_id'' \<notin> set (snd u)) (ts_uniques ts)\<rparr>"
| "sql_effect (DropConstraint _ name) ts =
     ts\<lparr>ts_uniques := filter (\<lambda>u. fst u \<noteq> name) (ts_uniques ts)\<rparr>"
| "sql_effect (AddUnique _ name columns) ts = ts\<lparr>ts_uniques := ts_uniques ts @ [(name, columns)]\<rparr>"

fun sql_table :: "sql \<Rightarrow> string option" where
  "sql_table (CreateHelper _ _ _) = None"
| "sql_table (CreateIsolationPolicy t _) = Some t"
| "sql_table (CreateBypassPolicy t _) = Some t"
| "sql_table (DropPolicy _ t) = Some t"
| "sql_table (EnableRowSecurity t) = Some t"
| "sql_table (ForceRowSecurity t) = Some t"
| "sql_table (DisableRowSecurity t) = Some t"
| "sql_table (NoForceRowSecurity t) = Some t"
| "sql_table (AddTenantColumnDefault t _) = Some t"
| "sql_table (AddTenantColumnNull t _) = Some t"
| "sql_table (Backfill t _) = Some t"
| "sql_table (SetTenantNotNull t) = Some t"
| "sql_table (SetTenantDefault t) = Some t"
| "sql_table (DropTenantColumn t) = Some t"
| "sql_table (DropConstraint t _) = Some t"
| "sql_table (AddUnique t _ _) = Some t"

definition schema_after :: "string \<Rightarrow> sql list \<Rightarrow> table_schema \<Rightarrow> table_schema" where
  "schema_after table ss ts = fold sql_effect (filter (\<lambda>s. sql_table s = Some table) ss) ts"

lemma schema_after_append [simp]: "schema_after t (ss @ ss') ts = schema_after t ss' (schema_after t ss ts)"
  by (simp add: schema_after_def)

lemma schema_after_Nil [simp]: "schema_after t [] ts = ts"
  by (simp add: schema_after_def)

lemma schema_after_Cons [simp]: "schema_after t (s # ss) ts =
    schema_after t ss (if sql_table s = Some t then sql_effect s ts else ts)"
  by (simp add: schema_after_def)

section \<open>An adopted table\<close>

definition adopt_statements :: "schema_env \<Rightarrow> adopt_app \<Rightarrow> adoption_plan \<Rightarrow> sql list" where
  "adopt_statements E op plan =
     (let t = pl_table plan in
      (if pl_existing_rows plan = 0 then [AddTenantColumnDefault t (pl_pg_type plan)]
       else [AddTenantColumnNull t (pl_pg_type plan), Backfill t (aa_backfill op),
             SetTenantNotNull t, SetTenantDefault t]) @
      concat (map (\<lambda>(n, cols). [DropConstraint t n, AddUnique t (composite_constraint_name E t n cols) cols])
        (pl_rewrites plan)) @
      [EnableRowSecurity t, ForceRowSecurity t, CreateIsolationPolicy t ''tenant_id'',
       CreateBypassPolicy t (ADMIN_FLAG_VAR (se_conf E))])"

lemma issues_add_tenant_column:
  "issues (if n = 0 then [AddTenantColumnDefault t ty]
     else [AddTenantColumnNull t ty, Backfill t (aa_backfill op), SetTenantNotNull t, SetTenantDefault t])
   (add_tenant_column E op t label ty n)"
proof (cases "n = 0")
  case False
  have "issues ([Backfill t (aa_backfill op)] @ [SetTenantNotNull t, SetTenantDefault t])
    (bindc (execute_rows E (Backfill t (aa_backfill op))) (\<lambda>updated.
           if updated \<noteq> n
           then refuse (BackfillMismatch t label updated n)
           else seqc (execute E (SetTenantNotNull t))
                     (execute E (SetTenantDefault t))))"
  proof (rule issues_bindc [OF issues_execute_rows])
    fix updated
    show "issues [SetTenantNotNull t, SetTenantDefault t]
        (if updated \<noteq> n then refuse (BackfillMismatch t label updated n)
         else seqc (execute E (SetTenantNotNull t)) (execute E (SetTenantDefault t)))"
      using issues_seqc [OF issues_execute issues_execute, of "SetTenantNotNull t" "SetTenantDefault t" E E]
      by (simp add: issues_raise)
  qed
  from issues_seqc [OF issues_execute [of "AddTenantColumnNull t ty" E] this] False show ?thesis
    by (simp add: add_tenant_column_def)
qed (simp add: add_tenant_column_def issues_execute)

lemma issues_apply_unique_rewrites:
  "issues (concat (map (\<lambda>(n, cols). [DropConstraint t n, AddUnique t (composite_constraint_name E t n cols) cols]) rws))
     (apply_unique_rewrites E t rws)"
  unfolding apply_unique_rewrites_def
proof (rule issues_for_each)
  fix x :: "string \<times> string list"
  obtain n cols where "x = (n, cols)" by (cases x)
  with issues_seqc [OF issues_execute issues_execute, of "DropConstraint t n"
      "AddUnique t (composite_constraint_name E t n cols) cols" E E]
  show "issues (case x of (n, cols) \<Rightarrow>
      [DropConstraint t n, AddUnique t (composite_constraint_name E t n cols) cols])
      (case x of (name, columns) \<Rightarrow>
        let new_name = composite_constraint_name E t name columns
        in seqc (execute E (DropConstraint t name)) (execute E (AddUnique t new_name columns)))"
    by (simp add: Let_def)
qed

lemma issues_adopt_table: "issues (adopt_statements E op plan) (adopt_table E op plan)"
  unfolding adopt_table_def adopt_statements_def create_tenant_policies_def Let_def
  by (rule issues_eq, (rule issues_seqc issues_add_tenant_column issues_apply_unique_rewrites issues_execute)+) simp

text \<open>Pass one: one result per table of the set, all of them read in the state the migration starts in.\<close>

lemma validate_table_state: "validate_table E op m pg_type w = (r, w') \<Longrightarrow> w' = w"
  using keepsD [OF keeps_validate_table, of "\<lambda>w. w" E op m pg_type w] by simp

lemma plan_tables_Inr:
  "plan_tables E op pg_type ms w = (Inr plans, w') \<Longrightarrow>
    \<exists>f. (\<forall>m \<in> set ms. validate_table E op m pg_type w = (Inr (f m), w)) \<and> plans = List.map_filter f ms"
proof (induction ms arbitrary: plans w')
  case Nil
  then show ?case by (simp add: List.map_filter_def)
next
  case (Cons m ms)
  obtain r w1 where v: "validate_table E op m pg_type w = (r, w1)" by (cases "validate_table E op m pg_type w")
  with Cons.prems obtain p where r: "r = Inr p" by (cases r) (auto simp: bindc_def)
  have "w1 = w" by (rule validate_table_state [OF v])
  with Cons.prems v r obtain plans' where
    rest: "plan_tables E op pg_type ms w = (Inr plans', w')"
    and plans: "plans = (case p of None \<Rightarrow> plans' | Some q \<Rightarrow> q # plans')"
    by (auto simp: bindc_def split: prod.splits sum.splits)
  from Cons.IH [OF rest] obtain f where
    f: "\<forall>m \<in> set ms. validate_table E op m pg_type w = (Inr (f m), w)" "plans' = List.map_filter f ms"
    by blast
  have same: "f m = p" if "m \<in> set ms" using f(1) that v r \<open>w1 = w\<close> by auto
  let ?f = "f(m := p)"
  have "List.map_filter ?f ms = List.map_filter f ms"
    using same by (auto simp: List.map_filter_def intro!: arg_cong [where f = "map _"] filter_cong map_cong)
  with f v r \<open>w1 = w\<close> plans have
    "(\<forall>m' \<in> set (m # ms). validate_table E op m' pg_type w = (Inr (?f m'), w)) \<and>
      plans = List.map_filter ?f (m # ms)"
    by (auto simp: List.map_filter_simps split: option.splits)
  then show ?case by blast
qed

lemma rewrites_of_Inr:
  "rewrites_of table label cs = Inr rws \<Longrightarrow>
    rws = map (\<lambda>c. (uc_name c, ''tenant_id'' # uc_columns c)) cs \<and>
    (\<forall>c \<in> set cs. \<not> uc_deferrable c \<and> \<not> uc_fk_targeted c)"
  by (induction cs arbitrary: rws) (auto split: if_splits)

lemma refuse_index_forms_Inr:
  "refuse_index_forms table label is = Inr () \<longleftrightarrow> (\<forall>i \<in> set is. ui_primary i \<or> ui_constraint i \<noteq> None)"
  by (induction "is") auto

lemma validate_table_fresh:
  assumes "validate_table E op m pg_type w = (Inr r, w')"
    and "se_read E (executed w) = Inr cat" "column_type cat (mm_table m) ''tenant_id'' = None"
  obtains n where "row_count cat (mm_table m) = Inr n" "n = 0 \<or> aa_backfill op \<noteq> PNone"
    "\<forall>i \<in> set (unique_indexes cat (mm_table m)). ui_primary i \<or> ui_constraint i \<noteq> None"
    "r = Some \<lparr> pl_model = m, pl_table = mm_table m, pl_label = model_label m, pl_pg_type = pg_type,
       pl_existing_rows = n,
       pl_rewrites = map (\<lambda>c. (uc_name c, ''tenant_id'' # uc_columns c)) (unique_constraints cat (mm_table m)) \<rparr>"
proof -
  note defs = validate_table_def Let_def bindc_def catalogue_now_def plan_unique_rewrites_def seqc_def
  from assms obtain n rws where
    "row_count cat (mm_table m) = Inr n" "n = 0 \<or> aa_backfill op \<noteq> PNone"
    "refuse_index_forms (mm_table m) (model_label m) (unique_indexes cat (mm_table m)) = Inr ()"
    "rewrites_of (mm_table m) (model_label m) (unique_constraints cat (mm_table m)) = Inr rws"
    "r = Some \<lparr> pl_model = m, pl_table = mm_table m, pl_label = model_label m, pl_pg_type = pg_type,
       pl_existing_rows = n, pl_rewrites = rws \<rparr>"
    by (auto simp: defs raise_def split: prod.splits sum.splits option.splits if_splits)
  with that show thesis by (auto simp: refuse_index_forms_Inr dest!: rewrites_of_Inr)
qed

lemma validate_table_adopted:
  assumes "se_read E (executed w) = Inr cat" "column_type cat (mm_table m) ''tenant_id'' = Some ty"
    and "pg_types_match ty pg_type"
  shows "validate_table E op m pg_type w = (Inr None, w)"
  using assms by (simp add: validate_table_def bindc_def catalogue_now_def Let_def)

lemma prepare_Some:
  assumes "prepare E op to_apps w = (Inr (Some (pg_type, plans)), w')"
  obtains ms where
    "adopted_models (se_conf E) (se_live E) to_apps (aa_app_label op) (aa_exclude op) = Inr ms"
    "se_vendor E = ''postgresql''" "pg_type = ''uuid'' \<or> pg_type = ''bigint''"
    "plan_tables E op pg_type (router_allowed_models E ms) w = (Inr plans, w)"
    "fst (tenant_pg_type E op w) = Inr pg_type" "w' = w"
proof -
  have w': "w' = w" using keepsD [OF keeps_prepare, of "\<lambda>w. w" E op to_apps w] assms by simp
  obtain ms w1 w2 w3 w4 w5 where
    ms: "adopted_models (se_conf E) (se_live E) to_apps (aa_app_label op) (aa_exclude op) = Inr ms"
    and req: "require_postgresql E op w1 = (Inr (), w2)"
    and pg: "tenant_pg_type E op w3 = (Inr pg_type, w4)"
    and plan: "plan_tables E op pg_type (router_allowed_models E ms) w4 = (Inr plans, w5)"
    and eqs: "(if ms = [] then refuse_empty_set E op to_apps else ret ()) w = (Inr (), w1)" "w3 = w2"
    using assms
    by (auto simp: prepare_def bindc_def seqc_def Let_def raise_def split: prod.splits sum.splits option.splits if_splits)
  from keepsD [OF keeps_require_postgresql, of "\<lambda>w. w" E op w1] req have "w2 = w1" by simp
  moreover from keepsD [OF keeps_tenant_pg_type, of "\<lambda>w. w" E op w3] pg have "w4 = w3" by simp
  moreover from keepsD [OF keeps_plan_tables, of "\<lambda>w. w" E op pg_type "router_allowed_models E ms" w4] plan have "w5 = w4" by simp
  moreover from eqs(1) keepsD [OF keeps_refuse_empty_set, of "\<lambda>w. w" E op to_apps w] have "w1 = w"
    by (auto split: if_splits)
  moreover from pg have "pg_type = ''uuid'' \<or> pg_type = ''bigint''"
    by (auto simp: tenant_pg_type_def bindc_def pg_type_of_def PG_TYPE_MAP_def raise_def
        split: sum.splits prod.splits option.splits if_splits)
  moreover from req have "se_vendor E = ''postgresql''"
    by (simp add: require_postgresql_def split: if_splits)
  ultimately show thesis using that ms plan pg eqs(2) w' by simp
qed

lemma adopt_app_forwards_Inr:
  assumes "adopt_app_forwards E op app_label from_apps to_apps w = (Inr (), w')"
  obtains "prepare E op to_apps w = (Inr None, w)" "w' = w"
  | pg_type plans where "prepare E op to_apps w = (Inr (Some (pg_type, plans)), w)"
      "executed w' = sent ((if plans = [] then []
         else [CreateHelper pg_type (DB_SESSION_VAR (se_conf E)) (FUNCTION_LEAKPROOF (se_conf E))]) @
         concat (map (adopt_statements E op) plans)) @ executed w"
proof -
  from assms obtain prepared w1 where pr: "prepare E op to_apps w = (Inr prepared, w1)"
    and co: "carry_out E op prepared w1 = (Inr (), w')"
    by (auto simp: adopt_app_forwards_passes bindc_def split: prod.splits sum.splits)
  have w1: "w1 = w" using keepsD [OF keeps_prepare, of "\<lambda>w. w" E op to_apps w] pr by simp
  show thesis
  proof (cases prepared)
    case None
    with pr co w1 have "prepare E op to_apps w = (Inr None, w)" "w' = w" by (simp_all add: carry_out_def)
    then show thesis by (rule that(1))
  next
    case (Some pp)
    obtain pg_type plans where pp: "pp = (pg_type, plans)" by (cases pp)
    have "issues ((if plans = [] then []
         else [CreateHelper pg_type (DB_SESSION_VAR (se_conf E)) (FUNCTION_LEAKPROOF (se_conf E))]) @
         concat (map (adopt_statements E op) plans)) (carry_out E op (Some (pg_type, plans)))"
      unfolding carry_out_def create_tenant_id_helper_def option.case prod.case
      by (rule issues_seqc) (auto intro: issues_ret issues_execute issues_for_each issues_adopt_table simp del: for_each.simps)
    from issuesD [OF this, of w1 "()" w'] co Some pp w1 have sent: "executed w' = sent ((if plans = [] then []
         else [CreateHelper pg_type (DB_SESSION_VAR (se_conf E)) (FUNCTION_LEAKPROOF (se_conf E))]) @
         concat (map (adopt_statements E op) plans)) @ executed w" by simp
    from pr Some pp w1 have "prepare E op to_apps w = (Inr (Some (pg_type, plans)), w)" by simp
    from that(2) [OF this sent] show thesis .
  qed
qed

lemma adopt_statements_table: "s \<in> set (adopt_statements E op p) \<Longrightarrow> sql_table s = Some (pl_table p)"
  by (auto simp: adopt_statements_def Let_def split: if_splits)

lemma schema_after_other:
  "\<forall>s \<in> set ss. sql_table s \<noteq> Some t \<Longrightarrow> schema_after t ss ts = ts"
  by (induction ss) auto

lemma schema_after_plans:
  assumes "p \<in> set plans" "distinct (map pl_table plans)"
  shows "schema_after (pl_table p) (concat (map (adopt_statements E op) plans)) ts =
    schema_after (pl_table p) (adopt_statements E op p) ts"
proof -
  from assms(1) obtain ps qs where plans: "plans = ps @ p # qs" by (meson split_list)
  with assms(2) have "\<forall>q \<in> set ps \<union> set qs. pl_table q \<noteq> pl_table p"
    by (auto simp: image_iff)
  then have "schema_after (pl_table p) (concat (map (adopt_statements E op) ps)) ts' = ts'"
    "schema_after (pl_table p) (concat (map (adopt_statements E op) qs)) ts' = ts'" for ts'
    by (auto intro!: schema_after_other dest!: adopt_statements_table)
  with plans show ?thesis by simp
qed

text \<open>Dropping each constraint and adding its replacement, when no new name is an old one.\<close>

lemma schema_after_rewrites:
  assumes "distinct (map fst us)" "\<forall>u \<in> set us. \<forall>v \<in> set us. nn u \<noteq> fst v"
    and "\<forall>u \<in> set us. fst u \<notin> fst ` set acc" "ts_uniques ts = us @ acc"
  shows "schema_after t (concat (map (\<lambda>u. [DropConstraint t (fst u), AddUnique t (nn u) (cc u)]) us)) ts =
    ts\<lparr>ts_uniques := acc @ map (\<lambda>u. (nn u, cc u)) us\<rparr>"
  using assms
proof (induction us arbitrary: acc ts)
  case (Cons u us)
  have "filter (\<lambda>x. fst x \<noteq> fst u) us = us" "filter (\<lambda>x. fst x \<noteq> fst u) acc = acc"
    using Cons.prems by (auto intro!: filter_True simp: image_iff)
  moreover from Cons.prems have "\<forall>u' \<in> set us. fst u' \<notin> fst ` set (acc @ [(nn u, cc u)])" by auto
  ultimately show ?case
    using Cons.prems
      Cons.IH [of "acc @ [(nn u, cc u)]" "ts\<lparr>ts_uniques := us @ acc @ [(nn u, cc u)]\<rparr>"]
    by simp
qed simp

lemma schema_after_adopt_statements:
  assumes uniques: "ts_uniques ts = map (\<lambda>c. (uc_name c, uc_columns c)) cs" "\<not> ts_enabled ts"
    and "distinct (map uc_name cs)"
    and fresh: "\<forall>c \<in> set cs. \<forall>c' \<in> set cs.
      composite_constraint_name E (pl_table p) (uc_name c) (''tenant_id'' # uc_columns c) \<noteq> uc_name c'"
    and "pl_rewrites p = map (\<lambda>c. (uc_name c, ''tenant_id'' # uc_columns c)) cs"
  shows "schema_after (pl_table p) (adopt_statements E op p) ts =
    \<lparr> ts_column = Some \<lparr> tc_type = pl_pg_type p, tc_not_null = True, tc_default = True,
        tc_rows = (if pl_existing_rows p = 0 then None else Some (aa_backfill op)) \<rparr>,
      ts_uniques = map (\<lambda>c. (composite_constraint_name E (pl_table p) (uc_name c) (''tenant_id'' # uc_columns c),
        ''tenant_id'' # uc_columns c)) cs,
      ts_enabled = True, ts_forced = True,
      ts_policies = ts_policies ts \<union> {''boundary_tenant_isolation'', ''boundary_admin_bypass''} \<rparr>"
proof -
  let ?t = "pl_table p"
  let ?us = "map (\<lambda>c. (uc_name c, uc_columns c)) cs"
  let ?new = "\<lambda>c. composite_constraint_name E ?t (uc_name c) (''tenant_id'' # uc_columns c)"
  let ?ss = "concat (map (\<lambda>c. [DropConstraint ?t (uc_name c), AddUnique ?t (?new c) (''tenant_id'' # uc_columns c)]) cs)"
  have stmts: "concat (map (\<lambda>(n, cols). [DropConstraint ?t n, AddUnique ?t (composite_constraint_name E ?t n cols) cols])
      (pl_rewrites p)) = ?ss"
    using assms(5) by (simp add: comp_def)
  have rw: "schema_after ?t ?ss ts' = ts'\<lparr>ts_uniques := map (\<lambda>c. (?new c, ''tenant_id'' # uc_columns c)) cs\<rparr>"
    if "ts_uniques ts' = ?us" for ts'
    using schema_after_rewrites [of ?us "\<lambda>u. composite_constraint_name E ?t (fst u) (''tenant_id'' # snd u)" "[]"
        ts' ?t "\<lambda>u. ''tenant_id'' # snd u"] that assms(3) fresh by (simp add: comp_def)
  show ?thesis
    using assms(1,2) unfolding adopt_statements_def Let_def stmts
    by (cases ts) (auto simp: rw on_column_def)
qed

lemma prepare_None:
  assumes "prepare E op to_apps w = (Inr None, w')"
    and "adopted_models (se_conf E) (se_live E) to_apps (aa_app_label op) (aa_exclude op) = Inr ms"
  shows "router_allowed_models E ms = []"
  using assms
  by (auto simp: prepare_def bindc_def seqc_def Let_def raise_def split: prod.splits sum.splits option.splits if_splits)

lemma validate_table_names:
  "validate_table E op m pg_type w = (Inr (Some p), w') \<Longrightarrow> pl_table p = mm_table m \<and> pl_pg_type p = pg_type"
  by (auto simp: validate_table_def Let_def bindc_def raise_def split: prod.splits sum.splits option.splits if_splits)

lemma planned_tables_distinct:
  "\<forall>m \<in> set ms. \<forall>p. f m = Some p \<longrightarrow> pl_table p = mm_table m \<Longrightarrow> distinct (map mm_table ms) \<Longrightarrow>
    distinct (map pl_table (List.map_filter f ms)) \<and>
    pl_table ` set (List.map_filter f ms) \<subseteq> mm_table ` set ms"
proof (induction ms)
  case (Cons m ms)
  then have "distinct (map pl_table (List.map_filter f ms))"
    "pl_table ` set (List.map_filter f ms) \<subseteq> mm_table ` set ms" by auto
  with Cons.prems show ?case by (cases "f m") (auto simp: List.map_filter_simps)
qed (simp add: List.map_filter_simps)

lemma in_map_filter: "m \<in> set ms \<Longrightarrow> f m = Some p \<Longrightarrow> p \<in> set (List.map_filter f ms)"
  by (induction ms) (auto simp: List.map_filter_simps split: option.splits)

end
