(* ===== verification/Migration_Laws.thy ===== *)
theory Migration_Laws
  imports Migration_Ops
begin

text \<open>
  What the migration operations guarantee beyond a forward adoption: the gates, the round trips of
  the policy operations, \<open>deconstruct()\<close>, the quoting of literals, no globally unique form left, and
  the reversal of an adoption. A small database stands for PostgreSQL in the witnesses.
\<close>

section \<open>A small database, for the witnesses\<close>

definition member_catalogue :: "nat \<Rightarrow> catalogue" where
  "member_catalogue rows =
     \<lparr> regclass = (\<lambda>t. if t = ''tenants_member'' then Some 7 else None),
       cat_attributes =
         [\<lparr> att_relid = 7, att_name = ''id'', att_num = 1, att_dropped = False, att_type = ''uuid'' \<rparr>,
          \<lparr> att_relid = 7, att_name = ''email'', att_num = 2, att_dropped = False, att_type = ''text'' \<rparr>],
       cat_constraints =
         [\<lparr> con_name = ''member_pkey'', con_relid = 7, con_type = CHR ''p'', con_key = [1],
            con_deferrable = False, con_indid = 8 \<rparr>,
          \<lparr> con_name = ''member_email_key'', con_relid = 7, con_type = CHR ''u'', con_key = [2],
            con_deferrable = False, con_indid = 9 \<rparr>],
       cat_indexes =
         [\<lparr> ix_relid = 8, ix_table = 7, ix_key = [1], ix_unique = True, ix_primary = True,
            ix_partial = False, ix_expression = False \<rparr>,
          \<lparr> ix_relid = 9, ix_table = 7, ix_key = [2], ix_unique = True, ix_primary = False,
            ix_partial = False, ix_expression = False \<rparr>],
       cat_classes =
         [\<lparr> cl_oid = 7, cl_name = ''tenants_member'', cl_row_security = False, cl_force_row_security = False \<rparr>,
          \<lparr> cl_oid = 8, cl_name = ''member_pkey'', cl_row_security = False, cl_force_row_security = False \<rparr>,
          \<lparr> cl_oid = 9, cl_name = ''member_email_key'', cl_row_security = False, cl_force_row_security = False \<rparr>],
       cat_policies = [], cat_count = (\<lambda>t. Inr rows) \<rparr>"

lemma member_catalogue_simps:
  "regclass (member_catalogue n) ''tenants_member'' = Some 7"
  "\<lparr> ix_relid = 9, ix_table = 7, ix_key = [2], ix_unique = True, ix_primary = False,
            ix_partial = False, ix_expression = False \<rparr> \<in> set (cat_indexes (member_catalogue n))"
  by (simp_all add: member_catalogue_def)

definition member_env :: "nat \<Rightarrow> schema_env" where
  "member_env rows =
     \<lparr> se_conf = default_settings, se_alias = ''default'', se_vendor = ''postgresql'',
       se_router = (\<lambda>_ _. True), se_live = tenants_registry,
       se_read = (\<lambda>_. Inr (member_catalogue rows)),
       se_execute = (\<lambda>_ s. Inr (case s of Backfill _ _ \<Rightarrow> rows | _ \<Rightarrow> 0)),
       se_index_name = (\<lambda>t cols suffix. t @ suffix),
       se_unique_sql = (\<lambda>m fs. Some (AddUnique (mm_table m) ''restored'' (map mf_column fs))) \<rparr>"

definition start :: migration where
  "start = \<lparr> executed = [], skip_log = [] \<rparr>"

lemma member_env_simps [simp]:
  "se_conf (member_env n) = default_settings" "se_alias (member_env n) = ''default''"
  "se_vendor (member_env n) = ''postgresql''" "se_router (member_env n) a m"
  "se_live (member_env n) = tenants_registry" "se_read (member_env n) tr = Inr (member_catalogue n)"
  "se_execute (member_env n) tr s = Inr (case s of Backfill _ _ \<Rightarrow> n | _ \<Rightarrow> 0)"
  by (simp_all add: member_env_def)

lemma member_class_simps [simp]: "mm_table member_class = ''tenants_member''"
  "model_label member_class = ''tenants.Member''" "m_name member_class = ''Member''"
  by (simp_all add: member_class_def plain_model_def model_label_def)

lemma member_catalogue_column: "column_type (member_catalogue n) ''tenants_member'' ''tenant_id'' = None"
  by (simp add: member_catalogue_def column_type_def)

lemma member_catalogue_rows: "row_count (member_catalogue n) t = Inr n"
  by (simp add: member_catalogue_def row_count_def)

definition email_key :: unique_constraint where
  "email_key = \<lparr> uc_name = ''member_email_key'', uc_columns = [''email''], uc_deferrable = False,
     uc_fk_targeted = False \<rparr>"

lemma email_key_simps [simp]: "uc_name email_key = ''member_email_key''" "uc_columns email_key = [''email'']"
  "\<not> uc_deferrable email_key" "\<not> uc_fk_targeted email_key"
  by (simp_all add: email_key_def)

lemma start_simps [simp]: "executed start = []" "skip_log start = []"
  by (simp_all add: start_def)

lemma member_catalogue_uniques: "unique_constraints (member_catalogue n) ''tenants_member'' = [email_key]"
  by (simp add: member_catalogue_def unique_constraints_def key_columns_def email_key_def)

lemma member_catalogue_indexes:
  "unique_indexes (member_catalogue n) ''tenants_member'' =
    [\<lparr> ui_name = ''member_email_key'', ui_columns = [''email''], ui_primary = False, ui_partial = False,
       ui_expression = False, ui_constraint = Some ''member_email_key'' \<rparr>,
     \<lparr> ui_name = ''member_pkey'', ui_columns = [''id''], ui_primary = True, ui_partial = False,
       ui_expression = False, ui_constraint = Some ''member_pkey'' \<rparr>]"
  by (simp add: unique_indexes_def member_catalogue_def index_rows_def Let_def key_columns_def less_char_def)

lemma member_refusal: "refusal_reason_for_model default_settings tenants_registry None member_class = Inr None"
  by (simp add: refusal_reason_for_model_def Let_def DENIED_MODELS_def DENIED_TABLES_def tenants_registry_label)

definition adopt_tenants :: "pyval \<Rightarrow> adopt_app" where
  "adopt_tenants backfill = adopt_app_init ''tenants'' [] backfill"

lemma adopt_tenants_simps [simp]: "aa_app_label (adopt_tenants v) = ''tenants''"
  "aa_exclude (adopt_tenants v) = []" "aa_backfill (adopt_tenants v) = v"
  by (simp_all add: adopt_tenants_def adopt_app_init_def)

lemma member_steps:
  "refusal_reason tenants_registry ''tenants'' = Inr None"
  "tenant_pg_type (member_env n) (adopt_tenants v) w = (Inr ''uuid'', w)"
  "rewrites_of t l [email_key] = Inr [(''member_email_key'', [''tenant_id'', ''email''])]"
  "refuse_index_forms t l (unique_indexes (member_catalogue n) ''tenants_member'') = Inr ()"
  by (simp_all add: refusal_reason_def DENIED_APPS_def tenants_registry_def tenant_pg_type_def get_tenant_model_def
      resolve_tenant_model_setting_def str_or_def default_settings_def club_class_def plain_model_def
      key_field_def pg_type_of_def PG_TYPE_MAP_def bindc_def email_key_def member_catalogue_indexes)

lemmas member_prepares = prepare_def bindc_def seqc_def Let_def tenants_registry_adopts router_allowed_models_def
  require_postgresql_def validate_table_def catalogue_now_def member_catalogue_column member_catalogue_rows
  member_catalogue_uniques plan_unique_rewrites_def member_refusal member_steps

lemma member_prepare:
  assumes "n = 0 \<or> v \<noteq> PNone"
  shows "prepare (member_env n) (adopt_tenants v) tenants_registry w =
    (Inr (Some (''uuid'', [\<lparr> pl_model = member_class, pl_table = ''tenants_member'', pl_label = ''tenants.Member'',
       pl_pg_type = ''uuid'', pl_existing_rows = n,
       pl_rewrites = [(''member_email_key'', [''tenant_id'', ''email''])] \<rparr>])), w)"
  using assms by (simp add: member_prepares)

lemma member_refused:
  "prepare (member_env (Suc n)) (adopt_tenants PNone) tenants_registry w =
    (Inl (AdoptionRefusedError (PopulatedWithoutBackfill ''tenants_member'' ''tenants.Member'' (Suc n))), w)"
  by (simp add: member_prepares)

section \<open>Adoption\<close>

text \<open>
  C16: when \<open>AdoptTenantApp\<close> refuses (an app or a model that cannot be adopted, a wrong vendor, an
  unmappable tenant key, a column of another type, rows without a backfill tenant, a unique form it
  cannot rewrite, on any table of the app), it has sent no statement and logged nothing (BR-RLS-013). The
  one refusal left out is that of the backfill, \<open>BackfillMismatch\<close>: it compares the number of rows
  updated with the number counted, so it can only come after the column was added and the rows updated.
\<close>
theorem refused_adoption_sends_nothing:
  assumes "adopt_app_forwards E op app_label from_apps to_apps w = (Inl (AdoptionRefusedError r), w')"
    and "\<forall>tr s r'. se_execute E tr s \<noteq> Inl (AdoptionRefusedError r')"
    and "\<forall>t l n m. r \<noteq> BackfillMismatch t l n m"
  shows "w' = w"
proof (cases "prepare E op to_apps w")
  case (Pair res w1)
  have w1: "w1 = w" using keepsD [OF keeps_prepare, of "\<lambda>w. w" E op to_apps w] Pair by simp
  show ?thesis
  proof (cases res)
    case (Inl e)
    with assms(1) Pair w1 show ?thesis by (simp add: adopt_app_forwards_passes bindc_def)
  next
    case (Inr prepared)
    with assms(1) Pair have "carry_out E op prepared w1 = (Inl (AdoptionRefusedError r), w')"
      by (simp add: adopt_app_forwards_passes bindc_def)
    with raises_carry_out [of E op prepared] assms(2,3) show ?thesis
      unfolding raises_only_def by blast
  qed
qed

theorem refused_adoption_sends_nothing_witness:
  "snd (adopt_app_forwards (member_env 2) (adopt_tenants PNone) ''club'' tenants_registry tenants_registry start) = start"
proof -
  obtain w' where run: "adopt_app_forwards (member_env 2) (adopt_tenants PNone) ''club'' tenants_registry tenants_registry start =
      (Inl (AdoptionRefusedError (PopulatedWithoutBackfill ''tenants_member'' ''tenants.Member'' 2)), w')"
    using member_refused [of 1 start] by (auto simp: adopt_app_forwards_passes bindc_def numeral_2_eq_2)
  have "w' = start" by (rule refused_adoption_sends_nothing [OF run]) auto
  with run show ?thesis by simp
qed

lemma adopted_table_schema:
  assumes run: "adopt_app_forwards E op app_label from_apps to_apps w = (Inr (), w')"
    and ms: "adopted_models (se_conf E) (se_live E) to_apps (aa_app_label op) (aa_exclude op) = Inr ms"
    and m: "m \<in> set ms" "se_router E (se_alias E) m" and tables: "distinct (map mm_table ms)"
    and cat: "se_read E (executed w) = Inr cat" "column_type cat (mm_table m) ''tenant_id'' = None"
      "row_count cat (mm_table m) = Inr n"
    and cs: "unique_constraints cat (mm_table m) = cs" "distinct (map uc_name cs)"
    and fresh: "\<forall>c \<in> set cs. \<forall>c' \<in> set cs.
      composite_constraint_name E (mm_table m) (uc_name c) (''tenant_id'' # uc_columns c) \<noteq> uc_name c'"
    and ts: "ts_uniques ts = map (\<lambda>c. (uc_name c, uc_columns c)) cs" "\<not> ts_enabled ts"
  shows "\<exists>ss ty. executed w' = sent ss @ executed w \<and> ty \<in> {''uuid'', ''bigint''} \<and>
    fst (tenant_pg_type E op w) = Inr ty \<and>
    (n = 0 \<or> aa_backfill op \<noteq> PNone) \<and>
    (\<forall>i \<in> set (unique_indexes cat (mm_table m)). ui_primary i \<or> ui_constraint i \<noteq> None) \<and>
    schema_after (mm_table m) ss ts =
      \<lparr> ts_column = Some \<lparr> tc_type = ty, tc_not_null = True, tc_default = True,
          tc_rows = (if n = 0 then None else Some (aa_backfill op)) \<rparr>,
        ts_uniques = map (\<lambda>c. (composite_constraint_name E (mm_table m) (uc_name c) (''tenant_id'' # uc_columns c),
          ''tenant_id'' # uc_columns c)) cs,
        ts_enabled = True, ts_forced = True,
        ts_policies = ts_policies ts \<union> {''boundary_tenant_isolation'', ''boundary_admin_bypass''} \<rparr>"
    (is "\<exists>ss ty. _ ss \<and> _ ty \<and> _ ty \<and> _ \<and> _ \<and> _ ss = ?schema ty")
  using run
proof (cases rule: adopt_app_forwards_Inr)
  case 1
  from prepare_None [OF 1(1) ms] m have False by (auto simp: router_allowed_models_def filter_empty_conv)
  then show ?thesis ..
next
  case (2 pg_type plans)
  obtain ms' where
    "adopted_models (se_conf E) (se_live E) to_apps (aa_app_label op) (aa_exclude op) = Inr ms'"
    and pg: "pg_type = ''uuid'' \<or> pg_type = ''bigint''"
    and "plan_tables E op pg_type (router_allowed_models E ms') w = (Inr plans, w)"
    and key: "fst (tenant_pg_type E op w) = Inr pg_type"
    by (rule prepare_Some [OF 2(1)])
  with ms have plan: "plan_tables E op pg_type (router_allowed_models E ms) w = (Inr plans, w)" by simp
  from plan_tables_Inr [OF plan] obtain f where
    f: "\<forall>m \<in> set (router_allowed_models E ms). validate_table E op m pg_type w = (Inr (f m), w)"
    and plans: "plans = List.map_filter f (router_allowed_models E ms)" by blast
  from m have allowed: "m \<in> set (router_allowed_models E ms)" by (simp add: router_allowed_models_def)
  with f have v: "validate_table E op m pg_type w = (Inr (f m), w)" by blast
  obtain n' where n': "row_count cat (mm_table m) = Inr n'" "n' = 0 \<or> aa_backfill op \<noteq> PNone"
    and bare: "\<forall>i \<in> set (unique_indexes cat (mm_table m)). ui_primary i \<or> ui_constraint i \<noteq> None"
    and fm: "f m = Some \<lparr> pl_model = m, pl_table = mm_table m, pl_label = model_label m, pl_pg_type = pg_type,
       pl_existing_rows = n',
       pl_rewrites = map (\<lambda>c. (uc_name c, ''tenant_id'' # uc_columns c)) (unique_constraints cat (mm_table m)) \<rparr>"
    by (rule validate_table_fresh [OF v cat(1,2)])
  define p where "p = the (f m)"
  have p: "f m = Some p" "pl_table p = mm_table m" "pl_pg_type p = pg_type" "pl_existing_rows p = n"
      "pl_rewrites p = map (\<lambda>c. (uc_name c, ''tenant_id'' # uc_columns c)) cs"
    and backfill: "n = 0 \<or> aa_backfill op \<noteq> PNone"
    using fm n' cat(3) cs(1) by (simp_all add: p_def)
  have in_plans: "p \<in> set plans" unfolding plans by (rule in_map_filter [where f = f, OF allowed p(1)])
  have names: "\<forall>m \<in> set (router_allowed_models E ms). \<forall>p. f m = Some p \<longrightarrow> pl_table p = mm_table m"
    using f validate_table_names by (metis sum.inject(2) prod.inject)
  have dist: "distinct (map pl_table plans)"
    unfolding plans using planned_tables_distinct [OF names] tables
    by (simp add: router_allowed_models_def distinct_map_filter)
  have "schema_after (pl_table p) (concat (map (adopt_statements E op) plans)) ts =
      schema_after (pl_table p) (adopt_statements E op p) ts"
    by (rule schema_after_plans [OF in_plans dist])
  also have "\<dots> = \<lparr> ts_column = Some \<lparr> tc_type = pg_type, tc_not_null = True, tc_default = True,
          tc_rows = (if n = 0 then None else Some (aa_backfill op)) \<rparr>,
        ts_uniques = map (\<lambda>c. (composite_constraint_name E (mm_table m) (uc_name c) (''tenant_id'' # uc_columns c),
          ''tenant_id'' # uc_columns c)) cs,
        ts_enabled = True, ts_forced = True,
        ts_policies = ts_policies ts \<union> {''boundary_tenant_isolation'', ''boundary_admin_bypass''} \<rparr>"
    using schema_after_adopt_statements [of ts cs E p op] ts cs(2) fresh p by simp
  finally have schema: "schema_after (mm_table m) ((if plans = [] then []
         else [CreateHelper pg_type (DB_SESSION_VAR (se_conf E)) (FUNCTION_LEAKPROOF (se_conf E))]) @
         concat (map (adopt_statements E op) plans)) ts = ?schema pg_type"
    unfolding p(2) schema_after_append by (cases "plans = []") simp_all
  from pg have "pg_type \<in> {''uuid'', ''bigint''}" by simp
  with 2(2) backfill schema key bare show ?thesis by blast
qed

text \<open>
  C15: after \<open>AdoptTenantApp\<close> has run, each table of the app that the router admits and that had no
  \<open>tenant_id\<close> column is isolated: the column has the tenant key's type, is not null and defaults to
  the active tenant; rows that were there carry the backfill tenant and no other (the backfill comes
  before row-level security, under which it would match no row); every unique constraint is replaced
  by one that leads with \<open>tenant_id\<close>; row-level security is enabled and forced with both policies.
\<close>
theorem adopted_table_is_isolated:
  assumes run: "adopt_app_forwards E op app_label from_apps to_apps w = (Inr (), w')"
    and ms: "adopted_models (se_conf E) (se_live E) to_apps (aa_app_label op) (aa_exclude op) = Inr ms"
    and m: "m \<in> set ms" "se_router E (se_alias E) m" and tables: "distinct (map mm_table ms)"
    and cat: "se_read E (executed w) = Inr cat" "column_type cat (mm_table m) ''tenant_id'' = None"
      "row_count cat (mm_table m) = Inr n"
    and cs: "unique_constraints cat (mm_table m) = cs" "distinct (map uc_name cs)"
    and fresh: "\<forall>c \<in> set cs. \<forall>c' \<in> set cs.
      composite_constraint_name E (mm_table m) (uc_name c) (''tenant_id'' # uc_columns c) \<noteq> uc_name c'"
    and ts: "ts_uniques ts = map (\<lambda>c. (uc_name c, uc_columns c)) cs" "\<not> ts_enabled ts"
  shows "\<exists>ss ty. executed w' = sent ss @ executed w \<and> ty \<in> {''uuid'', ''bigint''} \<and>
    (n = 0 \<or> aa_backfill op \<noteq> PNone) \<and>
    schema_after (mm_table m) ss ts =
      \<lparr> ts_column = Some \<lparr> tc_type = ty, tc_not_null = True, tc_default = True,
          tc_rows = (if n = 0 then None else Some (aa_backfill op)) \<rparr>,
        ts_uniques = map (\<lambda>c. (composite_constraint_name E (mm_table m) (uc_name c) (''tenant_id'' # uc_columns c),
          ''tenant_id'' # uc_columns c)) cs,
        ts_enabled = True, ts_forced = True,
        ts_policies = ts_policies ts \<union> {''boundary_tenant_isolation'', ''boundary_admin_bypass''} \<rparr>"
  using adopted_table_schema [OF assms] by blast

lemma member_run:
  "adopt_app_forwards (member_env 2) (adopt_tenants (PUuid ''c1'')) ''club'' tenants_registry tenants_registry start =
    (Inr (), \<lparr> executed = sent
      [CreateHelper ''uuid'' ''app.current_tenant_id'' False,
       AddTenantColumnNull ''tenants_member'' ''uuid'', Backfill ''tenants_member'' (PUuid ''c1''),
       SetTenantNotNull ''tenants_member'', SetTenantDefault ''tenants_member'',
       DropConstraint ''tenants_member'' ''member_email_key'',
       AddUnique ''tenants_member'' ''member_email_key_tenant'' [''tenant_id'', ''email''],
       EnableRowSecurity ''tenants_member'', ForceRowSecurity ''tenants_member'',
       CreateIsolationPolicy ''tenants_member'' ''tenant_id'',
       CreateBypassPolicy ''tenants_member'' ''app.boundary_admin''], skip_log = [] \<rparr>)"
  by (simp add: adopt_app_forwards_passes bindc_def member_prepare carry_out_def seqc_def execute_def execute_rows_def
      create_tenant_id_helper_def adopt_table_def add_tenant_column_def apply_unique_rewrites_def Let_def
      create_tenant_policies_def start_def composite_constraint_name_def MAX_IDENTIFIER_LENGTH_def
      DB_SESSION_VAR_def FUNCTION_LEAKPROOF_def ADMIN_FLAG_VAR_def default_settings_def)

definition member_before :: table_schema where
  "member_before = \<lparr> ts_column = None, ts_uniques = [(''member_email_key'', [''email''])], ts_enabled = False,
     ts_forced = False, ts_policies = {} \<rparr>"

theorem adopted_table_is_isolated_witness:
  "\<exists>ss ty. executed (snd (adopt_app_forwards (member_env 2) (adopt_tenants (PUuid ''c1'')) ''club''
      tenants_registry tenants_registry start)) = sent ss \<and>
    schema_after ''tenants_member'' ss member_before =
      \<lparr> ts_column = Some \<lparr> tc_type = ty, tc_not_null = True, tc_default = True, tc_rows = Some (PUuid ''c1'') \<rparr>,
        ts_uniques = [(''member_email_key_tenant'', [''tenant_id'', ''email''])],
        ts_enabled = True, ts_forced = True,
        ts_policies = {''boundary_tenant_isolation'', ''boundary_admin_bypass''} \<rparr>"
proof -
  obtain w' where run: "adopt_app_forwards (member_env 2) (adopt_tenants (PUuid ''c1'')) ''club'' tenants_registry
      tenants_registry start = (Inr (), w')"
    using member_run by blast
  have name: "composite_constraint_name (member_env 2) ''tenants_member'' ''member_email_key'' cols =
      ''member_email_key_tenant''" for cols
    by (simp add: composite_constraint_name_def MAX_IDENTIFIER_LENGTH_def)
  have before: "ts_uniques member_before = [(''member_email_key'', [''email''])]" "\<not> ts_enabled member_before"
    "ts_policies member_before = {}"
    by (simp_all add: member_before_def)
  from adopted_table_is_isolated [where m = member_class and cat = "member_catalogue 2" and n = 2
      and cs = "[email_key]" and ms = "[member_class]" and ts = member_before, OF run]
  obtain ss ty where "executed w' = sent ss" "schema_after ''tenants_member'' ss member_before =
      \<lparr> ts_column = Some \<lparr> tc_type = ty, tc_not_null = True, tc_default = True, tc_rows = Some (PUuid ''c1'') \<rparr>,
        ts_uniques = [(''member_email_key_tenant'', [''tenant_id'', ''email''])],
        ts_enabled = True, ts_forced = True,
        ts_policies = {''boundary_tenant_isolation'', ''boundary_admin_bypass''} \<rparr>"
    by (auto simp: tenants_registry_adopts member_catalogue_column member_catalogue_rows member_catalogue_uniques
        before name)
  with run show ?thesis by auto
qed

section \<open>Gates of the policy operations\<close>

text \<open>
  each of \<open>EnableRLS\<close>, \<open>CreateTenantPolicy\<close> and \<open>DropTenantPolicy\<close>, applied or reversed, does nothing
  at all on an alias the router denies, and on another backend than PostgreSQL writes one line naming
  the operation, the model, the alias and the vendor, and sends no statement (BR-RLS-021).
\<close>
theorem policy_operations_gated:
  assumes "\<forall>apps \<in> {from_apps, to_apps}.
      model_at apps (target_app (er_app_label er) app_label) (er_model_name er) = Inr m \<and>
      model_at apps (target_app (tp_app_label tp) app_label) (tp_model_name tp) = Inr m"
    and "(name, run) \<in> {(''EnableRLS'', enable_rls_forwards E er), (''EnableRLS'', enable_rls_backwards E er),
      (''CreateTenantPolicy'', create_policy_forwards E tp), (''CreateTenantPolicy'', create_policy_backwards E tp),
      (''DropTenantPolicy'', drop_policy_forwards E tp), (''DropTenantPolicy'', drop_policy_backwards E tp)}"
  shows "(\<not> se_router E (se_alias E) m \<longrightarrow> run app_label from_apps to_apps w = (Inr (), w)) \<and>
    (se_router E (se_alias E) m \<and> se_vendor E \<noteq> ''postgresql'' \<longrightarrow>
       run app_label from_apps to_apps w = (Inr (), w\<lparr>skip_log :=
         \<lparr> sk_operation = name, sk_model = model_label m, sk_using = se_alias E, sk_vendor = se_vendor E \<rparr>
         # skip_log w\<rparr>))"
  using assms
  by (auto simp: enable_rls_forwards_def enable_rls_backwards_def create_policy_forwards_def
      create_policy_backwards_def drop_policy_forwards_def drop_policy_backwards_def bindc_liftc
      router_allows_def postgresql_or_logged_noop_def bindc_def seqc_def)

definition sqlite_env :: schema_env where
  "sqlite_env = (member_env 0)\<lparr>se_vendor := ''sqlite''\<rparr>"

theorem policy_operations_gated_witness:
  "executed (snd (drop_policy_backwards sqlite_env (tenant_policy_init ''Member'' None (Some ''tenants''))
      ''club'' tenants_registry tenants_registry start)) = []"
  using policy_operations_gated [of tenants_registry tenants_registry "enable_rls_init ''Member'' (Some ''tenants'')"
      "''club''" member_class "tenant_policy_init ''Member'' None (Some ''tenants'')" "''DropTenantPolicy''"
      "drop_policy_backwards sqlite_env (tenant_policy_init ''Member'' None (Some ''tenants''))" sqlite_env start]
  by (simp add: tenants_registry_def enable_rls_init_def tenant_policy_init_def target_app_def sqlite_env_def
      member_env_def)

section \<open>Policy operations and their reversal\<close>

text \<open>A backend on which no statement fails.\<close>

definition statements_succeed :: "schema_env \<Rightarrow> bool" where
  "statements_succeed E \<longleftrightarrow> (\<forall>tr s. \<exists>n. se_execute E tr s = Inr n)"

lemma execute_ok:
  "statements_succeed E \<Longrightarrow> execute E s w = (Inr (), w\<lparr>executed := (s, True) # executed w\<rparr>)"
  by (auto simp: statements_succeed_def execute_def seqc_def bindc_def execute_rows_def split: sum.splits prod.splits)
    (metis Inl_Inr_False)+

lemma policy_operations_admitted:
  assumes "statements_succeed E" "se_router E (se_alias E) m" "se_vendor E = ''postgresql''"
    and "\<forall>apps \<in> {from_apps, to_apps}.
      model_at apps (target_app (er_app_label er) app_label) (er_model_name er) = Inr m \<and>
      model_at apps (target_app (tp_app_label tp) app_label) (tp_model_name tp) = Inr m"
    and "detect_tenant_column_type tp m = Inr ty" "tp_tenant_column tp \<noteq> []"
  shows "enable_rls_forwards E er app_label from_apps to_apps w =
      (Inr (), w\<lparr>executed := sent [EnableRowSecurity (mm_table m), ForceRowSecurity (mm_table m)] @ executed w\<rparr>)"
    "enable_rls_backwards E er app_label from_apps to_apps w =
      (Inr (), w\<lparr>executed := sent [DropPolicy ''boundary_tenant_isolation'' (mm_table m),
        DropPolicy ''boundary_admin_bypass'' (mm_table m), DisableRowSecurity (mm_table m),
        NoForceRowSecurity (mm_table m)] @ executed w\<rparr>)"
    "create_policy_forwards E tp app_label from_apps to_apps w =
      (Inr (), w\<lparr>executed := sent [CreateHelper ty (DB_SESSION_VAR (se_conf E)) (FUNCTION_LEAKPROOF (se_conf E)),
        CreateIsolationPolicy (mm_table m) (tp_tenant_column tp),
        CreateBypassPolicy (mm_table m) (ADMIN_FLAG_VAR (se_conf E))] @ executed w\<rparr>)"
    "create_policy_backwards E tp app_label from_apps to_apps w =
      (Inr (), w\<lparr>executed := sent [DropPolicy ''boundary_tenant_isolation'' (mm_table m),
        DropPolicy ''boundary_admin_bypass'' (mm_table m)] @ executed w\<rparr>)"
    "drop_policy_forwards E tp app_label from_apps to_apps w =
      (Inr (), w\<lparr>executed := sent [DropPolicy ''boundary_tenant_isolation'' (mm_table m),
        DropPolicy ''boundary_admin_bypass'' (mm_table m)] @ executed w\<rparr>)"
    "drop_policy_backwards E tp app_label from_apps to_apps w =
      create_policy_forwards E tp app_label from_apps to_apps w"
proof -
  have eta: "tenant_policy_init (tp_model_name tp) (Some (tp_tenant_column tp)) (tp_app_label tp) = tp"
    using assms(6) by (simp add: tenant_policy_init_def)
  note steps = bindc_liftc router_allows_def postgresql_or_logged_noop_def seqc_def bindc_def
    execute_ok [OF assms(1)] create_tenant_id_helper_def create_tenant_policies_def
  show "enable_rls_forwards E er app_label from_apps to_apps w =
      (Inr (), w\<lparr>executed := sent [EnableRowSecurity (mm_table m), ForceRowSecurity (mm_table m)] @ executed w\<rparr>)"
    "enable_rls_backwards E er app_label from_apps to_apps w =
      (Inr (), w\<lparr>executed := sent [DropPolicy ''boundary_tenant_isolation'' (mm_table m),
        DropPolicy ''boundary_admin_bypass'' (mm_table m), DisableRowSecurity (mm_table m),
        NoForceRowSecurity (mm_table m)] @ executed w\<rparr>)"
    "create_policy_forwards E tp app_label from_apps to_apps w =
      (Inr (), w\<lparr>executed := sent [CreateHelper ty (DB_SESSION_VAR (se_conf E)) (FUNCTION_LEAKPROOF (se_conf E)),
        CreateIsolationPolicy (mm_table m) (tp_tenant_column tp),
        CreateBypassPolicy (mm_table m) (ADMIN_FLAG_VAR (se_conf E))] @ executed w\<rparr>)"
    "create_policy_backwards E tp app_label from_apps to_apps w =
      (Inr (), w\<lparr>executed := sent [DropPolicy ''boundary_tenant_isolation'' (mm_table m),
        DropPolicy ''boundary_admin_bypass'' (mm_table m)] @ executed w\<rparr>)"
    "drop_policy_forwards E tp app_label from_apps to_apps w =
      (Inr (), w\<lparr>executed := sent [DropPolicy ''boundary_tenant_isolation'' (mm_table m),
        DropPolicy ''boundary_admin_bypass'' (mm_table m)] @ executed w\<rparr>)"
    using assms(2-5)
    by (simp_all add: enable_rls_forwards_def enable_rls_backwards_def create_policy_forwards_def
        create_policy_backwards_def drop_policy_forwards_def steps)
  show "drop_policy_backwards E tp app_label from_apps to_apps w =
      create_policy_forwards E tp app_label from_apps to_apps w"
    using assms(2-5) by (simp add: drop_policy_backwards_def eta steps)
qed

text \<open>
  C27: on an admitted PostgreSQL alias, \<open>EnableRLS\<close> followed by \<open>CreateTenantPolicy\<close> protects the table
  (row-level security enabled and forced, both policies), and reversing the two in the opposite order
  leaves it exactly as it was; \<open>DropTenantPolicy\<close> takes both policies off a protected table and its
  reversal leaves the table protected again. Every run succeeds, whatever was sent before it.
\<close>
theorem policy_operations_reverse:
  assumes "statements_succeed E" "se_router E (se_alias E) m" "se_vendor E = ''postgresql''"
    and "\<forall>apps \<in> {from_apps, to_apps}.
      model_at apps (target_app (er_app_label er) app_label) (er_model_name er) = Inr m \<and>
      model_at apps (target_app (tp_app_label tp) app_label) (tp_model_name tp) = Inr m"
    and "detect_tenant_column_type tp m = Inr ty" "tp_tenant_column tp \<noteq> []"
    and "\<not> ts_enabled ts" "\<not> ts_forced ts" "ts_policies ts = {}"
  shows "\<exists>apply undo drop redo. (\<forall>w.
      seqc (enable_rls_forwards E er app_label from_apps to_apps)
        (create_policy_forwards E tp app_label from_apps to_apps) w = (Inr (), w\<lparr>executed := sent apply @ executed w\<rparr>) \<and>
      seqc (create_policy_backwards E tp app_label from_apps to_apps)
        (enable_rls_backwards E er app_label from_apps to_apps) w = (Inr (), w\<lparr>executed := sent undo @ executed w\<rparr>) \<and>
      drop_policy_forwards E tp app_label from_apps to_apps w = (Inr (), w\<lparr>executed := sent drop @ executed w\<rparr>) \<and>
      drop_policy_backwards E tp app_label from_apps to_apps w = (Inr (), w\<lparr>executed := sent redo @ executed w\<rparr>)) \<and>
    (let protected = ts\<lparr>ts_enabled := True, ts_forced := True,
           ts_policies := {''boundary_tenant_isolation'', ''boundary_admin_bypass''}\<rparr> in
     schema_after (mm_table m) apply ts = protected \<and> schema_after (mm_table m) (apply @ undo) ts = ts \<and>
     schema_after (mm_table m) drop protected = protected\<lparr>ts_policies := {}\<rparr> \<and>
     schema_after (mm_table m) (drop @ redo) protected = protected)"
proof -
  note ops = policy_operations_admitted [OF assms(1-6)]
  let ?t = "mm_table m"
  let ?en = "[EnableRowSecurity ?t, ForceRowSecurity ?t]"
  let ?cr = "[CreateHelper ty (DB_SESSION_VAR (se_conf E)) (FUNCTION_LEAKPROOF (se_conf E)),
        CreateIsolationPolicy ?t (tp_tenant_column tp), CreateBypassPolicy ?t (ADMIN_FLAG_VAR (se_conf E))]"
  let ?dr = "[DropPolicy ''boundary_tenant_isolation'' ?t, DropPolicy ''boundary_admin_bypass'' ?t]"
  let ?un = "?dr @ [DisableRowSecurity ?t, NoForceRowSecurity ?t]"
  have "seqc (enable_rls_forwards E er app_label from_apps to_apps)
      (create_policy_forwards E tp app_label from_apps to_apps) w = (Inr (), w\<lparr>executed := sent (?en @ ?cr) @ executed w\<rparr>)"
    "seqc (create_policy_backwards E tp app_label from_apps to_apps)
      (enable_rls_backwards E er app_label from_apps to_apps) w = (Inr (), w\<lparr>executed := sent (?dr @ ?un) @ executed w\<rparr>)"
    "drop_policy_forwards E tp app_label from_apps to_apps w = (Inr (), w\<lparr>executed := sent ?dr @ executed w\<rparr>)"
    "drop_policy_backwards E tp app_label from_apps to_apps w = (Inr (), w\<lparr>executed := sent ?cr @ executed w\<rparr>)" for w
    by (simp_all add: ops seqc_def bindc_def)
  moreover have "let protected = ts\<lparr>ts_enabled := True, ts_forced := True,
           ts_policies := {''boundary_tenant_isolation'', ''boundary_admin_bypass''}\<rparr> in
     schema_after ?t (?en @ ?cr) ts = protected \<and> schema_after ?t ((?en @ ?cr) @ (?dr @ ?un)) ts = ts \<and>
     schema_after ?t ?dr protected = protected\<lparr>ts_policies := {}\<rparr> \<and>
     schema_after ?t (?dr @ ?cr) protected = protected"
    using assms(7-9) by (cases ts) (auto simp: Let_def)
  ultimately show ?thesis by blast
qed

definition order_class :: model_meta where
  "order_class = (plain_model ''shop'' ''Order'' ''shop_order'')\<lparr>mm_get_field := (\<lambda>n.
     if n = ''tenant'' then Inr (key_field\<lparr>mf_name := ''tenant'', mf_column := ''tenant_id'',
       mf_primary_key := False, mf_related_pk := Some (Some ''uuid'')\<rparr>)
     else Inl (OtherException ''FieldDoesNotExist''))\<rparr>"

definition shop_registry :: apps_registry where
  "shop_registry = tenants_registry\<lparr>model_at := (\<lambda>a n.
     if a = ''shop'' \<and> n = ''Order'' then Inr order_class else Inl (LookupError n))\<rparr>"

definition unprotected :: table_schema where
  "unprotected = \<lparr> ts_column = None, ts_uniques = [], ts_enabled = False, ts_forced = False, ts_policies = {} \<rparr>"

lemma member_env_succeeds: "statements_succeed (member_env n)"
  by (simp add: statements_succeed_def)

theorem policy_operations_reverse_witness:
  "\<exists>apply undo.
    seqc (enable_rls_forwards (member_env 0) (enable_rls_init ''Order'' None) ''shop'' shop_registry shop_registry)
      (create_policy_forwards (member_env 0) (tenant_policy_init ''Order'' None None) ''shop''
        shop_registry shop_registry) start = (Inr (), start\<lparr>executed := sent apply\<rparr>) \<and>
    seqc (create_policy_backwards (member_env 0) (tenant_policy_init ''Order'' None None) ''shop''
        shop_registry shop_registry)
      (enable_rls_backwards (member_env 0) (enable_rls_init ''Order'' None) ''shop'' shop_registry shop_registry)
      (start\<lparr>executed := sent apply\<rparr>) = (Inr (), start\<lparr>executed := sent undo @ sent apply\<rparr>) \<and>
    ts_enabled (schema_after ''shop_order'' apply unprotected) \<and>
    schema_after ''shop_order'' (apply @ undo) unprotected = unprotected"
proof -
  have table: "mm_table order_class = ''shop_order''" by (simp add: order_class_def plain_model_def)
  have type: "detect_tenant_column_type (tenant_policy_init ''Order'' None None) order_class = Inr ''uuid''"
    by (simp add: detect_tenant_column_type_def tenant_policy_init_def removesuffix_def order_class_def
        plain_model_def detect_tenant_pg_type_def pg_type_of_def PG_TYPE_MAP_def)
  have reg: "\<forall>apps \<in> {shop_registry, shop_registry}.
      model_at apps (target_app (er_app_label (enable_rls_init ''Order'' None)) ''shop'')
        (er_model_name (enable_rls_init ''Order'' None)) = Inr order_class \<and>
      model_at apps (target_app (tp_app_label (tenant_policy_init ''Order'' None None)) ''shop'')
        (tp_model_name (tenant_policy_init ''Order'' None None)) = Inr order_class"
    by (simp add: shop_registry_def target_app_def enable_rls_init_def tenant_policy_init_def)
  have col: "tp_tenant_column (tenant_policy_init ''Order'' None None) \<noteq> []"
    by (simp add: tenant_policy_init_def)
  have off: "\<not> ts_enabled unprotected" "\<not> ts_forced unprotected" "ts_policies unprotected = {}"
    by (simp_all add: unprotected_def)
  have router: "se_router (member_env 0) (se_alias (member_env 0)) order_class"
    "se_vendor (member_env 0) = ''postgresql''" by simp_all
  obtain up undo where run:
    "\<forall>w. seqc (enable_rls_forwards (member_env 0) (enable_rls_init ''Order'' None) ''shop'' shop_registry shop_registry)
      (create_policy_forwards (member_env 0) (tenant_policy_init ''Order'' None None) ''shop''
        shop_registry shop_registry) w = (Inr (), w\<lparr>executed := sent up @ executed w\<rparr>)"
    "\<forall>w. seqc (create_policy_backwards (member_env 0) (tenant_policy_init ''Order'' None None) ''shop''
        shop_registry shop_registry)
      (enable_rls_backwards (member_env 0) (enable_rls_init ''Order'' None) ''shop'' shop_registry shop_registry)
      w = (Inr (), w\<lparr>executed := sent undo @ executed w\<rparr>)"
    "schema_after ''shop_order'' up unprotected = unprotected\<lparr>ts_enabled := True, ts_forced := True,
       ts_policies := {''boundary_tenant_isolation'', ''boundary_admin_bypass''}\<rparr>"
    "schema_after ''shop_order'' (up @ undo) unprotected = unprotected"
    using policy_operations_reverse [OF member_env_succeeds router reg type col off, unfolded table Let_def] by blast
  show ?thesis
    by (rule exI [of _ up], rule exI [of _ undo]) (use run in simp)
qed

section \<open>Serialisation and quoting\<close>

text \<open>Calling the constructor with the keyword arguments \<open>deconstruct()\<close> returned.\<close>

definition kw_str :: "(string, kwarg) dict \<Rightarrow> string \<Rightarrow> string option" where
  "kw_str kw name = (case map_of kw name of Some (KwStr s) \<Rightarrow> Some s | _ \<Rightarrow> None)"

definition kw_strs :: "(string, kwarg) dict \<Rightarrow> string \<Rightarrow> string list" where
  "kw_strs kw name = (case map_of kw name of Some (KwStrs ss) \<Rightarrow> ss | _ \<Rightarrow> [])"

definition kw_value :: "(string, kwarg) dict \<Rightarrow> string \<Rightarrow> pyval" where
  "kw_value kw name = (case map_of kw name of Some (KwValue v) \<Rightarrow> v | _ \<Rightarrow> PNone)"

definition call_enable_rls :: "(string, kwarg) dict \<Rightarrow> enable_rls" where
  "call_enable_rls kw = enable_rls_init (the (kw_str kw ''model_name'')) (kw_str kw ''app_label'')"

definition call_tenant_policy :: "(string, kwarg) dict \<Rightarrow> tenant_policy" where
  "call_tenant_policy kw = tenant_policy_init (the (kw_str kw ''model_name'')) (kw_str kw ''tenant_column'')
     (kw_str kw ''app_label'')"

definition call_adopt_app :: "(string, kwarg) dict \<Rightarrow> adopt_app" where
  "call_adopt_app kw = adopt_app_init (the (kw_str kw ''app_label'')) (kw_strs kw ''exclude'')
     (kw_value kw ''backfill_tenant'')"

text \<open>
  an operation written into a migration file and read back is the operation it was: calling the
  constructor with what \<open>deconstruct()\<close> returns rebuilds it, and an argument left at its default is
  not written.
\<close>
theorem deconstruct_roundtrip:
  "call_enable_rls (snd (enable_rls_deconstruct (enable_rls_init name app))) = enable_rls_init name app \<and>
   call_tenant_policy (snd (tenant_policy_deconstruct q (tenant_policy_init name column app)))
     = tenant_policy_init name column app \<and>
   call_adopt_app (snd (adopt_app_deconstruct (adopt_app_init label exclude backfill)))
     = adopt_app_init label exclude backfill \<and>
   snd (enable_rls_deconstruct (enable_rls_init name None)) = [(''model_name'', KwStr name)] \<and>
   snd (tenant_policy_deconstruct q (tenant_policy_init name None None)) = [(''model_name'', KwStr name)] \<and>
   snd (adopt_app_deconstruct (adopt_app_init label [] PNone)) = [(''app_label'', KwStr label)]"
  by (cases app; cases column)
    (auto simp: call_enable_rls_def call_tenant_policy_def call_adopt_app_def kw_str_def kw_strs_def kw_value_def
      enable_rls_deconstruct_def tenant_policy_deconstruct_def adopt_app_deconstruct_def enable_rls_init_def
      tenant_policy_init_def adopt_app_init_def Let_def)

text \<open>How PostgreSQL reads a string literal: a doubled quote is a quote, a single one ends it.\<close>

fun read_quoted :: "string \<Rightarrow> string \<Rightarrow> (string \<times> string) option" where
  "read_quoted acc [] = None"
| "read_quoted acc (c # cs) =
     (if c \<noteq> CHR 0x27 then read_quoted (acc @ [c]) cs
      else case cs of
             d # ds \<Rightarrow> if d = CHR 0x27 then read_quoted (acc @ [CHR 0x27]) ds else Some (acc, cs)
           | [] \<Rightarrow> Some (acc, []))"

definition read_literal :: "string \<Rightarrow> (string \<times> string) option" where
  "read_literal s = (case s of [] \<Rightarrow> None | c # cs \<Rightarrow> if c = CHR 0x27 then read_quoted [] cs else None)"

lemma replace_quote: "replace_all [CHR 0x27] [CHR 0x27, CHR 0x27] (c # cs) =
    (if c = CHR 0x27 then [CHR 0x27, CHR 0x27] else [c]) @ replace_all [CHR 0x27] [CHR 0x27, CHR 0x27] cs"
  by (subst replace_all.simps) (simp add: starts_with_def del: replace_all.simps)

lemma replace_none: "replace_all old new [] = []"
  by (subst replace_all.simps) simp

lemma read_quoted_escaped:
  "c \<noteq> CHR 0x27 \<Longrightarrow>
    read_quoted acc (replace_all [CHR 0x27] [CHR 0x27, CHR 0x27] v @ CHR 0x27 # c # rest) = Some (acc @ v, c # rest)"
  by (induction v arbitrary: acc) (simp_all add: replace_quote replace_none del: replace_all.simps)

text \<open>
  whatever characters a session-variable name holds, the literal the policies and the helper put
  it in is read back as exactly that name, and the SQL after it is left as the code wrote it: a quote
  in a setting cannot end the literal.
\<close>
theorem literal_reads_back:
  "read_literal (sql_string_literal v @ '', true), '' @ rest) = Some (v, '', true), '' @ rest) \<and>
   read_literal (sql_string_literal v @ '', TRUE) = '' @ rest) = Some (v, '', TRUE) = '' @ rest)"
  by (simp add: read_literal_def sql_string_literal_def read_quoted_escaped del: replace_all.simps)

section \<open>No unique form stays global\<close>

text \<open>
  The documented consistency of the system tables: an index has its \<open>pg_class\<close> row, and a unique or
  primary-key constraint lies on the table of the index that backs it, which is the primary one
  exactly for a primary key.
\<close>

definition catalogue_consistent :: "catalogue \<Rightarrow> bool" where
  "catalogue_consistent cat \<longleftrightarrow>
     (\<forall>x \<in> set (cat_indexes cat). ix_relid x \<in> cl_oid ` set (cat_classes cat) \<and>
       (\<forall>c \<in> set (cat_constraints cat). con_indid c = ix_relid x \<and> con_type c \<in> {CHR ''u'', CHR ''p''} \<longrightarrow>
          con_relid c = ix_table x \<and> (con_type c = CHR ''p'' \<longrightarrow> ix_primary x)))"

lemma index_rows_bare:
  assumes "ix_relid x \<in> cl_oid ` set (cat_classes cat)" "\<forall>r \<in> set (index_rows cat x). ui_constraint r \<noteq> None"
  shows "\<exists>c \<in> set (cat_constraints cat). con_indid c = ix_relid x \<and> con_type c \<in> {CHR ''u'', CHR ''p''}"
proof (rule ccontr)
  assume "\<not> ?thesis"
  then have none: "filter (\<lambda>c. con_indid c = ix_relid x \<and> con_type c \<in> {CHR ''u'', CHR ''p''}) (cat_constraints cat) = []"
    by (simp add: filter_empty_conv)
  from assms(1) obtain i where "i \<in> set (cat_classes cat)" "cl_oid i = ix_relid x" by force
  with none assms(2) show False by (fastforce simp: index_rows_def Let_def)
qed

lemma backed_index_constraint:
  assumes "catalogue_consistent cat" "i \<in> set (unique_indexes cat t)" "\<not> ui_primary i" "ui_constraint i = Some n"
  shows "\<exists>c \<in> set (unique_constraints cat t). uc_name c = n"
proof -
  from assms(2) obtain x where oid: "regclass cat t = Some (ix_table x)" and x: "x \<in> set (cat_indexes cat)"
    and row: "i \<in> set (index_rows cat x)"
    by (cases "regclass cat t") (auto simp: unique_indexes_def)
  from row assms(3,4) have prim: "\<not> ix_primary x"
    by (auto simp: index_rows_def Let_def split: if_splits)
  from row assms(4) obtain c where c: "c \<in> set (cat_constraints cat)" "con_indid c = ix_relid x"
      "con_type c \<in> {CHR ''u'', CHR ''p''}" "con_name c = n"
    by (force simp: index_rows_def Let_def split: if_splits)
  with assms(1) x prim have "con_type c = CHR ''u''" "con_relid c = ix_table x"
    unfolding catalogue_consistent_def by auto
  with c oid show ?thesis by (force simp: unique_constraints_def)
qed

lemma validated_rewrites:
  assumes "validate_table E op m pg_type w = (Inr (Some plan), w')" "se_read E (executed w) = Inr cat"
  shows "(\<forall>i \<in> set (unique_indexes cat (mm_table m)). ui_primary i \<or> ui_constraint i \<noteq> None) \<and>
    pl_rewrites plan = map (\<lambda>c. (uc_name c, ''tenant_id'' # uc_columns c)) (unique_constraints cat (mm_table m))"
proof -
  have none: "column_type cat (mm_table m) ''tenant_id'' = None"
    using assms by (cases "column_type cat (mm_table m) ''tenant_id''")
      (auto simp: validate_table_def Let_def bindc_def catalogue_now_def raise_def split: if_splits)
  show ?thesis by (rule validate_table_fresh [OF assms none]) auto
qed

text \<open>
  C22: for a table whose adoption is planned, every unique index but the primary key's belongs to a
  unique constraint, and the plan replaces that constraint by one that leads with \<open>tenant_id\<close>: no
  uniqueness across tenants survives, whatever form it was declared in (BR-RLS-012).
\<close>
theorem no_unique_form_stays_global:
  assumes "validate_table E op m pg_type w = (Inr (Some plan), w')"
    and "se_read E (executed w) = Inr cat" "catalogue_consistent cat" "regclass cat (mm_table m) = Some oid"
    and "x \<in> set (cat_indexes cat)" "ix_table x = oid" "ix_unique x" "\<not> ix_primary x"
  shows "\<exists>c \<in> set (cat_constraints cat). con_indid c = ix_relid x \<and> con_type c = CHR ''u'' \<and>
    (con_name c, ''tenant_id'' # key_columns cat oid (con_key c)) \<in> set (pl_rewrites plan)"
proof -
  note v = validated_rewrites [OF assms(1,2)]
  have rows: "set (index_rows cat x) \<subseteq> set (unique_indexes cat (mm_table m))"
    using assms(4-7) by (auto simp: unique_indexes_def)
  have prim: "ui_primary r = ix_primary x" if "r \<in> set (index_rows cat x)" for r
    using that by (auto simp: index_rows_def Let_def split: if_splits)
  from v rows prim assms(8) have "\<forall>r \<in> set (index_rows cat x). ui_constraint r \<noteq> None" by blast
  with index_rows_bare assms(3,5) obtain c where
    c: "c \<in> set (cat_constraints cat)" "con_indid c = ix_relid x" "con_type c \<in> {CHR ''u'', CHR ''p''}"
    unfolding catalogue_consistent_def by meson
  with assms(3,5,6,8) have u: "con_type c = CHR ''u''" "con_relid c = oid"
    unfolding catalogue_consistent_def by auto
  with c assms(4) v have "(con_name c, ''tenant_id'' # key_columns cat oid (con_key c)) \<in> set (pl_rewrites plan)"
    by (force simp: unique_constraints_def)
  with c u show ?thesis by blast
qed

theorem no_unique_form_stays_global_witness:
  "\<exists>plan c. validate_table (member_env 0) (adopt_tenants PNone) member_class ''uuid'' start = (Inr (Some plan), start) \<and>
     c \<in> set (cat_constraints (member_catalogue 0)) \<and>
     (con_name c, ''tenant_id'' # key_columns (member_catalogue 0) 7 (con_key c)) \<in> set (pl_rewrites plan)"
proof -
  let ?x = "\<lparr> ix_relid = 9, ix_table = 7, ix_key = [2], ix_unique = True, ix_primary = False,
            ix_partial = False, ix_expression = False \<rparr>"
  obtain plan where plan: "validate_table (member_env 0) (adopt_tenants PNone) member_class ''uuid'' start = (Inr (Some plan), start)"
    by (auto simp: member_prepares)
  have "catalogue_consistent (member_catalogue 0)"
    by (simp add: catalogue_consistent_def member_catalogue_def)
  from no_unique_form_stays_global [OF plan _ this, of 7 ?x] obtain c where
    "c \<in> set (cat_constraints (member_catalogue 0))"
    "(con_name c, ''tenant_id'' # key_columns (member_catalogue 0) 7 (con_key c)) \<in> set (pl_rewrites plan)"
    by (auto simp: member_catalogue_simps)
  with plan show ?thesis by blast
qed

section \<open>Reversing an adoption\<close>





text \<open>The unique constraints without the tenant column, while the composites are dropped one by one.\<close>

definition untenanted :: "(string \<times> string list) list \<Rightarrow> (string \<times> string list) list" where
  "untenanted us = filter (\<lambda>u. ''tenant_id'' \<notin> set (snd u)) us"

lemma untenanted_simps [simp]: "untenanted (us @ vs) = untenanted us @ untenanted vs" "untenanted [] = []"
  "untenanted (u # us) = (if ''tenant_id'' \<notin> set (snd u) then u # untenanted us else untenanted us)"
  by (simp_all add: untenanted_def)



definition email_field :: meta_field where
  "email_field = \<lparr> mf_name = ''email'', mf_column = ''email'', mf_unique = True, mf_primary_key = False,
     mf_db_type = Some ''text'', mf_related_pk = None, mf_through = None \<rparr>"

text \<open>The member table as its historical model declares it, and its catalogue once adopted.\<close>

definition contact_class :: "meta_constraint list \<Rightarrow> model_meta" where
  "contact_class constraints = member_class\<lparr>mm_local_fields := [key_field, email_field],
     mm_get_field := (\<lambda>n. if n = ''email'' then Inr email_field else Inl (OtherException ''FieldDoesNotExist'')),
     mm_constraints := constraints\<rparr>"

definition adopted_catalogue :: catalogue where
  "adopted_catalogue = (member_catalogue 2)\<lparr>
     cat_attributes := cat_attributes (member_catalogue 2) @
       [\<lparr> att_relid = 7, att_name = ''tenant_id'', att_num = 3, att_dropped = False, att_type = ''uuid'' \<rparr>],
     cat_constraints := [\<lparr> con_name = ''member_email_key_tenant'', con_relid = 7, con_type = CHR ''u'', con_key = [3, 2],
       con_deferrable = False, con_indid = 10 \<rparr>]\<rparr>"

definition adopted_env :: schema_env where
  "adopted_env = (member_env 2)\<lparr>se_read := (\<lambda>_. Inr adopted_catalogue)\<rparr>"

definition adopted_key :: unique_constraint where
  "adopted_key = \<lparr> uc_name = ''member_email_key_tenant'', uc_columns = [''tenant_id'', ''email''],
     uc_deferrable = False, uc_fk_targeted = False \<rparr>"

lemma adopted_catalogue_facts:
  "unique_constraints adopted_catalogue ''tenants_member'' = [adopted_key]"
  "column_type adopted_catalogue ''tenants_member'' ''tenant_id'' = Some ''uuid''"
  by (simp_all add: adopted_catalogue_def member_catalogue_def unique_constraints_def key_columns_def
      adopted_key_def column_type_def)

lemma adopted_key_simps [simp]: "uc_name adopted_key = ''member_email_key_tenant''"
  "uc_columns adopted_key = [''tenant_id'', ''email'']"
  by (simp_all add: adopted_key_def)

lemma contact_class_facts [simp]:
  "mm_table (contact_class cs) = ''tenants_member''"
  "historical_unique_column_sets (contact_class []) = [Inr [email_field]]"
  "mf_column email_field = ''email''"
  by (simp_all add: contact_class_def historical_unique_column_sets_def key_field_def email_field_def
      member_class_def plain_model_def)


lemma adopted_env_simps [simp]: "se_read adopted_env tr = Inr adopted_catalogue"
  "se_unique_sql adopted_env m fs = Some (AddUnique (mm_table m) ''restored'' (map mf_column fs))"
  by (simp_all add: adopted_env_def member_env_def)


section \<open>Where the reversal falls short\<close>

text \<open>
  a model that declares the same uniqueness twice (\<open>unique=True\<close> and a \<open>UniqueConstraint\<close> on the
  field) cannot be un-adopted: both rounds of the reversal pick the same composite from the one
  catalogue read they share, so its \<open>DROP CONSTRAINT\<close> is sent a second time and fails, while the other
  composite is never looked for.
\<close>
theorem repeated_unique_blocks_reversal:
  assumes "historical_unique_column_sets m = [Inr fs, Inr fs']" "map mf_column fs' = map mf_column fs"
    and "\<forall>tr. se_read E tr = Inr cat" "column_type cat (mm_table m) ''tenant_id'' \<noteq> None"
    and c: "find (\<lambda>c. uc_columns c = ''tenant_id'' # map mf_column fs) (unique_constraints cat (mm_table m)) = Some c"
    and "se_unique_sql E m fs = Some (AddUnique (mm_table m) name (map mf_column fs))"
    and pg: "\<forall>tr s. se_execute E tr s =
      (if s = DropConstraint (mm_table m) (uc_name c) \<and> (s, True) \<in> set tr then Inl e else Inr 0)"
    and "(DropConstraint (mm_table m) (uc_name c), True) \<notin> set (executed w)"
  shows "fst (unadopt_table E m w) = Inl e"
  using assms
  by (simp add: unadopt_table_def Let_def bindc_def seqc_def catalogue_now_def execute_def execute_rows_def
      restore_unique_constraints_def restore_column_set_def)

definition once_env :: schema_env where
  "once_env = adopted_env\<lparr>se_execute := (\<lambda>tr s.
     if s = DropConstraint ''tenants_member'' ''member_email_key_tenant'' \<and> (s, True) \<in> set tr
     then Inl (DatabaseError ''constraint does not exist'') else Inr 0)\<rparr>"

definition email_unique :: meta_constraint where
  "email_unique = UniqueConstraint \<lparr> ud_fields = [''email''], ud_condition = False, ud_expressions = False,
     ud_deferrable = False, ud_include = False, ud_opclasses = False, ud_nulls_distinct = None \<rparr>"

theorem repeated_unique_blocks_reversal_witness:
  "fst (unadopt_table once_env (contact_class [email_unique]) start) = Inl (DatabaseError ''constraint does not exist'')"
  using repeated_unique_blocks_reversal [of "contact_class [email_unique]" "[email_field]" "[email_field]" once_env
      adopted_catalogue adopted_key "''restored''" "DatabaseError ''constraint does not exist''" start]
  by (simp add: once_env_def adopted_catalogue_facts)
    (simp add: contact_class_def historical_unique_column_sets_def key_field_def email_field_def email_unique_def
      rewritten_form_def member_class_def plain_model_def)

text \<open>A step only ever adds to the statements sent.\<close>

definition extends :: "'a mig \<Rightarrow> bool" where
  "extends m \<longleftrightarrow> (\<forall>w. set (executed w) \<subseteq> set (executed (snd (m w))))"

named_theorems extends_intros \<open>rules showing that a computation only adds statements\<close>

lemma extends_keeps: "keeps executed m \<Longrightarrow> extends m"
  by (simp add: extends_def keeps_def)

lemma extends_reads [extends_intros]: "extends (ret x)" "extends (raise e)" "extends (liftc r)"
  "extends (catalogue_now E)"
  by (auto intro!: extends_keeps keeps_intros simp del: liftc_apply)

lemma extends_bindc [extends_intros]: "extends m \<Longrightarrow> (\<And>x. extends (k x)) \<Longrightarrow> extends (bindc m k)"
  unfolding extends_def bindc_def by (fastforce split: prod.splits sum.splits)

lemma extends_seqc [extends_intros]: "extends m \<Longrightarrow> extends k \<Longrightarrow> extends (seqc m k)"
  unfolding seqc_def by (rule extends_bindc)

lemma extends_if [extends_intros]: "extends m \<Longrightarrow> extends n \<Longrightarrow> extends (if b then m else n)"
  by simp

lemma extends_option [extends_intros]:
  "extends m \<Longrightarrow> (\<And>y. extends (n y)) \<Longrightarrow> extends (case x of None \<Rightarrow> m | Some y \<Rightarrow> n y)"
  by (cases x) auto

lemma extends_for_each [extends_intros]: "(\<And>x. extends (g x)) \<Longrightarrow> extends (for_each xs g)"
  by (induction xs) (auto intro!: extends_intros simp del: liftc_apply)

lemma extends_execute [extends_intros]: "extends (execute E s)"
  by (auto simp: extends_def execute_def seqc_def bindc_def execute_rows_def split: sum.splits prod.splits)

lemma extends_unadopt_table: "extends (unadopt_table E m)"
  unfolding unadopt_table_def Let_def restore_unique_constraints_def restore_column_set_def
  by (intro extends_intros)

lemma seqc_last: "seqc m k w = (Inr r, w') \<Longrightarrow> \<exists>w1. k w1 = (Inr r, w')"
  by (auto simp: seqc_def bindc_def split: prod.splits sum.splits)

lemma execute_sent: "execute E s w = (Inr (), w') \<Longrightarrow> (s, True) \<in> set (executed w')"
  using issuesD [OF issues_execute, of E s w "()" w'] by simp

lemma unadopt_drops_column:
  assumes "unadopt_table E m w = (Inr (), w')" "\<forall>tr. se_read E tr = Inr cat"
    and "column_type cat (mm_table m) ''tenant_id'' = Some ty"
  shows "(DropTenantColumn (mm_table m), True) \<in> set (executed w')"
  using assms by (auto simp: unadopt_table_def Let_def bindc_def catalogue_now_def
      dest!: seqc_last intro: execute_sent)

lemma for_each_member:
  assumes "for_each xs g w = (Inr (), w')" "x \<in> set xs" "\<And>x. extends (g x)"
    and "\<And>w w'. g x w = (Inr (), w') \<Longrightarrow> s \<in> set (executed w')"
  shows "s \<in> set (executed w')"
  using assms(1,2)
proof (induction xs arbitrary: w)
  case (Cons y xs)
  then obtain w1 where g: "g y w = (Inr (), w1)" and rest: "for_each xs g w1 = (Inr (), w')"
    by (auto simp: seqc_def bindc_def split: prod.splits sum.splits)
  show ?case
  proof (cases "x = y")
    case True
    with g assms(4) have "s \<in> set (executed w1)" by blast
    moreover have "extends (for_each xs g)" by (intro extends_intros assms(3))
    ultimately show ?thesis using rest unfolding extends_def by (metis snd_conv subsetD)
  next
    case False
    with Cons.prems Cons.IH [OF rest] show ?thesis by simp
  qed
qed simp

text \<open>A table that carries the column already is not touched by a forward step.\<close>

lemma adopted_table_untouched:
  assumes run: "adopt_app_forwards E op app_label from_apps to_apps w = (Inr (), w')"
    and ms: "adopted_models (se_conf E) (se_live E) to_apps (aa_app_label op) (aa_exclude op) = Inr ms"
    and m: "m \<in> set ms" "distinct (map mm_table ms)"
    and cat: "se_read E (executed w) = Inr cat" "column_type cat (mm_table m) ''tenant_id'' = Some ty"
    and pg: "tenant_pg_type E op w = (Inr pg_type, w)" "pg_types_match ty pg_type"
  shows "\<exists>ss. executed w' = sent ss @ executed w \<and> (\<forall>s \<in> set ss. sql_table s \<noteq> Some (mm_table m))"
  using run
proof (cases rule: adopt_app_forwards_Inr)
  case 1
  then show ?thesis by (intro exI [of _ "[]"]) simp
next
  case (2 ty' plans)
  obtain ms' where
    "adopted_models (se_conf E) (se_live E) to_apps (aa_app_label op) (aa_exclude op) = Inr ms'"
    and "plan_tables E op ty' (router_allowed_models E ms') w = (Inr plans, w)"
    and same: "fst (tenant_pg_type E op w) = Inr ty'"
    by (rule prepare_Some [OF 2(1)])
  with ms pg have plan: "plan_tables E op pg_type (router_allowed_models E ms) w = (Inr plans, w)" by simp
  from plan_tables_Inr [OF plan] obtain f where
    f: "\<forall>m \<in> set (router_allowed_models E ms). validate_table E op m pg_type w = (Inr (f m), w)"
    and plans: "plans = List.map_filter f (router_allowed_models E ms)" by blast
  have none: "f m = None" if "m \<in> set (router_allowed_models E ms)"
    using f that validate_table_adopted [OF cat pg(2)] by auto
  have "\<forall>p \<in> set plans. pl_table p \<noteq> mm_table m"
  proof (intro ballI notI)
    fix p
    assume that: "p \<in> set plans"
    assume eq: "pl_table p = mm_table m"
    from that plans obtain m' where m': "m' \<in> set (router_allowed_models E ms)" "f m' = Some p"
      by (auto simp: List.map_filter_def)
    with f validate_table_names eq have "mm_table m' = mm_table m" by (metis sum.inject(2) prod.inject)
    with m m'(1) have "m' = m" by (auto simp: router_allowed_models_def distinct_map inj_on_def)
    with m' none show False by simp
  qed
  with 2(2) show ?thesis
    by (intro exI [of _ "(if plans = [] then []
         else [CreateHelper ty' (DB_SESSION_VAR (se_conf E)) (FUNCTION_LEAKPROOF (se_conf E))]) @
         concat (map (adopt_statements E op) plans)"]) (auto dest!: adopt_statements_table)
qed

text \<open>
  C40: the reversal loses what the forward step never gave: a table an earlier adoption already covers
  is skipped by a later one, which sends no statement about it, but reversing the later one drops its
  tenant column and its policies all the same, although the earlier adoption is still applied.
\<close>
theorem reversal_unadopts_skipped_table:
  assumes "adopt_app_forwards E op app_label from_apps to_apps w = (Inr (), w')"
    and ms: "adopted_models (se_conf E) (se_live E) to_apps (aa_app_label op) (aa_exclude op) = Inr ms"
    and m: "m \<in> set ms" "se_router E (se_alias E) m" "distinct (map mm_table ms)"
    and cat: "\<forall>tr. se_read E tr = Inr cat" "column_type cat (mm_table m) ''tenant_id'' = Some ty"
    and "tenant_pg_type E op w = (Inr pg_type, w)" "pg_types_match ty pg_type"
    and rev_run: "adopt_app_backwards E op app_label to_apps from_apps w' = (Inr (), w'')"
  shows "(\<exists>ss. executed w' = sent ss @ executed w \<and> (\<forall>s \<in> set ss. sql_table s \<noteq> Some (mm_table m))) \<and>
    (DropTenantColumn (mm_table m), True) \<in> set (executed w'')"
proof
  from m have allowed: "m \<in> set (router_allowed_models E ms)" by (simp add: router_allowed_models_def)
  then have "router_allowed_models E ms \<noteq> []" by auto
  with rev_run ms obtain w1 where "for_each (router_allowed_models E ms) (unadopt_table E) w1 = (Inr (), w'')"
    by (auto simp: adopt_app_backwards_def bindc_liftc Let_def dest!: seqc_last)
  from for_each_member [OF this allowed extends_unadopt_table] unadopt_drops_column cat
  show "(DropTenantColumn (mm_table m), True) \<in> set (executed w'')" by blast
qed (rule adopted_table_untouched [OF assms(1) ms m(1,3) _ cat(2) assms(8,9)], simp add: cat(1))

theorem reversal_unadopts_skipped_table_witness:
  "let w' = snd (adopt_app_forwards adopted_env (adopt_tenants PNone) ''club'' tenants_registry tenants_registry start) in
    executed w' = [] \<and>
    (DropTenantColumn ''tenants_member'', True) \<in>
      set (executed (snd (adopt_app_backwards adopted_env (adopt_tenants PNone) ''club'' tenants_registry tenants_registry w')))"
proof -
  have conf: "se_conf adopted_env = default_settings" "se_live adopted_env = tenants_registry"
    "se_router adopted_env a m" "se_alias adopted_env = ''default''" "se_vendor adopted_env = ''postgresql''" for a m
    by (simp_all add: adopted_env_def)
  have ok: "statements_succeed adopted_env" by (simp add: statements_succeed_def adopted_env_def)
  have ty: "tenant_pg_type adopted_env (adopt_tenants PNone) start = (Inr ''uuid'', start)"
    using member_steps(2) [of 2 PNone start] unfolding tenant_pg_type_def conf member_env_simps .
  have same: "pg_types_match ''uuid'' ''uuid''" by (simp add: pg_types_match_def)
  have hist: "historical_unique_column_sets member_class = []"
    by (simp add: historical_unique_column_sets_def member_class_def plain_model_def key_field_def)
  note start_forward = adopt_app_forwards_def seqc_def bindc_def Let_def member_steps(1) conf
    tenants_registry_adopts router_allowed_models_def require_postgresql_def ty validate_table_def
    catalogue_now_def adopted_catalogue_facts same
  have run: "adopt_app_forwards adopted_env (adopt_tenants PNone) ''club'' tenants_registry tenants_registry start = (Inr (), start)"
    by (simp add: start_forward)
  obtain w'' where rev_run: "adopt_app_backwards adopted_env (adopt_tenants PNone) ''club'' tenants_registry tenants_registry start = (Inr (), w'')"
    by (simp add: adopt_app_backwards_def start_forward unadopt_table_def restore_unique_constraints_def hist
        execute_ok [OF ok])
  from reversal_unadopts_skipped_table [OF run _ _ _ _ _ _ ty same rev_run, of "[member_class]" member_class
      adopted_catalogue]
  have "(DropTenantColumn ''tenants_member'', True) \<in> set (executed w'')"
    by (simp add: conf tenants_registry_adopts adopted_catalogue_facts)
  with run rev_run show ?thesis by simp
qed

text \<open>
  The reversal, like the forward step, looks past \<open>nulls_distinct\<close>: a constraint declared with it is
  rebuilt, and was rewritten, as a plain one.
\<close>

lemma nulls_not_distinct_listed:
  "UniqueConstraint d \<in> set (mm_constraints m) \<Longrightarrow> ud_nulls_distinct d = Some False \<Longrightarrow> ud_fields d \<noteq> [] \<Longrightarrow>
    rewritten_form d \<Longrightarrow> get_fields_named m (ud_fields d) \<in> set (historical_unique_column_sets m)"
  by (force simp: historical_unique_column_sets_def)

end
