(* ===== verification/Checks.thy ===== *)
theory Checks
  imports Migration_Laws
begin

text \<open>
  The system checks (\<open>src/boundary/checks.py\<close>). A check is a function of the settings, the app
  registry and what the database answers, and returns its reports or the exception it lets escape. A
  report is a constructor per message, with what the message names as arguments. A check's database
  block either fails, at whichever of its statements and always with an \<open>Exception\<close>, so that every
  \<open>except Exception\<close> around it catches, or sees a catalogue.
\<close>

section \<open>Reports\<close>

datatype report =
    TenantModelUnset
  | TenantModelNotInstalled string string
  | ResolverNotImportable string
  | MiddlewareMissing
  | StrictModeOff
  | PostureUnsafe string
  | DoubleResolution
  | ClientControlled "string list"
  | RouterMissing
  | UnconstrainedSubdomain "string list"
  | RlsOff bool string string
  | RlsUnknown string string exn
  | SessionVarOff bool string string
  | SessionVarUnknown string string exn
  | AdoptedAppRefused string refusal
  | ExcludedTenantModel string
  | ExcludedNoApp string string
  | AdoptedUnknown string string exn
  | ColumnMissing string string
  | ColumnWrongType string string string string
  | AdoptedRlsOff string string bool bool
  | PolicyMissing string string string
  | UniqueConstraintGlobal string string string "string list"
  | UniqueIndexGlobal string string string "string list"
  | RoleUnknown exn
  | RoleBypasses

fun report_id :: "report \<Rightarrow> string" where
  "report_id TenantModelUnset = ''boundary.E001''"
| "report_id (TenantModelNotInstalled _ _) = ''boundary.E001''"
| "report_id (ResolverNotImportable _) = ''boundary.E003''"
| "report_id MiddlewareMissing = ''boundary.E004''"
| "report_id StrictModeOff = ''boundary.W001''"
| "report_id (PostureUnsafe _) = ''boundary.E008''"
| "report_id DoubleResolution = ''boundary.W002''"
| "report_id (ClientControlled _) = ''boundary.W006''"
| "report_id RouterMissing = ''boundary.E005''"
| "report_id (UnconstrainedSubdomain _) = ''boundary.W008''"
| "report_id (RlsOff _ _ _) = ''boundary.E006''"
| "report_id (RlsUnknown _ _ _) = ''boundary.W007''"
| "report_id (SessionVarOff _ _ _) = ''boundary.W009''"
| "report_id (SessionVarUnknown _ _ _) = ''boundary.W007''"
| "report_id (AdoptedAppRefused _ _) = ''boundary.E007''"
| "report_id (ExcludedTenantModel _) = ''boundary.E007''"
| "report_id (ExcludedNoApp _ _) = ''boundary.E007''"
| "report_id (AdoptedUnknown _ _ _) = ''boundary.W007''"
| "report_id (ColumnMissing _ _) = ''boundary.E007''"
| "report_id (ColumnWrongType _ _ _ _) = ''boundary.E007''"
| "report_id (AdoptedRlsOff _ _ _ _) = ''boundary.E007''"
| "report_id (PolicyMissing _ _ _) = ''boundary.E007''"
| "report_id (UniqueConstraintGlobal _ _ _ _) = ''boundary.E007''"
| "report_id (UniqueIndexGlobal _ _ _ _) = ''boundary.E007''"
| "report_id (RoleUnknown _) = ''boundary.W007''"
| "report_id RoleBypasses = ''boundary.W003''"

text \<open>\<open>Error(...)\<close> or \<open>Warning(...)\<close>: the class agrees with the letter of the identifier.\<close>

definition is_error :: "report \<Rightarrow> bool" where
  "is_error r \<longleftrightarrow> report_id r ! 9 = CHR ''E''"

text \<open>\<open>errors.extend\<close> of one result after the other; the first exception escapes.\<close>

fun gather :: "(exn + 'a list) list \<Rightarrow> exn + 'a list" where
  "gather [] = Inr []"
| "gather (r # rs) =
     (case r of Inl e \<Rightarrow> Inl e | Inr xs \<Rightarrow> map_sum id (\<lambda>ys. xs @ ys) (gather rs))"

section \<open>What the checks look at\<close>

text \<open>What a dotted path imports: a class, with the names of its bases and its own, or something else.\<close>

datatype imported = PyClass "string set" | NotAClass

datatype router_entry = RouterPath string | RouterInstance imported

text \<open>
  \<open>ck_routers\<close>: \<open>DATABASE_ROUTERS\<close>. \<open>ck_import\<close>: \<open>import_string\<close>. \<open>ck_models\<close>: \<open>apps.get_models()\<close>. \<open>ck_query check
  table\<close>: the cursor block of a check on a table. \<open>ck_role\<close>: the row of \<open>pg_roles\<close> (superuser, bypassrls).
\<close>

record check_env =
  ck_conf :: django_settings
  ck_routers :: "router_entry list option"
  ck_import :: "string \<Rightarrow> exn + imported"
  ck_live :: apps_registry
  ck_models :: "model_meta list"
  ck_vendor :: string
  ck_query :: "string \<Rightarrow> string \<Rightarrow> exn + catalogue"
  ck_role :: "exn + (bool \<times> bool) option"

fun connection_unavailable :: "exn \<Rightarrow> bool" where
  "connection_unavailable (OperationalError _) = True"
| "connection_unavailable (InterfaceError _) = True"
| "connection_unavailable _ = False"

fun is_import_error :: "exn \<Rightarrow> bool" where
  "is_import_error (PyImportError _) = True"
| "is_import_error _ = False"

fun is_import_or_attribute_error :: "exn \<Rightarrow> bool" where
  "is_import_or_attribute_error (PyImportError _) = True"
| "is_import_or_attribute_error (PyAttributeError _) = True"
| "is_import_or_attribute_error _ = False"

text \<open>\<open>issubclass(obj, classes)\<close> raises on what is not a class; the guarded form asks \<open>isinstance(obj, type)\<close> first.\<close>

definition issubclass :: "imported \<Rightarrow> string set \<Rightarrow> exn + bool" where
  "issubclass obj classes =
     (case obj of
        PyClass mro \<Rightarrow> Inr (mro \<inter> classes \<noteq> {})
      | NotAClass \<Rightarrow> Inl (PyTypeError ''issubclass() arg 1 must be a class''))"

definition is_subclass :: "imported \<Rightarrow> string set \<Rightarrow> bool" where
  "is_subclass obj classes = (case obj of PyClass mro \<Rightarrow> mro \<inter> classes \<noteq> {} | NotAClass \<Rightarrow> False)"

definition ends_with :: "string \<Rightarrow> string \<Rightarrow> bool" where
  "ends_with s suffix \<longleftrightarrow> length suffix \<le> length s \<and> drop (length s - length suffix) s = suffix"

section \<open>Checks of the settings\<close>

definition external_middleware :: "string list" where
  "external_middleware =
     [''icv_tenants.middleware.TenantContextMiddleware'',
      ''icv_identity.tenants.middleware.TenantContextMiddleware'']"

definition has_external_middleware :: "string list \<Rightarrow> bool" where
  "has_external_middleware middleware \<longleftrightarrow>
     list_ex (\<lambda>entry. list_ex (ends_with entry) external_middleware) middleware"

text \<open>\<open>getattr(settings, "BOUNDARY_TENANT_MODEL", None) or getattr(settings, "ICV_TENANT_MODEL", None)\<close>\<close>

definition model_string :: "django_settings \<Rightarrow> string option" where
  "model_string s =
     (case str_or (setting (BOUNDARY_TENANT_MODEL s) None) (setting (ICV_TENANT_MODEL s) None) of
        None \<Rightarrow> None
      | Some p \<Rightarrow> if p = [] then None else Some p)"

definition check_tenant_model :: "check_env \<Rightarrow> exn + report list" where
  "check_tenant_model C =
     (case model_string (ck_conf C) of
        None \<Rightarrow> Inr [TenantModelUnset]
      | Some path \<Rightarrow>
          (let source = (case setting (BOUNDARY_TENANT_MODEL (ck_conf C)) None of
                           None \<Rightarrow> ''ICV_TENANT_MODEL''
                         | Some p \<Rightarrow> if p = [] then ''ICV_TENANT_MODEL'' else ''BOUNDARY_TENANT_MODEL'')
           in case model_path (ck_live C) path of
                Inl e \<Rightarrow> if is_lookup_error e then Inr [TenantModelNotInstalled source path] else Inl e
              | Inr _ \<Rightarrow> Inr []))"

definition check_resolvers :: "check_env \<Rightarrow> exn + report list" where
  "check_resolvers C = gather (map (\<lambda>path.
     case ck_import C path of
       Inl e \<Rightarrow> if is_import_error e then Inr [ResolverNotImportable path] else Inl e
     | Inr _ \<Rightarrow> Inr []) (RESOLVERS (ck_conf C)))"

definition middleware_entries :: "django_settings \<Rightarrow> string list" where
  "middleware_entries s = setting (MIDDLEWARE s) []"

text \<open>The loop of \<open>_check_middleware\<close>: whether an entry is found that resolves the tenant.\<close>

fun find_tenant_middleware :: "check_env \<Rightarrow> string list \<Rightarrow> exn + bool" where
  "find_tenant_middleware C [] = Inr False"
| "find_tenant_middleware C (entry # entries) =
     (if entry = ''boundary.middleware.TenantMiddleware'' then Inr True
      else case ck_import C entry of
             Inl e \<Rightarrow> if is_import_or_attribute_error e then find_tenant_middleware C entries else Inl e
           | Inr obj \<Rightarrow>
               if is_subclass obj {''boundary.middleware.TenantMiddleware''} then Inr True
               else find_tenant_middleware C entries)"

definition check_middleware :: "check_env \<Rightarrow> exn + report list" where
  "check_middleware C =
     (let middleware = middleware_entries (ck_conf C) in
      if has_external_middleware middleware then Inr []
      else map_sum id (\<lambda>found. if found then [] else [MiddlewareMissing]) (find_tenant_middleware C middleware))"

definition check_strict_mode :: "check_env \<Rightarrow> exn + report list" where
  "check_strict_mode C = Inr (if \<not> setting (BOUNDARY_STRICT_MODE (ck_conf C)) True then [StrictModeOff] else [])"

definition posture_settings :: "(string \<times> (django_settings \<Rightarrow> bool option)) list" where
  "posture_settings = [(''BOUNDARY_STRICT_MODE'', BOUNDARY_STRICT_MODE),
     (''BOUNDARY_SET_DB_SESSION_VAR'', BOUNDARY_SET_DB_SESSION_VAR)]"

definition check_production_posture :: "check_env \<Rightarrow> exn + report list" where
  "check_production_posture C =
     (if setting (DEBUG (ck_conf C)) False then Inr []
      else Inr (concat (map (\<lambda>(name, read). if setting (read (ck_conf C)) True then [] else [PostureUnsafe name])
        posture_settings)))"

definition check_external_double_resolve :: "check_env \<Rightarrow> exn + report list" where
  "check_external_double_resolve C =
     (let middleware = middleware_entries (ck_conf C);
          own = (if list_ex (\<lambda>entry. ends_with entry ''boundary.middleware.TenantMiddleware'') middleware
                 then 1 else 0 :: nat);
          external = length (filter (\<lambda>path. list_ex (\<lambda>entry. ends_with entry path) middleware) external_middleware)
      in Inr (if own + external < 2 then [] else [DoubleResolution]))"

text \<open>The configured resolver paths whose class is one of the given; an unimportable path is skipped.\<close>

definition resolvers_of_class :: "check_env \<Rightarrow> string set \<Rightarrow> exn + string list" where
  "resolvers_of_class C classes = gather (map (\<lambda>path.
     case ck_import C path of
       Inl e \<Rightarrow> if is_import_error e then Inr [] else Inl e
     | Inr obj \<Rightarrow> map_sum id (\<lambda>sub. if sub then [path] else []) (issubclass obj classes))
     (RESOLVERS (ck_conf C)))"

definition check_client_controlled :: "check_env \<Rightarrow> exn + report list" where
  "check_client_controlled C =
     (if ''django.contrib.auth'' \<notin> set (INSTALLED_APPS (ck_conf C)) then Inr []
      else map_sum id (\<lambda>paths. if paths = [] then [] else [ClientControlled paths])
        (resolvers_of_class C {''boundary.resolvers.HeaderResolver'', ''boundary.resolvers.JWTClaimResolver''}))"

text \<open>The loop of \<open>_check_regional_router_configured\<close>.\<close>

fun find_regional_router :: "check_env \<Rightarrow> router_entry list \<Rightarrow> exn + bool" where
  "find_regional_router C [] = Inr False"
| "find_regional_router C (RouterPath path # entries) =
     (case ck_import C path of
        Inl e \<Rightarrow> if is_import_error e then find_regional_router C entries else Inl e
      | Inr obj \<Rightarrow>
          if is_subclass obj {''boundary.routing.RegionalRouter''} then Inr True
          else find_regional_router C entries)"
| "find_regional_router C (RouterInstance cls # entries) =
     (if is_subclass cls {''boundary.routing.RegionalRouter''} then Inr True
      else find_regional_router C entries)"

definition check_regional_router :: "check_env \<Rightarrow> exn + report list" where
  "check_regional_router C =
     (case setting (BOUNDARY_REGIONS (ck_conf C)) None of
        None \<Rightarrow> Inr []
      | Some regions \<Rightarrow>
          if regions = [] then Inr []
          else map_sum id (\<lambda>found. if found then [] else [RouterMissing])
            (find_regional_router C (setting (ck_routers C) [])))"

definition parent_domain_set :: "django_settings \<Rightarrow> bool" where
  "parent_domain_set s =
     (case setting (BOUNDARY_SUBDOMAIN_PARENT_DOMAIN s) None of
        None \<Rightarrow> False
      | Some (OneDomain d) \<Rightarrow> d \<noteq> []
      | Some (DomainList ds) \<Rightarrow> ds \<noteq> [])"

definition check_subdomain_parent :: "check_env \<Rightarrow> exn + report list" where
  "check_subdomain_parent C =
     (if parent_domain_set (ck_conf C) then Inr []
      else map_sum id (\<lambda>paths. if paths = [] then [] else [UnconstrainedSubdomain paths])
        (resolvers_of_class C {''boundary.resolvers.SubdomainResolver''}))"

section \<open>Checks of the database\<close>

definition expected_adopted_tables :: "check_env \<Rightarrow> exn + (model_meta \<times> string) list" where
  "expected_adopted_tables C =
     (case expected_adopted_models (ck_conf C) (ck_live C) of
        Inl e \<Rightarrow> if e = ImproperlyConfigured then Inr [] else Inl e
      | Inr ms \<Rightarrow> Inr (map (\<lambda>m. (m, mm_table m)) ms))"

definition column_bearing :: "model_meta \<Rightarrow> bool" where
  "column_bearing m \<longleftrightarrow> is_tenant_model (model_class.truncate m) \<and> \<not> mm_abstract m \<and>
     has_tenant_column (model_class.truncate m)"

text \<open>The second pass of the generator: a table already yielded is left out.\<close>

fun unseen_tables :: "string set \<Rightarrow> (model_meta \<times> string) list \<Rightarrow> (model_meta \<times> string \<times> bool) list" where
  "unseen_tables seen [] = []"
| "unseen_tables seen ((m, table) # rest) =
     (if table \<in> seen then unseen_tables seen rest
      else (m, table, True) # unseen_tables (insert table seen) rest)"

definition rls_probe_targets :: "check_env \<Rightarrow> exn + (model_meta \<times> string \<times> bool) list" where
  "rls_probe_targets C =
     (let own = map (\<lambda>m. (m, mm_table m, False)) (filter column_bearing (ck_models C)) in
      map_sum id (\<lambda>adopted. own @ unseen_tables ((\<lambda>(_, table, _). table) ` set own) adopted)
        (expected_adopted_tables C))"

text \<open>\<open>SELECT relrowsecurity, relforcerowsecurity FROM pg_class WHERE oid = to_regclass(...)::oid\<close>\<close>

definition rls_flags :: "catalogue \<Rightarrow> string \<Rightarrow> (bool \<times> bool) option" where
  "rls_flags cat table =
     (case regclass cat table of
        None \<Rightarrow> None
      | Some oid \<Rightarrow>
          (case filter (\<lambda>i. cl_oid i = oid) (cat_classes cat) of
             [] \<Rightarrow> None
           | i # _ \<Rightarrow> Some (cl_row_security i, cl_force_row_security i)))"

definition probe_rls :: "check_env \<Rightarrow> model_meta \<times> string \<times> bool \<Rightarrow> report list" where
  "probe_rls C = (\<lambda>(m, table, adopted).
     case ck_query C ''boundary.E006'' table of
       Inl e \<Rightarrow> if connection_unavailable e then [] else [RlsUnknown table (m_name m) e]
     | Inr cat \<Rightarrow>
         (case rls_flags cat table of
            None \<Rightarrow> []
          | Some (enabled, forced) \<Rightarrow>
              if \<not> enabled \<or> \<not> forced then [RlsOff adopted table (m_name m)] else []))"

definition check_rls_enabled :: "check_env \<Rightarrow> exn + report list" where
  "check_rls_enabled C =
     (if ck_vendor C \<noteq> ''postgresql'' then Inr []
      else if model_string (ck_conf C) = None then Inr []
      else map_sum id (\<lambda>targets. concat (map (probe_rls C) targets)) (rls_probe_targets C))"

definition probe_session_var :: "check_env \<Rightarrow> model_meta \<times> string \<times> bool \<Rightarrow> report list" where
  "probe_session_var C = (\<lambda>(m, table, adopted).
     case ck_query C ''boundary.W009'' table of
       Inl e \<Rightarrow> if connection_unavailable e then [] else [SessionVarUnknown table (m_name m) e]
     | Inr cat \<Rightarrow>
         (case rls_flags cat table of
            None \<Rightarrow> []
          | Some (enabled, forced) \<Rightarrow>
              if enabled \<and> forced then [SessionVarOff adopted table (m_name m)] else []))"

definition check_session_var_disabled :: "check_env \<Rightarrow> exn + report list" where
  "check_session_var_disabled C =
     (if setting (BOUNDARY_SET_DB_SESSION_VAR (ck_conf C)) True then Inr []
      else if ck_vendor C \<noteq> ''postgresql'' then Inr []
      else if model_string (ck_conf C) = None then Inr []
      else map_sum id (\<lambda>targets. concat (map (probe_session_var C) targets)) (rls_probe_targets C))"

definition check_rls_bypassable :: "check_env \<Rightarrow> exn + report list" where
  "check_rls_bypassable C =
     (if ck_vendor C \<noteq> ''postgresql'' then Inr []
      else case ck_role C of
        Inl e \<Rightarrow> Inr (if connection_unavailable e then [] else [RoleUnknown e])
      | Inr None \<Rightarrow> Inr []
      | Inr (Some (super, bypass)) \<Rightarrow> Inr (if \<not> (super \<or> bypass) then [] else [RoleBypasses]))"

section \<open>Drift of adopted tables\<close>

definition check_exclusions :: "string option \<Rightarrow> string set \<Rightarrow> string list \<Rightarrow> report list" where
  "check_exclusions tenant_label listed excluded =
     concat (map (\<lambda>entry.
       if tenant_label \<noteq> None \<and> Some entry = tenant_label then [ExcludedTenantModel entry]
       else let app = takeWhile (\<lambda>c. c \<noteq> CHR ''.'') entry in
            if app \<notin> listed then [ExcludedNoApp entry app] else []) excluded)"

definition check_adopted_settings :: "check_env \<Rightarrow> exn + report list" where
  "check_adopted_settings C =
     (case expected_adopted_apps (ck_conf C) (ck_live C) of
        Inl e \<Rightarrow> Inl e
      | Inr apps \<Rightarrow>
          (let refused = concat (map (\<lambda>(a, r). case r of None \<Rightarrow> [] | Some x \<Rightarrow> [AdoptedAppRefused a x]) apps);
               listed = fst ` {ar \<in> set apps. snd ar = None};
               excluded = ADOPT_EXCLUDE (ck_conf C)
           in if excluded = [] then Inr refused
              else case tenant_model_label (ck_conf C) (ck_live C) of
                     Inl e \<Rightarrow> if e = ImproperlyConfigured \<or> is_lookup_error e
                       then Inr (refused @ check_exclusions None listed excluded) else Inl e
                   | Inr label \<Rightarrow> Inr (refused @ check_exclusions (Some label) listed excluded)))"

definition expected_tenant_column_type :: "check_env \<Rightarrow> exn + string" where
  "expected_tenant_column_type C =
     map_sum id (\<lambda>tm. detect_tenant_pg_type (mf_db_type (mm_pk tm)))
       (get_tenant_model (model_path (ck_live C)) (ck_conf C))"

definition leads_with_tenant :: "string list \<Rightarrow> bool" where
  "leads_with_tenant columns \<longleftrightarrow> columns \<noteq> [] \<and> hd columns = ''tenant_id''"

definition check_unique_forms :: "catalogue \<Rightarrow> string \<Rightarrow> string \<Rightarrow> report list" where
  "check_unique_forms cat table label =
     (let constraints = unique_constraints cat table;
          backed = uc_name ` set constraints
      in concat (map (\<lambda>c. if leads_with_tenant (uc_columns c) then []
                   else [UniqueConstraintGlobal table label (uc_name c) (uc_columns c)]) constraints) @
         concat (map (\<lambda>i. if ui_primary i then []
                   else if ui_constraint i \<noteq> None \<and> the (ui_constraint i) \<in> backed then []
                   else if leads_with_tenant (ui_columns i) then []
                   else [UniqueIndexGlobal table label (ui_name i) (ui_columns i)]) (unique_indexes cat table)))"

definition check_one_adopted_table :: "catalogue \<Rightarrow> string \<Rightarrow> string \<Rightarrow> string \<Rightarrow> report list" where
  "check_one_adopted_table cat table label expected_type =
     (case rls_flags cat table of
        None \<Rightarrow> []
      | Some (enabled, forced) \<Rightarrow>
          (case column_type cat table ''tenant_id'' of
             None \<Rightarrow> [ColumnMissing table label]
           | Some found \<Rightarrow> if \<not> pg_types_match found expected_type
                          then [ColumnWrongType table label found expected_type] else []) @
          (if \<not> enabled \<or> \<not> forced then [AdoptedRlsOff table label enabled forced] else []) @
          concat (map (\<lambda>policy. if policy \<notin> policy_names cat table then [PolicyMissing table label policy] else [])
            [''boundary_tenant_isolation'', ''boundary_admin_bypass'']) @
          check_unique_forms cat table label)"

definition probe_adopted :: "check_env \<Rightarrow> string \<Rightarrow> model_meta \<times> string \<Rightarrow> report list" where
  "probe_adopted C expected_type = (\<lambda>(m, table).
     case ck_query C ''boundary.E007'' table of
       Inl e \<Rightarrow> if connection_unavailable e then [] else [AdoptedUnknown table (model_label m) e]
     | Inr cat \<Rightarrow> check_one_adopted_table cat table (model_label m) expected_type)"

definition check_adopted_tables :: "check_env \<Rightarrow> exn + report list" where
  "check_adopted_tables C =
     (case check_adopted_settings C of
        Inl e \<Rightarrow> Inl e
      | Inr errors \<Rightarrow>
          if ck_vendor C \<noteq> ''postgresql'' then Inr errors
          else if model_string (ck_conf C) = None then Inr errors
          else case expected_adopted_tables C of
            Inl e \<Rightarrow> Inl e
          | Inr expected \<Rightarrow>
              if expected = [] then Inr errors
              else case expected_tenant_column_type C of
                Inl e \<Rightarrow> if e = ImproperlyConfigured \<or> is_lookup_error e then Inr errors else Inl e
              | Inr type \<Rightarrow> Inr (errors @ concat (map (probe_adopted C type) expected)))"

definition check_boundary_configuration :: "check_env \<Rightarrow> exn + report list" where
  "check_boundary_configuration C = gather
     [check_tenant_model C, check_resolvers C, check_middleware C, check_strict_mode C,
      check_production_posture C, check_rls_enabled C, check_external_double_resolve C,
      check_rls_bypassable C, check_client_controlled C, check_regional_router C,
      check_subdomain_parent C, check_session_var_disabled C, check_adopted_tables C]"

section \<open>Gathering\<close>

lemma gather_Inr: "gather rs = Inr xs \<Longrightarrow> r \<in> set rs \<Longrightarrow> \<exists>ys. r = Inr ys \<and> set ys \<subseteq> set xs"
  by (induction rs arbitrary: xs) (fastforce split: sum.splits)+

lemma gather_Inl: "r \<in> set rs \<Longrightarrow> r = Inl e \<Longrightarrow> \<exists>e'. gather rs = Inl e'"
  by (induction rs) (auto split: sum.splits)

lemma gather_reports: "gather rs = Inr xs \<Longrightarrow> set xs = (\<Union>ys \<in> {ys. Inr ys \<in> set rs}. set ys)"
  by (induction rs arbitrary: xs) (auto split: sum.splits)

section \<open>The production posture\<close>

text \<open>
  with \<open>DEBUG\<close> off, a settings module that passes the posture check leaves no query unguarded: a
  query through \<open>objects\<close> without an active tenant raises and reads nothing; and the check reports an
  error for each of the two flags that is off, whatever the database, the registry and the rest of the
  settings are (BR-CHK-001).
\<close>
theorem passed_posture_refuses_unscoped_query:
  assumes "conf E = ck_conf C" "current_tenant w = None" "setting (DEBUG (ck_conf C)) False = False"
  shows "check_production_posture C =
      Inr ((if STRICT_MODE (conf E) then [] else [PostureUnsafe ''BOUNDARY_STRICT_MODE'']) @
           (if SET_DB_SESSION_VAR (conf E) then [] else [PostureUnsafe ''BOUNDARY_SET_DB_SESSION_VAR''])) \<and>
    (check_production_posture C = Inr [] \<longrightarrow> isl (fst (get_queryset E m db w)))"
  using assms
  by (auto simp: check_production_posture_def posture_settings_def STRICT_MODE_def SET_DB_SESSION_VAR_def
      get_queryset_def tc_get_def Let_def bindc_def seqc_def split: prod.splits sum.splits)

definition quiet_checks :: "django_settings \<Rightarrow> catalogue \<Rightarrow> check_env" where
  "quiet_checks s cat = \<lparr> ck_conf = s, ck_routers = None, ck_import = (\<lambda>_. Inr NotAClass),
     ck_live = tenants_registry, ck_models = [], ck_vendor = ''postgresql'', ck_query = (\<lambda>_ _. Inr cat),
     ck_role = Inr None \<rparr>"

lemma quiet_checks_simps [simp]: "ck_conf (quiet_checks s cat) = s" "ck_live (quiet_checks s cat) = tenants_registry"
  "ck_vendor (quiet_checks s cat) = ''postgresql''" "ck_query (quiet_checks s cat) c t = Inr cat"
  "ck_models (quiet_checks s cat) = []"
  by (simp_all add: quiet_checks_def)

theorem passed_posture_refuses_unscoped_query_witness:
  "isl (fst (get_queryset pg_env booking None fresh_world))"
proof -
  have flags: "STRICT_MODE regional_settings" "SET_DB_SESSION_VAR regional_settings" "\<not> setting (DEBUG regional_settings) False"
    by (simp_all add: STRICT_MODE_def SET_DB_SESSION_VAR_def regional_settings_def default_settings_def)
  show ?thesis
    using passed_posture_refuses_unscoped_query [of pg_env "quiet_checks regional_settings cat" fresh_world booking None] flags
    by simp
qed

section \<open>Row-level security on every tenant table\<close>

lemma unseen_tables_cover:
  "(m, table) \<in> set adopted \<Longrightarrow> table \<in> seen \<or> (\<exists>m'. (m', table, True) \<in> set (unseen_tables seen adopted))"
  by (induction seen adopted rule: unseen_tables.induct) auto

lemma unseen_tables_sound:
  "(m, table, a) \<in> set (unseen_tables seen adopted) \<Longrightarrow> a \<and> table \<notin> seen \<and> (m, table) \<in> set adopted"
  by (induction seen adopted rule: unseen_tables.induct) (auto split: if_splits)

lemma unseen_tables_distinct: "distinct (map (\<lambda>(_, table, _). table) (unseen_tables seen adopted))"
proof (induction seen adopted rule: unseen_tables.induct)
  case (2 seen m table rest)
  then show ?case by (auto dest: unseen_tables_sound)
qed simp

lemma expected_adopted_tables_Inr:
  "expected_adopted_models s live = Inr ms \<Longrightarrow> ck_conf C = s \<Longrightarrow> ck_live C = live \<Longrightarrow>
    expected_adopted_tables C = Inr (map (\<lambda>m. (m, mm_table m)) ms)"
  by (simp add: expected_adopted_tables_def)

lemma probe_targets_cover:
  assumes "rls_probe_targets C = Inr targets"
    and "m \<in> set (ck_models C) \<and> column_bearing m \<or>
      (\<exists>ms. expected_adopted_models (ck_conf C) (ck_live C) = Inr ms \<and> m \<in> set ms)"
  shows "\<exists>m' a. (m', mm_table m, a) \<in> set targets"
proof (cases "m \<in> set (ck_models C) \<and> column_bearing m")
  case True
  with assms(1) have "(m, mm_table m, False) \<in> set targets" by (auto simp: rls_probe_targets_def Let_def)
  then show ?thesis by blast
next
  case False
  with assms(2) obtain ms where "expected_adopted_models (ck_conf C) (ck_live C) = Inr ms" "m \<in> set ms" by blast
  then have adopted: "expected_adopted_tables C = Inr (map (\<lambda>m. (m, mm_table m)) ms)"
    "(m, mm_table m) \<in> set (map (\<lambda>m. (m, mm_table m)) ms)"
    by (auto simp: expected_adopted_tables_def)
  let ?own = "map (\<lambda>m. (m, mm_table m, False)) (filter column_bearing (ck_models C))"
  from assms(1) adopted(1) have targets: "targets = ?own @
      unseen_tables ((\<lambda>(_, table, _). table) ` set ?own) (map (\<lambda>m. (m, mm_table m)) ms)"
    by (simp add: rls_probe_targets_def Let_def)
  from unseen_tables_cover [OF adopted(2), of "(\<lambda>(_, table, _). table) ` set ?own"] show ?thesis
  proof
    assume "mm_table m \<in> (\<lambda>(_, table, _). table) ` set ?own"
    then obtain m' where "(m', mm_table m, False) \<in> set ?own" by auto
    with targets show ?thesis by auto
  qed (use targets in auto)
qed

text \<open>
  C28: when the row-level security check is silent on PostgreSQL, every table of a column-bearing model
  and every table expected to be adopted has row-level security enabled and forced, does not exist
  yet, or could not be asked because the database was not reachable; a query that fails for another
  reason is never taken for a pass.
\<close>
theorem silent_rls_check_means_protected:
  assumes "check_rls_enabled C = Inr []" "ck_vendor C = ''postgresql''" "model_string (ck_conf C) \<noteq> None"
    and "m \<in> set (ck_models C) \<and> column_bearing m \<or>
      (\<exists>ms. expected_adopted_models (ck_conf C) (ck_live C) = Inr ms \<and> m \<in> set ms)"
  shows "case ck_query C ''boundary.E006'' (mm_table m) of
      Inl e \<Rightarrow> connection_unavailable e
    | Inr cat \<Rightarrow> rls_flags cat (mm_table m) \<in> {None, Some (True, True)}"
proof -
  from assms(1-3) obtain targets where targets: "rls_probe_targets C = Inr targets"
    and silent: "\<forall>t \<in> set targets. probe_rls C t = []"
    by (auto simp: check_rls_enabled_def)
  from probe_targets_cover [OF targets assms(4)] obtain m' a where "(m', mm_table m, a) \<in> set targets" by blast
  with silent have "probe_rls C (m', mm_table m, a) = []" by blast
  then show ?thesis by (auto simp: probe_rls_def split: sum.splits option.splits if_splits)
qed

text \<open>The member table as the adoption leaves it.\<close>

definition protected_catalogue :: catalogue where
  "protected_catalogue = adopted_catalogue\<lparr>
     cat_indexes := [\<lparr> ix_relid = 10, ix_table = 7, ix_key = [3, 2], ix_unique = True, ix_primary = False,
       ix_partial = False, ix_expression = False \<rparr>],
     cat_classes := [\<lparr> cl_oid = 7, cl_name = ''tenants_member'', cl_row_security = True, cl_force_row_security = True \<rparr>,
       \<lparr> cl_oid = 10, cl_name = ''member_email_key_tenant'', cl_row_security = False, cl_force_row_security = False \<rparr>],
     cat_policies := [(7, ''boundary_tenant_isolation''), (7, ''boundary_admin_bypass'')]\<rparr>"

lemma protected_catalogue_facts:
  "unique_constraints protected_catalogue ''tenants_member'' = [adopted_key]"
  "column_type protected_catalogue ''tenants_member'' ''tenant_id'' = Some ''uuid''"
  "rls_flags protected_catalogue ''tenants_member'' = Some (True, True)"
  "policy_names protected_catalogue ''tenants_member'' = {''boundary_tenant_isolation'', ''boundary_admin_bypass''}"
  "unique_indexes protected_catalogue ''tenants_member'' =
    [\<lparr> ui_name = ''member_email_key_tenant'', ui_columns = [''tenant_id'', ''email''], ui_primary = False,
       ui_partial = False, ui_expression = False, ui_constraint = Some ''member_email_key_tenant'' \<rparr>]"
  by (auto simp: protected_catalogue_def adopted_catalogue_def member_catalogue_def unique_constraints_def
      key_columns_def adopted_key_def column_type_def rls_flags_def policy_names_def unique_indexes_def
      index_rows_def Let_def)

lemma protected_catalogue_consistent: "catalogue_consistent protected_catalogue"
  by (simp add: catalogue_consistent_def protected_catalogue_def adopted_catalogue_def member_catalogue_def)

theorem silent_rls_check_means_protected_witness:
  "rls_flags protected_catalogue ''tenants_member'' \<in> {None, Some (True, True)}"
proof -
  let ?C = "quiet_checks adopting_settings protected_catalogue"
  have tables: "expected_adopted_tables ?C = Inr [(member_class, ''tenants_member'')]"
    by (simp add: expected_adopted_tables_def adopting_settings_expects)
  have silent: "check_rls_enabled ?C = Inr []"
    by (simp add: check_rls_enabled_def rls_probe_targets_def Let_def tables probe_rls_def protected_catalogue_facts)
  have model: "model_string (ck_conf ?C) \<noteq> None"
    by (simp add: model_string_def str_or_def adopting_settings_def default_settings_def)
  show ?thesis
    using silent_rls_check_means_protected [OF silent _ model, of member_class] adopting_settings_expects
    by simp
qed

section \<open>Drift of an adopted table\<close>

lemma check_unique_forms_silent:
  "check_unique_forms cat table label = [] \<longleftrightarrow>
    (\<forall>c \<in> set (unique_constraints cat table). leads_with_tenant (uc_columns c)) \<and>
    (\<forall>i \<in> set (unique_indexes cat table). ui_primary i \<or> leads_with_tenant (ui_columns i) \<or>
       (\<exists>c \<in> set (unique_constraints cat table). ui_constraint i = Some (uc_name c)))"
proof -
  have backed: "(ui_constraint i \<noteq> None \<and> the (ui_constraint i) \<in> uc_name ` set cs) \<longleftrightarrow>
      (\<exists>c \<in> set cs. ui_constraint i = Some (uc_name c))" for i :: unique_index and cs
    by (cases "ui_constraint i") auto
  have 1: "concat (map (\<lambda>c. if leads_with_tenant (uc_columns c) then [] else [x c]) cs) = [] \<longleftrightarrow>
      (\<forall>c \<in> set cs. leads_with_tenant (uc_columns c))" for x :: "unique_constraint \<Rightarrow> report" and cs
    by (induction cs) auto
  have 2: "concat (map (\<lambda>i. if ui_primary i then [] else if B i then []
        else if leads_with_tenant (ui_columns i) then [] else [y i]) is) = [] \<longleftrightarrow>
      (\<forall>i \<in> set is. ui_primary i \<or> leads_with_tenant (ui_columns i) \<or> B i)"
    for y :: "unique_index \<Rightarrow> report" and B "is"
    by (induction "is") auto
  show ?thesis
    by (simp only: check_unique_forms_def Let_def append_is_Nil_conv 1 2 backed)
qed

lemma check_one_adopted_table_silent:
  assumes "rls_flags cat table = Some (enabled, forced)"
  shows "check_one_adopted_table cat table label ty = [] \<longleftrightarrow>
    (\<exists>found. column_type cat table ''tenant_id'' = Some found \<and> pg_types_match found ty) \<and> enabled \<and> forced \<and>
    {''boundary_tenant_isolation'', ''boundary_admin_bypass''} \<subseteq> policy_names cat table \<and>
    check_unique_forms cat table label = []"
  using assms
  by (cases "column_type cat table ''tenant_id''"; cases enabled; cases forced)
    (simp_all add: check_one_adopted_table_def)

text \<open>The check expects the column type the operation creates.\<close>

lemma expected_type_agrees:
  assumes "fst (tenant_pg_type E op w) = Inr ty" "ck_conf C = se_conf E" "ck_live C = se_live E"
  shows "expected_tenant_column_type C = Inr ty"
  using assms
  by (auto simp: tenant_pg_type_def bindc_def expected_tenant_column_type_def detect_tenant_pg_type_def
      split: sum.splits option.splits)

text \<open>The catalogue shows a table in the state a specification describes.\<close>

definition shows_schema :: "catalogue \<Rightarrow> string \<Rightarrow> table_schema \<Rightarrow> bool" where
  "shows_schema cat table ts \<longleftrightarrow>
     column_type cat table ''tenant_id'' = map_option tc_type (ts_column ts) \<and>
     rls_flags cat table = Some (ts_enabled ts, ts_forced ts) \<and>
     policy_names cat table = ts_policies ts \<and>
     map (\<lambda>c. (uc_name c, uc_columns c)) (unique_constraints cat table) = ts_uniques ts"

text \<open>
  None of the operation's statements is a \<open>CREATE INDEX\<close>: a unique index that is neither a primary key's nor
  a constraint's after the adoption was there, as such an index, before it.
\<close>

definition creates_no_index :: "catalogue \<Rightarrow> catalogue \<Rightarrow> string \<Rightarrow> bool" where
  "creates_no_index before after table \<longleftrightarrow>
     (\<forall>i \<in> set (unique_indexes after table). \<not> ui_primary i \<and> ui_constraint i = None \<longrightarrow>
        (\<exists>i' \<in> set (unique_indexes before table). ui_name i' = ui_name i \<and> \<not> ui_primary i' \<and> ui_constraint i' = None))"

text \<open>
  C19: a table that has been through \<open>AdoptTenantApp\<close> passes the drift check: in a catalogue that shows
  what the statements of the adoption made of the table, with a tenant key of the same type, the check
  reports nothing, so a report always means the schema has moved since (BR-RLS-017). That no bare unique
  index is left is not assumed: the statements create none, and the operation refuses a table that has one.
\<close>
theorem adopted_table_passes_drift_check:
  assumes run: "adopt_app_forwards E op app_label from_apps to_apps w = (Inr (), w')"
    and "adopted_models (se_conf E) (se_live E) to_apps (aa_app_label op) (aa_exclude op) = Inr ms"
    and "m \<in> set ms" "se_router E (se_alias E) m" "distinct (map mm_table ms)"
    and "se_read E (executed w) = Inr cat" "column_type cat (mm_table m) ''tenant_id'' = None"
      "row_count cat (mm_table m) = Inr n"
    and "unique_constraints cat (mm_table m) = cs" "distinct (map uc_name cs)"
    and "\<forall>c \<in> set cs. \<forall>c' \<in> set cs.
      composite_constraint_name E (mm_table m) (uc_name c) (''tenant_id'' # uc_columns c) \<noteq> uc_name c'"
    and "ts_uniques ts = map (\<lambda>c. (uc_name c, uc_columns c)) cs" "\<not> ts_enabled ts"
    and after: "\<forall>ss. executed w' = sent ss @ executed w \<longrightarrow> shows_schema cat' (mm_table m) (schema_after (mm_table m) ss ts)"
    and pg: "catalogue_consistent cat'" "creates_no_index cat cat' (mm_table m)"
    and same: "ck_conf C = se_conf E" "ck_live C = se_live E"
  shows "\<exists>ty. expected_tenant_column_type C = Inr ty \<and>
    check_one_adopted_table cat' (mm_table m) (model_label m) ty = []"
proof -
  from adopted_table_schema [OF assms(1-13)] obtain ss ty where ss: "executed w' = sent ss @ executed w"
    and key: "fst (tenant_pg_type E op w) = Inr ty"
    and bare: "\<forall>i \<in> set (unique_indexes cat (mm_table m)). ui_primary i \<or> ui_constraint i \<noteq> None"
    and schema: "schema_after (mm_table m) ss ts =
      \<lparr> ts_column = Some \<lparr> tc_type = ty, tc_not_null = True, tc_default = True,
          tc_rows = (if n = 0 then None else Some (aa_backfill op)) \<rparr>,
        ts_uniques = map (\<lambda>c. (composite_constraint_name E (mm_table m) (uc_name c) (''tenant_id'' # uc_columns c),
          ''tenant_id'' # uc_columns c)) cs,
        ts_enabled = True, ts_forced = True,
        ts_policies = ts_policies ts \<union> {''boundary_tenant_isolation'', ''boundary_admin_bypass''} \<rparr>"
    by blast
  from after ss have shown: "shows_schema cat' (mm_table m) (schema_after (mm_table m) ss ts)" by blast
  then have uniques: "map (\<lambda>c. (uc_name c, uc_columns c)) (unique_constraints cat' (mm_table m)) =
      map (\<lambda>c. (composite_constraint_name E (mm_table m) (uc_name c) (''tenant_id'' # uc_columns c),
          ''tenant_id'' # uc_columns c)) cs"
    by (simp add: shows_schema_def schema)
  have lead: "leads_with_tenant (uc_columns c)" if "c \<in> set (unique_constraints cat' (mm_table m))" for c
  proof -
    from that have "(uc_name c, uc_columns c) \<in> set (map (\<lambda>c. (uc_name c, uc_columns c)) (unique_constraints cat' (mm_table m)))"
      by simp
    then show ?thesis unfolding uniques by (auto simp: leads_with_tenant_def)
  qed
  have "\<exists>c \<in> set (unique_constraints cat' (mm_table m)). ui_constraint i = Some (uc_name c)"
    if "i \<in> set (unique_indexes cat' (mm_table m))" "\<not> ui_primary i" for i
  proof -
    from bare pg(2) that have "ui_constraint i \<noteq> None" unfolding creates_no_index_def by metis
    with backed_index_constraint [OF pg(1) that] show ?thesis by auto
  qed
  with lead have forms: "check_unique_forms cat' (mm_table m) (model_label m) = []"
    unfolding check_unique_forms_silent by blast
  from shown schema have flags: "rls_flags cat' (mm_table m) = Some (True, True)"
    and col: "column_type cat' (mm_table m) ''tenant_id'' = Some ty"
    and pol: "policy_names cat' (mm_table m) = ts_policies ts \<union> {''boundary_tenant_isolation'', ''boundary_admin_bypass''}"
    by (simp_all add: shows_schema_def)
  have "check_one_adopted_table cat' (mm_table m) (model_label m) ty = []"
    unfolding check_one_adopted_table_silent [OF flags] using col pol forms by (simp add: pg_types_match_def)
  with expected_type_agrees [OF key same] show ?thesis by blast
qed

lemma sent_inject: "sent ss = sent ss' \<longleftrightarrow> ss = ss'"
proof
  assume "sent ss = sent ss'"
  then have "map (\<lambda>s. (s, True)) ss = map (\<lambda>s. (s, True)) ss'" by (simp add: sent_def)
  then show "ss = ss'" by (simp add: inj_map_eq_map inj_on_def)
qed simp

theorem adopted_table_passes_drift_check_witness:
  "check_one_adopted_table protected_catalogue ''tenants_member'' ''tenants.Member'' ''uuid'' = []"
proof -
  obtain w' ss where run: "adopt_app_forwards (member_env 2) (adopt_tenants (PUuid ''c1'')) ''club'' tenants_registry
      tenants_registry start = (Inr (), w')" and ss: "executed w' = sent ss"
    "ss = [CreateHelper ''uuid'' ''app.current_tenant_id'' False,
       AddTenantColumnNull ''tenants_member'' ''uuid'', Backfill ''tenants_member'' (PUuid ''c1''),
       SetTenantNotNull ''tenants_member'', SetTenantDefault ''tenants_member'',
       DropConstraint ''tenants_member'' ''member_email_key'',
       AddUnique ''tenants_member'' ''member_email_key_tenant'' [''tenant_id'', ''email''],
       EnableRowSecurity ''tenants_member'', ForceRowSecurity ''tenants_member'',
       CreateIsolationPolicy ''tenants_member'' ''tenant_id'',
       CreateBypassPolicy ''tenants_member'' ''app.boundary_admin'']"
    using member_run by simp
  have shown: "shows_schema protected_catalogue ''tenants_member'' (schema_after ''tenants_member'' ss member_before)"
    unfolding ss(2)
    by (auto simp: shows_schema_def protected_catalogue_facts member_before_def on_column_def)
  have name: "composite_constraint_name (member_env 2) ''tenants_member'' ''member_email_key'' cols =
      ''member_email_key_tenant''" for cols
    by (simp add: composite_constraint_name_def MAX_IDENTIFIER_LENGTH_def)
  have type: "expected_tenant_column_type (quiet_checks default_settings protected_catalogue) = Inr ''uuid''"
    using member_steps(2) [of 2 PNone start]
    by (intro expected_type_agrees [of "member_env 2" "adopt_tenants PNone" start]) simp_all
  have pg: "catalogue_consistent protected_catalogue"
      "creates_no_index (member_catalogue 2) protected_catalogue ''tenants_member''"
    using protected_catalogue_consistent by (simp_all add: creates_no_index_def protected_catalogue_facts)
  from adopted_table_passes_drift_check [where m = member_class and cat = "member_catalogue 2" and n = 2
      and cs = "[email_key]" and ms = "[member_class]" and ts = member_before and cat' = protected_catalogue
      and C = "quiet_checks default_settings protected_catalogue", OF run] shown ss(1) type pg
  show ?thesis
    by (simp add: tenants_registry_adopts member_catalogue_column member_catalogue_rows member_catalogue_uniques
        name member_before_def sent_inject)
qed

section \<open>Where a check falls short\<close>

lemma model_string_resolves: "model_string s = Some path \<Longrightarrow> resolve_tenant_model_setting s = Inr path"
  by (auto simp: model_string_def resolve_tenant_model_setting_def split: option.splits if_splits)

lemma collect_expected_escapes:
  "(a, None) \<in> set rs \<Longrightarrow> \<forall>b. adopted_models s live live b [] = Inl e \<Longrightarrow> collect_expected s live ms rs = Inl e"
  by (induction s live ms rs rule: collect_expected.induct) auto

text \<open>
  when the tenant model setting names a model that is not installed and an app is listed for
  adoption, the checks do not report it: \<open>boundary.E001\<close> alone would, but deriving the adopted tables
  for the row-level security check raises \<open>LookupError\<close>, which is only caught further down, and the
  whole run of the checks ends in that exception.
\<close>
theorem uninstalled_tenant_model_escapes:
  assumes "model_string (ck_conf C) = Some path" "model_path (ck_live C) path = Inl (LookupError x)"
    and "ck_vendor C = ''postgresql''"
    and "expected_adopted_apps (ck_conf C) (ck_live C) = Inr apps" "(a, None) \<in> set apps"
  shows "(\<exists>source. check_tenant_model C = Inr [TenantModelNotInstalled source path]) \<and>
    check_rls_enabled C = Inl (LookupError x) \<and> isl (check_boundary_configuration C)"
proof -
  from assms(1) have path: "resolve_tenant_model_setting (ck_conf C) = Inr path"
    by (rule model_string_resolves)
  with assms(2) have "adopted_models (ck_conf C) (ck_live C) (ck_live C) b [] = Inl (LookupError x)" for b
    by (simp add: adopted_models_def tenant_model_label_def)
  with assms(4,5) have "expected_adopted_tables C = Inl (LookupError x)"
    by (simp add: expected_adopted_tables_def expected_adopted_models_def collect_expected_escapes)
  with assms(1,3) have rls: "check_rls_enabled C = Inl (LookupError x)"
    by (simp add: check_rls_enabled_def rls_probe_targets_def Let_def)
  have "\<exists>e. check_boundary_configuration C = Inl e"
    unfolding check_boundary_configuration_def by (rule gather_Inl [OF _ rls]) simp
  with rls assms(1,2) show ?thesis by (auto simp: check_tenant_model_def Let_def)
qed

definition broken_checks :: check_env where
  "broken_checks = \<lparr> ck_conf = adopting_settings\<lparr>BOUNDARY_TENANT_MODEL := Some (Some ''tenants.Missing'')\<rparr>,
     ck_routers = None, ck_import = (\<lambda>_. Inr NotAClass), ck_live = tenants_registry, ck_models = [],
     ck_vendor = ''postgresql'', ck_query = (\<lambda>_ _. Inr (member_catalogue 2)), ck_role = Inr None \<rparr>"

theorem uninstalled_tenant_model_escapes_witness:
  "isl (check_boundary_configuration broken_checks)"
  using uninstalled_tenant_model_escapes [of broken_checks "''tenants.Missing''" "''tenants.Missing''"
      "[(''sessions'', Some (RefusedApp ''sessions'')), (''tenants'', None)]" "''tenants''"]
  by (simp add: broken_checks_def model_string_def str_or_def tenants_registry_def expected_adopted_apps_def
      adopting_settings_def TENANT_APPS_def refusal_reason_def DENIED_APPS_def)

text \<open>A malformed path (no dot) makes the registry raise \<open>ValueError\<close>, which no check catches.\<close>

lemma malformed_tenant_model_escapes:
  "model_string (ck_conf C) = Some path \<Longrightarrow> model_path (ck_live C) path = Inl (PyValueError x) \<Longrightarrow>
    check_boundary_configuration C = Inl (PyValueError x)"
  by (simp add: check_boundary_configuration_def check_tenant_model_def Let_def)

text \<open>
  a unique index on an expression that only includes \<open>tenant_id\<close> passes the drift check: the
  expression has no row in \<open>pg_attribute\<close>, so the first column the query returns is \<open>tenant_id\<close>, although
  the value the index constrains is unique across all tenants.
\<close>
theorem expression_index_passes_drift_check:
  assumes "regclass cat table = Some oid" "cat_indexes cat = [x]" "cat_constraints cat = []"
    and "ix_table x = oid" "ix_unique x" "\<not> ix_primary x" "ix_expression x" "ix_key x = [0, k]"
    and "\<forall>a \<in> set (cat_attributes cat). att_num a \<noteq> 0"
    and "map att_name (filter (\<lambda>a. att_relid a = oid \<and> att_num a = k) (cat_attributes cat)) = [''tenant_id'']"
  shows "check_unique_forms cat table label = []"
proof -
  have cols: "key_columns cat oid (ix_key x) = [''tenant_id'']"
    using assms(8-10) by (auto simp: key_columns_def filter_empty_conv)
  have "\<forall>i \<in> set (unique_indexes cat table). ui_columns i = [''tenant_id'']"
    using assms(1-5) cols by (auto simp: unique_indexes_def index_rows_def Let_def)
  then show ?thesis
    using assms(1,3) by (auto simp: check_unique_forms_silent unique_constraints_def leads_with_tenant_def)
qed

definition drifted_catalogue :: catalogue where
  "drifted_catalogue = adopted_catalogue\<lparr>cat_constraints := [],
     cat_indexes := [\<lparr> ix_relid = 9, ix_table = 7, ix_key = [0, 3], ix_unique = True, ix_primary = False,
            ix_partial = False, ix_expression = True \<rparr>]\<rparr>"

theorem expression_index_passes_drift_check_witness:
  "check_unique_forms drifted_catalogue ''tenants_member'' ''tenants.Member'' = []"
  using expression_index_passes_drift_check [of drifted_catalogue "''tenants_member''" 7
      "\<lparr> ix_relid = 9, ix_table = 7, ix_key = [0, 3], ix_unique = True, ix_primary = False,
            ix_partial = False, ix_expression = True \<rparr>" 3 "''tenants.Member''"]
  by (simp add: drifted_catalogue_def adopted_catalogue_def member_catalogue_def)

end
