(* ===== verification/Testing.thy ===== *)
theory Testing
  imports Checks Commands
begin

text \<open>
  The helpers for test suites (\<open>src/boundary/testing.py\<close>): running code as a tenant, creating tenants,
  provisioning a role that PostgreSQL does not exempt from policies, and the assertion that row-level
  security is enforced at all. A psycopg connection is what its queries return: a catalogue and the
  row of \<open>pg_roles\<close>.
\<close>

section \<open>Running as a tenant\<close>

definition set_tenant :: "env \<Rightarrow> tenant \<Rightarrow> (tenant \<Rightarrow> 'a comp) \<Rightarrow> 'a comp" where
  "set_tenant E t body = tc_using E (Some t) ''default'' (body t)"

text \<open>\<open>build\<close>: the request \<open>RequestFactory\<close> makes, an exception for a method it does not have.\<close>

definition call_view :: "env \<Rightarrow> exn + 'r \<Rightarrow> ('r \<Rightarrow> 'a comp) \<Rightarrow> tenant \<Rightarrow> 'a comp" where
  "call_view E build view t =
     bindc (liftc build) (\<lambda>request. tc_using E (Some t) ''default'' (view request))"

text \<open>\<open>hex6\<close>, \<open>hex8\<close>: the digits drawn from two fresh UUIDs.\<close>

definition tenant_factory :: "provision_env \<Rightarrow> string \<Rightarrow> string \<Rightarrow> (string, pyval) dict \<Rightarrow> tenant comp" where
  "tenant_factory P hex6 hex8 kwargs =
     seqc (checked_model (pv_env P))
       (bindc (liftc (pv_construct P (dict_update
          [(''name'', PStr (''Test Tenant '' @ hex6)), (''slug'', PStr (''test-'' @ hex8))] kwargs))) (\<lambda>t.
          bindc (db_for_write (pv_env P) (Some (pv_tenant_class P))) (\<lambda>alias.
            seqc (save_tenant (pv_env P) alias t) (ret t))))"

text \<open>
  A test of \<open>TenantTestMixin\<close>: the runner keeps what the test method raised and runs \<open>tearDown\<close> all the
  same, which leaves the context as after a normal return.
\<close>

definition attempt :: "'a comp \<Rightarrow> (exn + 'a) comp" where
  "attempt m w = (case m w of (r, w') \<Rightarrow> (Inr r, w'))"

definition tenant_test ::
  "provision_env \<Rightarrow> string \<Rightarrow> string \<Rightarrow> (string, pyval) dict \<Rightarrow> (tenant \<Rightarrow> 'a comp) \<Rightarrow> (exn + 'a) comp" where
  "tenant_test P hex6 hex8 factory_kwargs test =
     bindc (tenant_factory P hex6 hex8 factory_kwargs) (\<lambda>t.
       tc_using (pv_env P) (Some t) ''default'' (attempt (test t)))"

section \<open>The test role\<close>

datatype role_sql =
    RoleExists string
  | CreateRole string string
  | GrantConnect string string
  | GrantUsage string

text \<open>
  \<open>bootstrap\<close>: the parameters to connect with; \<open>exists\<close>: what the look-up in \<open>pg_roles\<close> finds. The result
  is the statements in order and the parameters returned; a missing \<open>dbname\<close> is a \<open>KeyError\<close>.
\<close>

definition provision_rls_test_role ::
  "string \<Rightarrow> (string, pyval) dict \<Rightarrow> string \<Rightarrow> string \<Rightarrow> string option \<Rightarrow> bool
     \<Rightarrow> exn + role_sql list \<times> (string, pyval) dict" where
  "provision_rls_test_role vendor bootstrap role password database exists =
     (if vendor \<noteq> ''postgresql'' then Inr ([], [])
      else case (case database of
                   None \<Rightarrow> map_of bootstrap ''dbname''
                 | Some d \<Rightarrow> if d = [] then map_of bootstrap ''dbname'' else Some (PStr d)) of
        None \<Rightarrow> Inl (OtherException ''KeyError: dbname'')
      | Some dbname \<Rightarrow>
          Inr ([RoleExists role] @
               (if exists then [] else [CreateRole role password]) @
               [GrantConnect (py_str dbname) role, GrantUsage role],
               [(''host'', case map_of bootstrap ''host'' of None \<Rightarrow> PStr ''localhost'' | Some h \<Rightarrow> h),
                (''port'', case map_of bootstrap ''port'' of None \<Rightarrow> PInt 5432 | Some p \<Rightarrow> p),
                (''dbname'', dbname), (''user'', PStr role), (''password'', PStr password)]))"

section \<open>The assertion\<close>

record session =
  ss_catalogue :: catalogue
  ss_role :: "(bool \<times> bool) option"

text \<open>The loop over the tables: returned at the first one enforcing, or whether any table existed.\<close>

datatype scan = Enforcing | Scanned bool

fun scan_tables :: "catalogue \<Rightarrow> string list \<Rightarrow> bool \<Rightarrow> scan" where
  "scan_tables cat [] checked = Scanned checked"
| "scan_tables cat (table # tables) checked =
     (case rls_flags cat table of
        None \<Rightarrow> scan_tables cat tables checked
      | Some (enabled, forced) \<Rightarrow>
          if enabled \<and> forced then Enforcing else scan_tables cat tables True)"

text \<open>
  The tables come from a generator: the adopted ones are only derived once the scan gets past the
  column-bearing ones. \<open>vendor\<close>: the vendor of the alias, an exception for an unknown alias.
\<close>

definition assert_rls_enforced ::
  "check_env \<Rightarrow> exn + string \<Rightarrow> exn + session \<Rightarrow> (string, pyval) dict \<Rightarrow> exn + unit" where
  "assert_rls_enforced C vendor connect params =
     (case vendor of
        Inl e \<Rightarrow> Inl e
      | Inr v \<Rightarrow>
          if v \<noteq> ''postgresql'' then Inr ()
          else case connect of
            Inl e \<Rightarrow> Inl e
          | Inr s \<Rightarrow>
              if (case ss_role s of None \<Rightarrow> False | Some (super, bypass) \<Rightarrow> super \<or> bypass)
              then Inl (RLSNotEnforcedError
                (''Role '' @ (case map_of params ''user'' of None \<Rightarrow> ''None'' | Some u \<Rightarrow> py_str u) @ '' bypasses RLS''))
              else (let own = map mm_table (filter column_bearing (ck_models C)) in
                case scan_tables (ss_catalogue s) own False of
                  Enforcing \<Rightarrow> Inr ()
                | Scanned checked \<Rightarrow>
                    (case expected_adopted_tables C of
                       Inl e \<Rightarrow> Inl e
                     | Inr adopted \<Rightarrow>
                         (case scan_tables (ss_catalogue s)
                                 (map (\<lambda>(_, table, _). table) (unseen_tables (set own) adopted)) checked of
                            Enforcing \<Rightarrow> Inr ()
                          | Scanned any \<Rightarrow>
                              if any then Inl (RLSNotEnforcedError ''No table has RLS enabled and forced'')
                              else Inr ()))))"

text \<open>\<open>pytest.exit\<close> with return code 1 for the assertion's own error; any other exception propagates.\<close>

datatype fixture_outcome = Continue | PytestExit exn int

definition rls_enforced ::
  "check_env \<Rightarrow> exn + string \<Rightarrow> exn + session \<Rightarrow> (string, pyval) dict \<Rightarrow> exn + fixture_outcome" where
  "rls_enforced C vendor connect params =
     (case assert_rls_enforced C vendor connect params of
        Inr _ \<Rightarrow> Inr Continue
      | Inl (RLSNotEnforcedError msg) \<Rightarrow> Inr (PytestExit (RLSNotEnforcedError msg) 1)
      | Inl e \<Rightarrow> Inl e)"

section \<open>When the assertion passes\<close>

lemma scan_tables_result:
  "scan_tables cat tables checked =
     (if \<exists>tb \<in> set tables. rls_flags cat tb = Some (True, True) then Enforcing
      else Scanned (checked \<or> (\<exists>tb \<in> set tables. rls_flags cat tb \<noteq> None)))"
  by (induction cat tables checked rule: scan_tables.induct) (auto split: option.splits)

lemma unseen_tables_all:
  "seen \<union> (\<lambda>(_, table, _). table) ` set (unseen_tables seen adopted) = seen \<union> snd ` set adopted"
  by (induction seen adopted rule: unseen_tables.induct) auto

text \<open>The tables RLS is expected on: of column-bearing models, and expected to be adopted.\<close>

definition protected_tables :: "check_env \<Rightarrow> (model_meta \<times> string) list \<Rightarrow> string set" where
  "protected_tables C adopted = mm_table ` {m \<in> set (ck_models C). column_bearing m} \<union> snd ` set adopted"

lemma assertion_result:
  assumes "expected_adopted_tables C = Inr adopted"
  shows "\<exists>msg. assert_rls_enforced C (Inr ''postgresql'') (Inr s) params =
    (if ss_role s \<notin> {Some (True, True), Some (True, False), Some (False, True)} \<and>
        ((\<exists>tb \<in> protected_tables C adopted. rls_flags (ss_catalogue s) tb = Some (True, True)) \<or>
         (\<forall>tb \<in> protected_tables C adopted. rls_flags (ss_catalogue s) tb = None))
     then Inr () else Inl (RLSNotEnforcedError msg))"
proof -
  define own where "own = map mm_table (filter column_bearing (ck_models C))"
  define rest where "rest = map (\<lambda>(_, table, _). table) (unseen_tables (set own) adopted)"
  have all: "protected_tables C adopted = set own \<union> set rest"
    using unseen_tables_all [of "set own" adopted] by (auto simp: protected_tables_def own_def rest_def)
  let ?on = "\<lambda>T. \<exists>tb \<in> set T. rls_flags (ss_catalogue s) tb = Some (True, True)"
  let ?any = "\<lambda>T. \<exists>tb \<in> set T. rls_flags (ss_catalogue s) tb \<noteq> None"
  let ?exempt = "case ss_role s of None \<Rightarrow> False | Some (super, bypass) \<Rightarrow> super \<or> bypass"
  have run: "\<exists>msg. assert_rls_enforced C (Inr ''postgresql'') (Inr s) params =
      (if ?exempt \<or> \<not> (?on own \<or> ?on rest) \<and> (?any own \<or> ?any rest)
       then Inl (RLSNotEnforcedError msg) else Inr ())"
    unfolding assert_rls_enforced_def Let_def assms scan_tables_result sum.case own_def [symmetric] rest_def [symmetric]
    by (cases ?exempt; cases "?on own"; cases "?on rest"; cases "?any own"; cases "?any rest"; simp)
  have "?exempt \<longleftrightarrow> ss_role s \<in> {Some (True, True), Some (True, False), Some (False, True)}"
    by (auto split: option.splits)
  with run show ?thesis
    unfolding all by (auto simp: ball_Un bex_Un split: if_splits)
qed

text \<open>
  C30: on an alias that is not PostgreSQL the assertion passes whatever a connection would have done, an
  attempt that fails included, and whatever else is configured: it does not connect. On PostgreSQL an
  attempt to connect that fails is raised. With a connection and the adopted set derived, it passes
  exactly when the role is not exempt from policies and either some expected table has RLS enabled and
  forced or none of them exists yet; otherwise it raises \<open>RLSNotEnforcedError\<close>, and the fixture then ends
  the test run.
\<close>
theorem assertion_passes_iff:
  assumes "expected_adopted_tables C = Inr adopted"
  shows "(v \<noteq> ''postgresql'' \<longrightarrow> (\<forall>C' connect. assert_rls_enforced C' (Inr v) connect params = Inr ())) \<and>
    (v = ''postgresql'' \<longrightarrow>
      (\<forall>e. assert_rls_enforced C (Inr v) (Inl e) params = Inl e) \<and>
      (\<forall>s. (assert_rls_enforced C (Inr v) (Inr s) params = Inr () \<longleftrightarrow>
          ss_role s \<notin> {Some (True, True), Some (True, False), Some (False, True)} \<and>
          ((\<exists>tb \<in> protected_tables C adopted. rls_flags (ss_catalogue s) tb = Some (True, True)) \<or>
           (\<forall>tb \<in> protected_tables C adopted. rls_flags (ss_catalogue s) tb = None))) \<and>
        (assert_rls_enforced C (Inr v) (Inr s) params \<noteq> Inr () \<longrightarrow>
          (\<exists>msg. assert_rls_enforced C (Inr v) (Inr s) params = Inl (RLSNotEnforcedError msg) \<and>
            rls_enforced C (Inr v) (Inr s) params = Inr (PytestExit (RLSNotEnforcedError msg) 1)))))"
proof (intro conjI impI allI)
  show "assert_rls_enforced C' (Inr v) connect params = Inr ()" if "v \<noteq> ''postgresql''" for C' connect
    using that by (simp add: assert_rls_enforced_def)
  show "assert_rls_enforced C (Inr v) (Inl e) params = Inl e" if "v = ''postgresql''" for e
    using that by (simp add: assert_rls_enforced_def)
next
  fix s assume v: "v = ''postgresql''"
  note run = assertion_result [OF assms, of s params, folded v]
  from run show "(assert_rls_enforced C (Inr v) (Inr s) params = Inr () \<longleftrightarrow>
          ss_role s \<notin> {Some (True, True), Some (True, False), Some (False, True)} \<and>
          ((\<exists>tb \<in> protected_tables C adopted. rls_flags (ss_catalogue s) tb = Some (True, True)) \<or>
           (\<forall>tb \<in> protected_tables C adopted. rls_flags (ss_catalogue s) tb = None)))"
    by (auto split: if_splits)
  assume "assert_rls_enforced C (Inr v) (Inr s) params \<noteq> Inr ()"
  with run show "\<exists>msg. assert_rls_enforced C (Inr v) (Inr s) params = Inl (RLSNotEnforcedError msg) \<and>
            rls_enforced C (Inr v) (Inr s) params = Inr (PytestExit (RLSNotEnforcedError msg) 1)"
    by (auto simp: rls_enforced_def split: if_splits)
qed

theorem assertion_passes_iff_witness:
  "assert_rls_enforced (quiet_checks adopting_settings protected_catalogue) (Inr ''postgresql'')
      (Inr \<lparr> ss_catalogue = protected_catalogue, ss_role = Some (False, False) \<rparr>) [] = Inr () \<and>
    assert_rls_enforced (quiet_checks adopting_settings protected_catalogue) (Inr ''postgresql'')
      (Inr \<lparr> ss_catalogue = protected_catalogue, ss_role = Some (False, True) \<rparr>) [] \<noteq> Inr ()"
proof -
  let ?C = "quiet_checks adopting_settings protected_catalogue"
  have tables: "expected_adopted_tables ?C = Inr [(member_class, ''tenants_member'')]"
    by (simp add: expected_adopted_tables_def adopting_settings_expects)
  show ?thesis
    using assertion_passes_iff [OF tables, of "''postgresql''" "[]"]
    by (simp add: protected_tables_def protected_catalogue_facts)
qed

section \<open>Helpers leave no tenant behind\<close>

lemma keeps_attempt [keeps_intros]: "keeps f m \<Longrightarrow> keeps f (attempt m)"
  unfolding keeps_def attempt_def by (auto split: prod.splits) (metis snd_conv)

lemma set_tenant_restores: "keeps current_tenant (set_tenant E t body)"
  unfolding set_tenant_def by (rule keeps_tc_using)

lemma call_view_restores: "keeps current_tenant (call_view E build view t)"
  unfolding call_view_def by (intro keeps_intros keeps_tc_using)

interpretation test_scope: scope current_tenant "\<lambda>body. set_tenant E t (\<lambda>_. body)" for E t
  by unfold_locales (rule set_tenant_restores)

interpretation view_scope: scope current_tenant "\<lambda>body. call_view E build (\<lambda>_. body) t" for E build t
  by unfold_locales (rule call_view_restores)

lemmas views_in_turn = view_scope.batch

lemma tenant_test_restores: "keeps current_tenant (tenant_test P hex6 hex8 kw test)"
  unfolding tenant_test_def tenant_factory_def checked_model_def db_for_write_def save_tenant_def
  by (intro keeps_intros keeps_tc_using keeps_tenant_signals keeps_route) (auto simp: state_only_def)

text \<open>A role that exists is never altered: a second run only repeats the grants.\<close>

lemma provision_existing_role:
  "provision_rls_test_role v bootstrap role password database True = Inr (sqls, params) \<Longrightarrow>
    \<forall>q \<in> set sqls. \<forall>r pw. q \<noteq> CreateRole r pw"
  by (auto simp: provision_rls_test_role_def split: if_splits option.splits)

end
