(* ===== verification/Tenant_Classes.thy ===== *)
theory Tenant_Classes
  imports Models
begin

text \<open>
  How a model class comes to be (\<open>src/boundary/models.py\<close>, the class bodies and the hook
  \<open>TenantMixin.__init_subclass__\<close>). A class is its method resolution order: its own namespace first, then
  those of its bases, the nearest first; an attribute is read from the first namespace that has it.
  Django's metaclass is not under \<open>src/\<close>: what it adds to a class once the class exists is an argument.
\<close>

section \<open>Classes\<close>

text \<open>
  \<open>cd_meta_abstract\<close>: \<open>_meta.abstract\<close> of the class's own \<open>_meta\<close>, \<open>None\<close> while the class has none. In
  \<open>cd_path\<close> and \<open>cd_fk\<close> the inner \<open>None\<close> is an attribute set to Python's \<open>None\<close>.
\<close>

record class_namespace =
  cd_id :: nat
  cd_name :: string
  cd_meta_abstract :: "bool option"
  cd_path :: "string option option"
  cd_fk :: "string option option"
  cd_fields :: "model_field list"

type_synonym py_class = "class_namespace list"

primrec class_attr :: "(class_namespace \<Rightarrow> 'a option) \<Rightarrow> py_class \<Rightarrow> 'a option" where
  "class_attr get [] = None"
| "class_attr get (ns # mro) = (case get ns of None \<Rightarrow> class_attr get mro | Some v \<Rightarrow> Some v)"

text \<open>\<open>_tenant_model_registry\<close> holds classes by identity.\<close>

type_synonym class_registry = "nat set"

definition init_subclass :: "py_class \<Rightarrow> class_registry \<Rightarrow> exn + class_registry" where
  "init_subclass cls registry =
     (case class_attr cd_meta_abstract cls of
        None \<Rightarrow> Inl (PyAttributeError ''_meta'')
      | Some abstract \<Rightarrow> Inr (if \<not> abstract then insert (cd_id (hd cls)) registry else registry))"

text \<open>
  \<open>class Body(bases)\<close>: Python creates the class and runs the hook of its bases, if one of them is
  \<open>TenantMixin\<close> (\<open>mixin\<close>); then the metaclass completes it.
\<close>

definition create_class ::
  "nat \<Rightarrow> (class_namespace \<Rightarrow> class_namespace) \<Rightarrow> class_namespace \<Rightarrow> py_class \<Rightarrow> class_registry
     \<Rightarrow> exn + py_class \<times> class_registry" where
  "create_class mixin finish body bases registry =
     (case (if mixin \<in> cd_id ` set bases then init_subclass (body # bases) registry else Inr registry) of
        Inl e \<Rightarrow> Inl e
      | Inr registry' \<Rightarrow> Inr (finish body # bases, registry'))"

text \<open>The class as the managers and checks see it.\<close>

definition as_model_class :: "class_registry \<Rightarrow> py_class \<Rightarrow> model_class" where
  "as_model_class registry cls =
     \<lparr> m_name = cd_name (hd cls), m_registered = cd_id (hd cls) \<in> registry,
       m_tenant_path = (case class_attr cd_path cls of None \<Rightarrow> None | Some v \<Rightarrow> v),
       m_fk_field = (case class_attr cd_fk cls of None \<Rightarrow> None | Some v \<Rightarrow> v),
       m_fields = concat (map cd_fields cls) \<rparr>"

section \<open>The bases the package offers\<close>

text \<open>\<open>TenantMixin\<close>, and \<open>TenantModel\<close> on top of it, which declares nothing of its own.\<close>

definition tenant_mixin_namespace :: "nat \<Rightarrow> string \<Rightarrow> class_namespace" where
  "tenant_mixin_namespace i target =
     \<lparr> cd_id = i, cd_name = ''TenantMixin'', cd_meta_abstract = Some True, cd_path = None,
       cd_fk = Some (Some ''tenant''),
       cd_fields = [\<lparr> f_name = ''tenant'', f_attname = ''tenant_id'', f_many_to_one = True, f_foreign_key = True,
         f_target = Some target \<rparr>] \<rparr>"

definition tenant_model_namespace :: "nat \<Rightarrow> class_namespace" where
  "tenant_model_namespace i = \<lparr> cd_id = i, cd_name = ''TenantModel'', cd_meta_abstract = Some True, cd_path = None,
     cd_fk = None, cd_fields = [] \<rparr>"

text \<open>\<open>AbstractTenant\<close>: its columns, its order and its \<open>str\<close>.\<close>

datatype column_kind =
    CharColumn nat
  | SlugColumn
  | BooleanColumn
  | PositiveIntegerColumn
  | DateTimeColumn bool bool

record column =
  col_name :: string
  col_kind :: column_kind
  col_unique :: bool
  col_blank :: bool
  col_default :: "pyval option"

definition plain_column :: "string \<Rightarrow> column_kind \<Rightarrow> column" where
  "plain_column name kind = \<lparr> col_name = name, col_kind = kind, col_unique = False, col_blank = False, col_default = None \<rparr>"

text \<open>\<open>DateTimeColumn auto_now_add auto_now\<close>\<close>

definition abstract_tenant_columns :: "column list" where
  "abstract_tenant_columns =
     [plain_column ''name'' (CharColumn 200),
      (plain_column ''slug'' SlugColumn)\<lparr>col_unique := True\<rparr>,
      (plain_column ''region'' (CharColumn 50))\<lparr>col_blank := True, col_default := Some (PStr [])\<rparr>,
      (plain_column ''is_active'' BooleanColumn)\<lparr>col_default := Some (PBool True)\<rparr>,
      plain_column ''created_at'' (DateTimeColumn True False),
      plain_column ''updated_at'' (DateTimeColumn False True)]"

definition abstract_tenant_ordering :: "string list" where
  "abstract_tenant_ordering = [''name'']"

definition abstract_tenant_str :: "tenant \<Rightarrow> string" where
  "abstract_tenant_str t = py_str (py_getattr t ''name'')"

section \<open>What is recognised, and what is registered\<close>

text \<open>
  A class that Django completes only after Python has created it: while the hook runs, the \<open>_meta\<close> it
  reads is the nearest base's. Directly over an abstract base nothing is registered, whatever the class
  itself is going to be; only a class over a concrete one is.
\<close>

lemma hook_reads_base_meta:
  assumes "cd_meta_abstract body = None" "mixin \<in> cd_id ` set bases" "class_attr cd_meta_abstract bases = Some abstract"
  shows "create_class mixin finish body bases registry =
    Inr (finish body # bases, if abstract then registry else insert (cd_id body) registry)"
  using assms by (simp add: create_class_def init_subclass_def)

text \<open>
  Recognition does not need the registry: the attributes are inherited. A class over a base that
  declares a foreign key field, with no path on the way, owns that column; one over a base that
  declares a path is scoped by the path whatever else it inherits.
\<close>

lemma recognised_without_registry:
  assumes "class_attr cd_fk cls = Some (Some fk)"
  shows "is_tenant_model (as_model_class registry cls)"
    and "class_attr cd_path cls = None \<Longrightarrow> has_tenant_column (as_model_class registry cls) \<and>
      get_tenant_lookup (as_model_class registry cls) = Some fk"
    and "class_attr cd_path cls = Some (Some (c # path)) \<Longrightarrow> \<not> has_tenant_column (as_model_class registry cls) \<and>
      get_tenant_lookup (as_model_class registry cls) = Some (c # path)"
  using assms
  by (auto simp: as_model_class_def is_tenant_model_def has_tenant_column_def get_tenant_lookup_def path_declared_def)

section \<open>Modules that declare models\<close>

text \<open>
  What the import of a project's modules does: mixins come from the package or its two factories, and
  class statements derive from a class there is, with plain classes beside it. Django completes a class
  by giving it its own \<open>_meta\<close>. No class turns a scope off by setting one of the two attributes to
  \<open>None\<close>, and a name a factory is given is not empty.
\<close>

definition plain_namespace :: "class_namespace \<Rightarrow> bool" where
  "plain_namespace ns \<longleftrightarrow> cd_path ns = None \<and> cd_fk ns = None"

definition scope_attr :: "string option option \<Rightarrow> bool" where
  "scope_attr v \<longleftrightarrow> (case v of None \<Rightarrow> True | Some None \<Rightarrow> False | Some (Some s) \<Rightarrow> s \<noteq> [])"

definition give_meta :: "bool \<Rightarrow> class_namespace \<Rightarrow> class_namespace" where
  "give_meta abstract ns = ns\<lparr>cd_meta_abstract := Some abstract\<rparr>"

definition factory_namespace :: "nat \<Rightarrow> model_class \<Rightarrow> class_namespace" where
  "factory_namespace i m = \<lparr> cd_id = i, cd_name = m_name m, cd_meta_abstract = Some True,
     cd_path = map_option Some (m_tenant_path m), cd_fk = map_option Some (m_fk_field m), cd_fields = m_fields m \<rparr>"

inductive declares :: "django_settings \<Rightarrow> class_registry \<Rightarrow> py_class set \<Rightarrow> bool" for s where
  package: "resolve_tenant_model_setting s = Inr target \<Longrightarrow>
    declares s {} {[tenant_mixin_namespace 0 target], [tenant_model_namespace 1, tenant_mixin_namespace 0 target]}"
| factory: "declares s registry classes \<Longrightarrow> i \<notin> cd_id ` (\<Union>cls \<in> classes. set cls) \<Longrightarrow>
    make_tenant_mixin s fk_field on_delete related_name db_index null = Inr (m, fk, key) \<Longrightarrow> fk \<noteq> [] \<Longrightarrow>
    declares s (insert i registry) (insert [factory_namespace i m] classes)"
| path_factory: "declares s registry classes \<Longrightarrow> i \<notin> cd_id ` (\<Union>cls \<in> classes. set cls) \<Longrightarrow> path \<noteq> [] \<Longrightarrow>
    declares s (insert i registry) (insert [factory_namespace i (make_tenant_path_mixin path)] classes)"
| class_statement: "declares s registry classes \<Longrightarrow> cls \<in> classes \<Longrightarrow>
    cd_id body \<notin> cd_id ` (\<Union>cls \<in> classes. set cls) \<Longrightarrow> cd_id body \<notin> registry \<Longrightarrow>
    cd_meta_abstract body = None \<Longrightarrow> scope_attr (cd_path body) \<Longrightarrow> scope_attr (cd_fk body) \<Longrightarrow>
    list_all plain_namespace before \<Longrightarrow> list_all plain_namespace behind \<Longrightarrow>
    create_class 0 (give_meta abstract) body (before @ cls @ behind) registry = Inr (cls', registry') \<Longrightarrow>
    declares s registry' (insert cls' classes)"

text \<open>
  A well-formed class: its \<open>_meta\<close> can be read and every function that asks for its scope gives the answer
  its two attributes give, as attribute access along its bases finds them: the path where there is one,
  whatever column is inherited beside it, and otherwise the column.
\<close>

definition scoped_class :: "class_registry \<Rightarrow> py_class \<Rightarrow> bool" where
  "scoped_class registry cls \<longleftrightarrow> (let m = as_model_class registry cls in
     class_attr cd_meta_abstract cls \<noteq> None \<and> is_tenant_model m \<and>
     (case class_attr cd_path cls of
        Some path \<Rightarrow> path \<notin> {None, Some []} \<and> get_tenant_lookup m = path \<and>
          get_tenant_fk_field m = None \<and> \<not> has_tenant_column m
      | None \<Rightarrow> (\<exists>fk. class_attr cd_fk cls = Some (Some fk) \<and> fk \<noteq> [] \<and> get_tenant_lookup m = Some fk \<and>
          get_tenant_fk_field m = Some fk \<and> has_tenant_column m)))"

text \<open>The two attributes alone decide it.\<close>

definition scope_declared :: "py_class \<Rightarrow> bool" where
  "scope_declared cls \<longleftrightarrow> class_attr cd_meta_abstract cls \<noteq> None \<and>
     scope_attr (class_attr cd_path cls) \<and> scope_attr (class_attr cd_fk cls) \<and>
     (class_attr cd_path cls \<noteq> None \<or> class_attr cd_fk cls \<noteq> None)"

lemma scope_declared_scoped: "scope_declared cls \<Longrightarrow> scoped_class registry cls"
  by (auto simp: scope_declared_def scoped_class_def scope_attr_def as_model_class_def is_tenant_model_def
      has_tenant_column_def path_declared_def get_tenant_fk_field_def get_tenant_lookup_def Let_def
      split: option.splits)

lemma class_attr_append: "class_attr get (a @ b) = (case class_attr get a of None \<Rightarrow> class_attr get b | Some v \<Rightarrow> Some v)"
  by (induction a) (auto split: option.splits)

lemma class_attr_plain:
  "list_all plain_namespace mro \<Longrightarrow> class_attr cd_path mro = None \<and> class_attr cd_fk mro = None"
  by (induction mro) (auto simp: plain_namespace_def)

definition sound_class :: "class_registry \<Rightarrow> py_class \<Rightarrow> bool" where
  "sound_class registry cls \<longleftrightarrow> cls \<noteq> [] \<and> scope_declared cls \<and>
     (cd_id (hd cls) \<in> registry \<longrightarrow> class_attr cd_meta_abstract (tl cls) \<in> {None, Some False})"

lemma sound_class_insert:
  assumes "sound_class registry cls" "cls \<in> classes" "i \<notin> cd_id ` (\<Union>cls \<in> classes. set cls)"
  shows "sound_class (insert i registry) cls"
proof -
  from assms(1) have "hd cls \<in> set cls" by (simp add: sound_class_def)
  with assms(2,3) have "cd_id (hd cls) \<noteq> i" by blast
  with assms(1) show ?thesis by (simp add: sound_class_def)
qed

lemma class_statement_sound:
  assumes "sound_class registry cls" "cd_id body \<notin> registry" "cd_meta_abstract body = None"
    and "scope_attr (cd_path body)" "scope_attr (cd_fk body)"
    and "list_all plain_namespace before" "list_all plain_namespace behind"
    and "create_class 0 (give_meta abstract) body (before @ cls @ behind) registry = Inr (cls', registry')"
  shows "sound_class registry' cls' \<and> registry' \<subseteq> insert (cd_id body) registry"
proof -
  let ?bases = "before @ cls @ behind"
  note plain = class_attr_plain [OF assms(6)] class_attr_plain [OF assms(7)]
  from assms(8) have cls': "cls' = give_meta abstract body # ?bases"
    by (auto simp: create_class_def split: sum.splits)
  have attrs: "class_attr cd_path cls' = (case cd_path body of None \<Rightarrow> class_attr cd_path cls | Some v \<Rightarrow> Some v)"
    "class_attr cd_fk cls' = (case cd_fk body of None \<Rightarrow> class_attr cd_fk cls | Some v \<Rightarrow> Some v)"
    using plain by (simp_all add: cls' give_meta_def class_attr_append split: option.splits)
  have scope: "scope_declared cls'"
    using assms(1,4,5) unfolding scope_declared_def attrs sound_class_def
    by (auto simp: cls' give_meta_def scope_attr_def split: option.splits)
  have "registry' = registry \<or>
      registry' = insert (cd_id body) registry \<and> class_attr cd_meta_abstract ?bases = Some False"
    using assms(3,8) by (auto simp: create_class_def init_subclass_def split: sum.splits option.splits if_splits)
  with assms(2) scope show ?thesis by (auto simp: sound_class_def cls' give_meta_def)
qed

lemma factory_scope:
  "make_tenant_mixin s fk_field on_delete related_name db_index null = Inr (m, fk, key) \<Longrightarrow> fk \<noteq> [] \<Longrightarrow>
    sound_class registry [factory_namespace i m]"
  "path \<noteq> [] \<Longrightarrow> sound_class registry [factory_namespace i (make_tenant_path_mixin path)]"
  by (auto simp: make_tenant_mixin_def make_tenant_path_mixin_def factory_namespace_def sound_class_def
      scope_declared_def scope_attr_def Let_def split: sum.splits)

lemma declared_sound: "declares s registry classes \<Longrightarrow> \<forall>cls \<in> classes. sound_class registry cls"
proof (induction rule: declares.induct)
  case (package target)
  then show ?case
    by (auto simp: sound_class_def scope_declared_def scope_attr_def tenant_mixin_namespace_def tenant_model_namespace_def)
next
  case (factory registry classes i fk_field on_delete related_name db_index null m fk key)
  then show ?case using sound_class_insert factory_scope(1) by (metis insert_iff)
next
  case (path_factory registry classes i path)
  then show ?case using sound_class_insert factory_scope(2) by (metis insert_iff)
next
  case (class_statement registry classes cls body before behind abstract cls' registry')
  from class_statement.IH class_statement.hyps(2) have "sound_class registry cls" by blast
  note new = class_statement_sound [OF this class_statement.hyps(4-10)]
  have "sound_class registry' c" if "c \<in> classes" for c
  proof -
    from class_statement.IH that have "sound_class registry c" by blast
    then have "sound_class (insert (cd_id body) registry) c"
      using that class_statement.hyps(3) by (rule sound_class_insert)
    with new show ?thesis by (auto simp: sound_class_def)
  qed
  with new show ?case by simp
qed

text \<open>
  C26: however a project declares its models over the package's bases and factories, each of them is
  well-formed: it has a path or a column, and the functions the managers, the router and the checks ask
  agree on which: on the path when the class has one, even beside an inherited column, and on the column
  otherwise. Being in the registry is not what makes a
  model recognised: a class statement registers a class only when the nearest base with a \<open>_meta\<close> is
  concrete, so a model directly over \<open>TenantMixin\<close> is known by its inherited attribute alone.
\<close>
theorem declared_models_are_scoped:
  assumes "declares s registry classes" "cls \<in> classes"
  shows "scoped_class registry cls \<and>
    (class_attr cd_meta_abstract (tl cls) = Some True \<longrightarrow> \<not> m_registered (as_model_class registry cls))"
proof -
  from declared_sound [OF assms(1)] assms(2) have "sound_class registry cls" by blast
  then have "scope_declared cls" "cd_id (hd cls) \<in> registry \<Longrightarrow> class_attr cd_meta_abstract (tl cls) \<noteq> Some True"
    by (auto simp: sound_class_def)
  then show ?thesis using scope_declared_scoped by (auto simp: as_model_class_def)
qed

text \<open>A concrete \<open>Booking(TenantMixin)\<close> that is scoped by a path and keeps the column it inherits.\<close>

definition booking_body :: class_namespace where
  "booking_body = \<lparr> cd_id = 7, cd_name = ''Booking'', cd_meta_abstract = None, cd_path = Some (Some ''venue__tenant''),
     cd_fk = None, cd_fields = [] \<rparr>"

theorem declared_models_are_scoped_witness:
  "let cls = [give_meta False booking_body, tenant_mixin_namespace 0 ''tenants.Club'']; m = as_model_class {} cls
   in is_tenant_model m \<and> \<not> m_registered m \<and> m_fk_field m = Some ''tenant'' \<and>
     get_tenant_lookup m = Some ''venue__tenant'' \<and> get_tenant_fk_field m = None \<and> \<not> has_tenant_column m"
proof -
  let ?base = "[tenant_mixin_namespace 0 ''tenants.Club'']"
  have setting: "resolve_tenant_model_setting default_settings = Inr ''tenants.Club''"
    by (simp add: resolve_tenant_model_setting_def default_settings_def str_or_def)
  have create: "create_class 0 (give_meta False) booking_body ([] @ ?base @ []) {} =
      Inr (give_meta False booking_body # ?base, {})"
    by (simp add: create_class_def init_subclass_def booking_body_def tenant_mixin_namespace_def)
  have "declares default_settings {} (insert (give_meta False booking_body # ?base)
      {?base, [tenant_model_namespace 1, tenant_mixin_namespace 0 ''tenants.Club'']})"
    by (rule class_statement [OF package [OF setting] _ _ _ _ _ _ _ _ create])
      (simp_all add: booking_body_def tenant_mixin_namespace_def tenant_model_namespace_def scope_attr_def)
  from declared_models_are_scoped [OF this, of "give_meta False booking_body # ?base"] show ?thesis
    by (simp add: scoped_class_def Let_def tenant_mixin_namespace_def booking_body_def give_meta_def as_model_class_def)
qed

end
