(* ===== verification/Smoke_Consumer.thy ===== *)
theory Smoke_Consumer
  imports Testing Migration_Laws Tenant_Classes
begin

text \<open>
  From a migration to a silent check. First for any table: what \<open>EnableRLS\<close> and \<open>CreateTenantPolicy\<close>
  send is what the system checks look for. Then for the project under \<open>smoke/consumer/\<close>, the package's
  own example of an installation: its settings, its migration of the RLS layer and its models, run on
  both backends.
\<close>

section \<open>What the policy operations send satisfies the checks\<close>

definition protect_table :: "schema_env \<Rightarrow> enable_rls \<Rightarrow> tenant_policy \<Rightarrow> string \<Rightarrow> apps_registry \<Rightarrow> apps_registry \<Rightarrow> unit mig" where
  "protect_table E er tp app_label from_apps to_apps =
     seqc (enable_rls_forwards E er app_label from_apps to_apps)
          (create_policy_forwards E tp app_label from_apps to_apps)"

text \<open>The catalogue shows row-level security on the table as the schema has it.\<close>

definition shows_rls :: "catalogue \<Rightarrow> string \<Rightarrow> table_schema \<Rightarrow> bool" where
  "shows_rls cat table ts \<longleftrightarrow>
     rls_flags cat table = Some (ts_enabled ts, ts_forced ts) \<and> policy_names cat table = ts_policies ts"

text \<open>
  C25: the migration operations and the system checks agree on what a protected table is. A table of a
  column-bearing model without row-level security is reported by \<open>boundary.E006\<close>; after \<open>EnableRLS\<close> and
  \<open>CreateTenantPolicy\<close> ran on an admitted PostgreSQL alias it is not, it carries the two policies the
  drift check asks for, the RLS assertion of the test utilities accepts it, and \<open>boundary.W009\<close> reports
  it exactly because it is protected, when the session variable is switched off.
\<close>
theorem migrated_table_passes_rls_checks:
  assumes "statements_succeed E" "se_router E (se_alias E) m" "se_vendor E = ''postgresql''"
    and "\<forall>apps \<in> {from_apps, to_apps}.
      model_at apps (target_app (er_app_label er) app_label) (er_model_name er) = Inr m \<and>
      model_at apps (target_app (tp_app_label tp) app_label) (tp_model_name tp) = Inr m"
    and "detect_tenant_column_type tp m = Inr ty" "tp_tenant_column tp \<noteq> []"
    and "\<not> ts_enabled ts" "shows_rls cat (mm_table m) ts" "ck_query C ''boundary.E006'' (mm_table m) = Inr cat"
    and "\<forall>ss. executed (snd (protect_table E er tp app_label from_apps to_apps w)) = sent ss @ executed w \<longrightarrow>
      shows_rls cat' (mm_table m) (schema_after (mm_table m) ss ts)"
    and "ck_query C' ''boundary.E006'' (mm_table m) = Inr cat'" "ck_query C' ''boundary.W009'' (mm_table m) = Inr cat'"
  shows "fst (protect_table E er tp app_label from_apps to_apps w) = Inr () \<and>
    probe_rls C (m, mm_table m, False) = [RlsOff False (mm_table m) (m_name m)] \<and>
    probe_rls C' (m, mm_table m, False) = [] \<and>
    {''boundary_tenant_isolation'', ''boundary_admin_bypass''} \<subseteq> policy_names cat' (mm_table m) \<and>
    scan_tables cat' [mm_table m] False = Enforcing \<and>
    probe_session_var C' (m, mm_table m, False) = [SessionVarOff False (mm_table m) (m_name m)]"
proof -
  note ops = policy_operations_admitted [OF assms(1-6)]
  let ?t = "mm_table m"
  let ?ss = "[EnableRowSecurity ?t, ForceRowSecurity ?t,
    CreateHelper ty (DB_SESSION_VAR (se_conf E)) (FUNCTION_LEAKPROOF (se_conf E)),
    CreateIsolationPolicy ?t (tp_tenant_column tp), CreateBypassPolicy ?t (ADMIN_FLAG_VAR (se_conf E))]"
  have run: "protect_table E er tp app_label from_apps to_apps w = (Inr (), w\<lparr>executed := sent ?ss @ executed w\<rparr>)"
    by (simp add: protect_table_def ops seqc_def bindc_def)
  then have "executed (snd (protect_table E er tp app_label from_apps to_apps w)) = sent ?ss @ executed w" by simp
  with assms(10) have "shows_rls cat' ?t (schema_after ?t ?ss ts)" by blast
  then have flags: "rls_flags cat' ?t = Some (True, True)"
    and pol: "{''boundary_tenant_isolation'', ''boundary_admin_bypass''} \<subseteq> policy_names cat' ?t"
    by (auto simp: shows_rls_def)
  from assms(7-9) have "probe_rls C (m, ?t, False) = [RlsOff False ?t (m_name m)]"
    by (simp add: probe_rls_def shows_rls_def)
  with run flags pol assms(11,12) show ?thesis
    by (simp add: probe_rls_def probe_session_var_def)
qed

section \<open>The smoke consumer\<close>

text \<open>\<open>settings.py\<close>, as far as the package reads it\<close>

definition smoke_settings :: django_settings where
  "smoke_settings = default_settings\<lparr>
     BOUNDARY_TENANT_MODEL := Some (Some ''smokeapp.Organisation''),
     BOUNDARY_STRICT_MODE := Some True,
     BOUNDARY_RESOLVERS := Some [''boundary.resolvers.SubdomainResolver''],
     BOUNDARY_SUBDOMAIN_PARENT_DOMAIN := Some (Some (OneDomain ''smoke.example.com'')),
     DEBUG := Some True,
     MIDDLEWARE := Some [''boundary.middleware.TenantMiddleware''],
     INSTALLED_APPS := [''django.contrib.contenttypes'', ''django.contrib.auth'', ''boundary'', ''smokeapp'', ''smokerls'']\<rparr>"

text \<open>\<open>Organisation\<close> and \<open>Booking\<close>; \<open>key\<close> is the column type of the automatic primary key.\<close>

definition big_auto_field :: "string option \<Rightarrow> meta_field" where
  "big_auto_field key = \<lparr> mf_name = ''id'', mf_column = ''id'', mf_unique = True, mf_primary_key = True,
     mf_db_type = key, mf_related_pk = None, mf_through = None \<rparr>"

definition smoke_organisation :: "string option \<Rightarrow> model_meta" where
  "smoke_organisation key = (plain_model ''smokeapp'' ''Organisation'' ''smokeapp_organisation'')\<lparr>
     mm_local_fields := [big_auto_field key], mm_get_fields := [big_auto_field key], mm_pk := big_auto_field key\<rparr>"

definition tenant_key :: "string option \<Rightarrow> meta_field" where
  "tenant_key key = \<lparr> mf_name = ''tenant'', mf_column = ''tenant_id'', mf_unique = False, mf_primary_key = False,
     mf_db_type = key, mf_related_pk = Some key, mf_through = None \<rparr>"

definition smoke_booking :: "string option \<Rightarrow> model_meta" where
  "smoke_booking key = (plain_model ''smokeapp'' ''Booking'' ''smokeapp_booking'')\<lparr>
     m_fk_field := Some ''tenant'',
     m_fields := [\<lparr> f_name = ''tenant'', f_attname = ''tenant_id'', f_many_to_one = True, f_foreign_key = True,
                    f_target = Some ''smokeapp.Organisation'' \<rparr>],
     mm_local_fields := [big_auto_field key, tenant_key key], mm_get_fields := [big_auto_field key, tenant_key key],
     mm_get_field := (\<lambda>n. if n = ''tenant'' then Inr (tenant_key key)
                          else if n = ''id'' then Inr (big_auto_field key)
                          else Inl (OtherException ''FieldDoesNotExist'')),
     mm_pk := big_auto_field key\<rparr>"

definition smoke_registry :: "string option \<Rightarrow> apps_registry" where
  "smoke_registry key =
     \<lparr> app_models = (\<lambda>a. if a = ''smokeapp'' then Inr [smoke_organisation key, smoke_booking key]
                          else if a = ''smokerls'' then Inr [] else Inl (LookupError a)),
       model_at = (\<lambda>a n. if a = ''smokeapp'' \<and> n = ''Organisation'' then Inr (smoke_organisation key)
                         else if a = ''smokeapp'' \<and> n = ''Booking'' then Inr (smoke_booking key)
                         else Inl (LookupError n)),
       model_path = (\<lambda>p. if p = ''smokeapp.Organisation'' then Inr (smoke_organisation key) else Inl (LookupError p)) \<rparr>"

text \<open>\<open>smokerls/migrations/0001\_rls.py\<close>: its two operations, in order\<close>

definition smoke_rls_operations :: "enable_rls \<times> tenant_policy" where
  "smoke_rls_operations =
     (enable_rls_init ''Booking'' (Some ''smokeapp''), tenant_policy_init ''Booking'' None (Some ''smokeapp''))"

definition smoke_rls_migrate :: "schema_env \<Rightarrow> string option \<Rightarrow> unit mig" where
  "smoke_rls_migrate E key =
     protect_table E (fst smoke_rls_operations) (snd smoke_rls_operations) ''smokerls''
       (smoke_registry key) (smoke_registry key)"

section \<open>The initial migration\<close>

text \<open>
  A field of a \<open>CreateModel\<close>: the automatic big-integer key, a column, or the tenant's foreign key. The
  migration writes a foreign key's target in lower case, as Django's writer does.
\<close>

datatype smoke_field = BigAutoKey | DataField column | TenantKeyField tenant_fk

definition smoke_initial :: "(string \<times> (string \<times> smoke_field) list \<times> string list) list" where
  "smoke_initial =
     [(''Organisation'',
       [(''id'', BigAutoKey),
        (''name'', DataField (plain_column ''name'' (CharColumn 200))),
        (''slug'', DataField ((plain_column ''slug'' SlugColumn)\<lparr>col_unique := True\<rparr>)),
        (''region'', DataField ((plain_column ''region'' (CharColumn 50))\<lparr>col_blank := True, col_default := Some (PStr [])\<rparr>)),
        (''is_active'', DataField ((plain_column ''is_active'' BooleanColumn)\<lparr>col_default := Some (PBool True)\<rparr>)),
        (''created_at'', DataField (plain_column ''created_at'' (DateTimeColumn True False))),
        (''updated_at'', DataField (plain_column ''updated_at'' (DateTimeColumn False True)))],
       [''name'']),
      (''Booking'',
       [(''id'', BigAutoKey),
        (''reference'', DataField (plain_column ''reference'' (CharColumn 50))),
        (''seats'', DataField ((plain_column ''seats'' PositiveIntegerColumn)\<lparr>col_default := Some (PInt 1)\<rparr>)),
        (''tenant'', TenantKeyField \<lparr> fk_to = ''smokeapp.organisation'', fk_on_delete = ''CASCADE'', fk_db_index = True,
           fk_null = False, fk_related_name = ''%(app_label)s_%(class)s_set'', fk_verbose_name = ''tenant'' \<rparr>)],
       [])]"

text \<open>\<open>smokeapp/models.py\<close>: the columns the two classes declare of their own\<close>

definition smoke_own_columns :: "string \<Rightarrow> column list" where
  "smoke_own_columns name =
     (if name = ''Booking''
      then [plain_column ''reference'' (CharColumn 50),
            (plain_column ''seats'' PositiveIntegerColumn)\<lparr>col_default := Some (PInt 1)\<rparr>]
      else [])"

text \<open>
  \<open>makemigrations --check\<close> finds nothing to do: the migration creates what the classes declare, the
  columns of \<open>AbstractTenant\<close> with its order for the one, the foreign key of \<open>TenantMixin\<close> for the other.
\<close>

lemma smoke_initial_matches_models:
  "\<exists>mixin fk org booking. tenant_mixin smoke_settings = Inr (mixin, fk) \<and> smoke_initial = [org, booking] \<and>
    org = (''Organisation'', (''id'', BigAutoKey) #
      map (\<lambda>c. (col_name c, DataField c)) (abstract_tenant_columns @ smoke_own_columns ''Organisation''),
      abstract_tenant_ordering) \<and>
    booking = (''Booking'', (''id'', BigAutoKey) # map (\<lambda>c. (col_name c, DataField c)) (smoke_own_columns ''Booking'') @
      [(the (m_fk_field mixin), TenantKeyField (fk\<lparr>fk_to := lower (fk_to fk)\<rparr>))], [])"
proof -
  have "resolve_tenant_model_setting smoke_settings = Inr ''smokeapp.Organisation''"
    by (simp add: resolve_tenant_model_setting_def smoke_settings_def str_or_def)
  moreover have "lower ''smokeapp.Organisation'' = ''smokeapp.organisation''" by code_simp
  ultimately show ?thesis
    by (auto simp: tenant_mixin_def smoke_initial_def abstract_tenant_columns_def abstract_tenant_ordering_def
        smoke_own_columns_def plain_column_def)
qed

section \<open>The gate\<close>

text \<open>
  What \<open>smoke/run.sh\<close> sets up: a database on which no statement fails, a role no policy exempts, the
  models of the two Django applications beside the consumer's own, and the import of the two dotted
  paths the settings name.
\<close>

definition smoke_schema_env :: "string \<Rightarrow> string option \<Rightarrow> schema_env" where
  "smoke_schema_env vendor key =
     \<lparr> se_conf = smoke_settings, se_alias = ''default'', se_vendor = vendor, se_router = (\<lambda>_ _. True),
       se_live = smoke_registry key, se_read = (\<lambda>_. Inl (OtherException ''not read'')),
       se_execute = (\<lambda>_ _. Inr 0), se_index_name = (\<lambda>t cols suffix. t @ suffix),
       se_unique_sql = (\<lambda>_ _. None) \<rparr>"

definition smoke_catalogue :: "table_schema \<Rightarrow> catalogue" where
  "smoke_catalogue ts =
     \<lparr> regclass = (\<lambda>t. if t = ''smokeapp_booking'' then Some 7 else None), cat_attributes = [],
       cat_constraints = [], cat_indexes = [],
       cat_classes = [\<lparr> cl_oid = 7, cl_name = ''smokeapp_booking'', cl_row_security = ts_enabled ts,
         cl_force_row_security = ts_forced ts \<rparr>],
       cat_policies = map (Pair 7) (filter (\<lambda>p. p \<in> ts_policies ts)
         [''boundary_tenant_isolation'', ''boundary_admin_bypass'']),
       cat_count = (\<lambda>_. Inr 0) \<rparr>"

definition smoke_import :: "string \<Rightarrow> exn + imported" where
  "smoke_import path =
     (if path = ''boundary.resolvers.SubdomainResolver''
      then Inr (PyClass {''boundary.resolvers.SubdomainResolver'', ''boundary.resolvers.BaseResolver''})
      else if path = ''boundary.middleware.TenantMiddleware''
      then Inr (PyClass {''boundary.middleware.TenantMiddleware''})
      else Inl (PyImportError path))"

definition smoke_checks :: "string \<Rightarrow> string option \<Rightarrow> catalogue \<Rightarrow> check_env" where
  "smoke_checks vendor key cat =
     \<lparr> ck_conf = smoke_settings, ck_routers = None, ck_import = smoke_import, ck_live = smoke_registry key,
       ck_models = [plain_model ''contenttypes'' ''ContentType'' ''django_content_type'',
         plain_model ''auth'' ''Permission'' ''auth_permission'', plain_model ''auth'' ''Group'' ''auth_group'',
         plain_model ''auth'' ''User'' ''auth_user'',
         smoke_organisation key, smoke_booking key],
       ck_vendor = vendor, ck_query = (\<lambda>_ _. Inr cat), ck_role = Inr (Some (False, False)) \<rparr>"

lemma smoke_simps [simp]:
  "mm_table (smoke_booking key) = ''smokeapp_booking''" "m_name (smoke_booking key) = ''Booking''"
  "model_label (smoke_booking key) = ''smokeapp.Booking''"
  "detect_tenant_column_type (tenant_policy_init ''Booking'' None (Some ''smokeapp'')) (smoke_booking key) =
    Inr (detect_tenant_pg_type key)"
  by (simp_all add: smoke_booking_def plain_model_def model_label_def detect_tenant_column_type_def
      tenant_policy_init_def removesuffix_def tenant_key_def)

lemma smoke_resolves: "\<forall>apps \<in> {smoke_registry key, smoke_registry key}.
    model_at apps (target_app (er_app_label (fst smoke_rls_operations)) ''smokerls'')
      (er_model_name (fst smoke_rls_operations)) = Inr (smoke_booking key) \<and>
    model_at apps (target_app (tp_app_label (snd smoke_rls_operations)) ''smokerls'')
      (tp_model_name (snd smoke_rls_operations)) = Inr (smoke_booking key)"
  by (simp add: smoke_rls_operations_def smoke_registry_def enable_rls_init_def tenant_policy_init_def target_app_def)

lemma smoke_operation_type:
  "detect_tenant_column_type (snd smoke_rls_operations) (smoke_booking key) = Inr (detect_tenant_pg_type key)"
  "tp_tenant_column (snd smoke_rls_operations) = ''tenant_id''"
  by (simp_all add: smoke_rls_operations_def) (simp add: tenant_policy_init_def)

lemma smoke_env_facts:
  "statements_succeed (smoke_schema_env vendor key)"
  "se_router (smoke_schema_env vendor key) a m"
  "se_vendor (smoke_schema_env vendor key) = vendor" "se_conf (smoke_schema_env vendor key) = smoke_settings"
  "se_alias (smoke_schema_env vendor key) = ''default''"
  by (simp_all add: statements_succeed_def smoke_schema_env_def)

lemma smoke_migrate_run:
  "smoke_rls_migrate (smoke_schema_env ''postgresql'' key) key w = (Inr (), w\<lparr>executed := sent
     [EnableRowSecurity ''smokeapp_booking'', ForceRowSecurity ''smokeapp_booking'',
      CreateHelper (detect_tenant_pg_type key) ''app.current_tenant_id'' False,
      CreateIsolationPolicy ''smokeapp_booking'' ''tenant_id'',
      CreateBypassPolicy ''smokeapp_booking'' ''app.boundary_admin''] @ executed w\<rparr>)"
proof -
  have conf: "DB_SESSION_VAR smoke_settings = ''app.current_tenant_id''" "\<not> FUNCTION_LEAKPROOF smoke_settings"
    "ADMIN_FLAG_VAR smoke_settings = ''app.boundary_admin''"
    by (simp_all add: smoke_settings_def default_settings_def conf_defs)
  have "tp_tenant_column (snd smoke_rls_operations) \<noteq> []" by (simp add: smoke_operation_type)
  note ops = policy_operations_admitted [OF smoke_env_facts(1,2) smoke_env_facts(3) smoke_resolves
      smoke_operation_type(1) this]
  show ?thesis
    by (simp add: smoke_rls_migrate_def protect_table_def seqc_def bindc_def ops smoke_operation_type
        smoke_env_facts(4) conf)
qed

text \<open>On another backend: two lines, no statement.\<close>

lemma smoke_migrate_skips:
  assumes "vendor \<noteq> ''postgresql''"
  shows "smoke_rls_migrate (smoke_schema_env vendor key) key w = (Inr (), w\<lparr>skip_log :=
     \<lparr> sk_operation = ''CreateTenantPolicy'', sk_model = ''smokeapp.Booking'', sk_using = ''default'', sk_vendor = vendor \<rparr> #
     \<lparr> sk_operation = ''EnableRLS'', sk_model = ''smokeapp.Booking'', sk_using = ''default'', sk_vendor = vendor \<rparr> #
     skip_log w\<rparr>)"
proof -
  have reg: "model_at (smoke_registry key) (target_app (er_app_label (fst smoke_rls_operations)) ''smokerls'')
      (er_model_name (fst smoke_rls_operations)) = Inr (smoke_booking key)"
    "model_at (smoke_registry key) (target_app (tp_app_label (snd smoke_rls_operations)) ''smokerls'')
      (tp_model_name (snd smoke_rls_operations)) = Inr (smoke_booking key)"
    using smoke_resolves by simp_all
  show ?thesis
    using assms
    by (simp add: smoke_rls_migrate_def protect_table_def enable_rls_forwards_def create_policy_forwards_def
        reg bindc_liftc router_allows_def smoke_env_facts postgresql_or_logged_noop_def seqc_def bindc_def)
qed

lemma smoke_settings_simps [simp]:
  "BOUNDARY_TENANT_MODEL smoke_settings = Some (Some ''smokeapp.Organisation'')"
  "ICV_TENANT_MODEL smoke_settings = None" "BOUNDARY_STRICT_MODE smoke_settings = Some True"
  "BOUNDARY_SET_DB_SESSION_VAR smoke_settings = None" "BOUNDARY_REGIONS smoke_settings = None"
  "BOUNDARY_RESOLVERS smoke_settings = Some [''boundary.resolvers.SubdomainResolver'']"
  "BOUNDARY_SUBDOMAIN_PARENT_DOMAIN smoke_settings = Some (Some (OneDomain ''smoke.example.com''))"
  "BOUNDARY_TENANT_APPS smoke_settings = None" "BOUNDARY_ADOPT_EXCLUDE smoke_settings = None"
  "DEBUG smoke_settings = Some True" "MIDDLEWARE smoke_settings = Some [''boundary.middleware.TenantMiddleware'']"
  "set (INSTALLED_APPS smoke_settings) = {''django.contrib.contenttypes'', ''django.contrib.auth'', ''boundary'',
     ''smokeapp'', ''smokerls''}"
  by (simp_all add: smoke_settings_def default_settings_def)

lemma smoke_checks_simps [simp]:
  "ck_conf (smoke_checks vendor key cat) = smoke_settings" "ck_routers (smoke_checks vendor key cat) = None"
  "ck_import (smoke_checks vendor key cat) = smoke_import" "ck_live (smoke_checks vendor key cat) = smoke_registry key"
  "ck_vendor (smoke_checks vendor key cat) = vendor" "ck_query (smoke_checks vendor key cat) c t = Inr cat"
  "ck_role (smoke_checks vendor key cat) = Inr (Some (False, False))"
  by (simp_all add: smoke_checks_def)

lemma smoke_column_bearing: "filter column_bearing (ck_models (smoke_checks vendor key cat)) = [smoke_booking key]"
  by (simp add: smoke_checks_def column_bearing_def is_tenant_model_def has_tenant_column_def path_declared_def
      smoke_organisation_def smoke_booking_def plain_model_def model_class.truncate_def)

lemma smoke_checks_run:
  "check_boundary_configuration (smoke_checks vendor key cat) = Inr
     (if vendor = ''postgresql'' then probe_rls (smoke_checks vendor key cat)
        (smoke_booking key, ''smokeapp_booking'', False) else [])"
proof -
  let ?C = "smoke_checks vendor key cat"
  have expected: "expected_adopted_tables (smoke_checks v key cat) = Inr []" for v
    by (simp add: expected_adopted_tables_def expected_adopted_models_def expected_adopted_apps_def
        TENANT_APPS_def)
  have targets: "rls_probe_targets (smoke_checks v key cat) = Inr [(smoke_booking key, ''smokeapp_booking'', False)]" for v
    by (simp add: rls_probe_targets_def expected smoke_column_bearing Let_def)
  have model: "model_string smoke_settings = Some ''smokeapp.Organisation''"
    by (simp add: model_string_def str_or_def)
  have "check_tenant_model ?C = Inr []" "check_resolvers ?C = Inr []" "check_middleware ?C = Inr []"
    "check_strict_mode ?C = Inr []" "check_production_posture ?C = Inr []"
    "check_external_double_resolve ?C = Inr []" "check_rls_bypassable ?C = Inr []" "check_client_controlled ?C = Inr []"
    "check_regional_router ?C = Inr []" "check_subdomain_parent ?C = Inr []" "check_session_var_disabled ?C = Inr []"
    by (simp_all add: check_tenant_model_def check_resolvers_def check_middleware_def check_strict_mode_def
        check_production_posture_def check_external_double_resolve_def check_rls_bypassable_def
        check_client_controlled_def check_regional_router_def check_subdomain_parent_def
        check_session_var_disabled_def model smoke_registry_def smoke_import_def
        RESOLVERS_def middleware_entries_def has_external_middleware_def
        external_middleware_def ends_with_def resolvers_of_class_def issubclass_def parent_domain_set_def Let_def)
  moreover have "check_adopted_tables ?C = Inr []"
    by (simp add: check_adopted_tables_def check_adopted_settings_def expected_adopted_apps_def expected
        TENANT_APPS_def ADOPT_EXCLUDE_def)
  moreover have "check_rls_enabled ?C = Inr (if vendor = ''postgresql'' then probe_rls ?C
      (smoke_booking key, ''smokeapp_booking'', False) else [])"
    by (simp add: check_rls_enabled_def targets model)
  ultimately show ?thesis by (simp add: check_boundary_configuration_def)
qed

text \<open>
  The smoke gate, computed: it passes on both backends. On PostgreSQL, with a big-integer key, the consumer's
  migration turns an unprotected booking table into one with row-level security enabled and forced and
  both policies; the whole check run reports that table before the migration, as its only report, and
  nothing after it, and the tenant-column helper is created with the key's type. On another backend the same
  migration sends nothing, says so once for each operation, and the check run is clean (BR-ENV-002).
\<close>
lemma smoke_consumer_migrates_and_checks_clean:
  "(\<exists>ss. smoke_rls_migrate (smoke_schema_env ''postgresql'' (Some ''bigint'')) (Some ''bigint'') start =
      (Inr (), start\<lparr>executed := sent ss\<rparr>) \<and>
    CreateHelper ''bigint'' ''app.current_tenant_id'' False \<in> set ss \<and>
    (let migrated = schema_after ''smokeapp_booking'' ss unprotected;
         check = (\<lambda>ts. check_boundary_configuration (smoke_checks ''postgresql'' (Some ''bigint'') (smoke_catalogue ts)))
     in ts_enabled migrated \<and> ts_forced migrated \<and>
        ts_policies migrated = {''boundary_tenant_isolation'', ''boundary_admin_bypass''} \<and>
        check unprotected = Inr [RlsOff False ''smokeapp_booking'' ''Booking''] \<and> check migrated = Inr [])) \<and>
   (\<exists>log. smoke_rls_migrate (smoke_schema_env ''sqlite'' (Some ''integer'')) (Some ''integer'') start =
      (Inr (), start\<lparr>skip_log := log\<rparr>) \<and>
    map sk_operation log = [''CreateTenantPolicy'', ''EnableRLS''] \<and> map sk_model log = [''smokeapp.Booking'', ''smokeapp.Booking''] \<and>
    check_boundary_configuration (smoke_checks ''sqlite'' (Some ''integer'') (smoke_catalogue unprotected)) = Inr [])"
proof (intro conjI)
  have flags: "rls_flags (smoke_catalogue ts) ''smokeapp_booking'' = Some (ts_enabled ts, ts_forced ts)" for ts
    by (simp add: rls_flags_def smoke_catalogue_def)
  have probe: "probe_rls (smoke_checks v k (smoke_catalogue ts)) (smoke_booking k, ''smokeapp_booking'', False) =
      (if ts_enabled ts \<and> ts_forced ts then [] else [RlsOff False ''smokeapp_booking'' ''Booking''])" for v k ts
    using flags [of ts] by (simp add: probe_rls_def)
  have type: "detect_tenant_pg_type (Some ''bigint'') = ''bigint''"
    by (simp add: detect_tenant_pg_type_def pg_type_of_def PG_TYPE_MAP_def)
  let ?ss = "[EnableRowSecurity ''smokeapp_booking'', ForceRowSecurity ''smokeapp_booking'',
      CreateHelper ''bigint'' ''app.current_tenant_id'' False,
      CreateIsolationPolicy ''smokeapp_booking'' ''tenant_id'',
      CreateBypassPolicy ''smokeapp_booking'' ''app.boundary_admin'']"
  have schema: "schema_after ''smokeapp_booking'' ?ss unprotected = unprotected\<lparr>ts_enabled := True, ts_forced := True,
      ts_policies := {''boundary_tenant_isolation'', ''boundary_admin_bypass''}\<rparr>"
    by (auto simp: unprotected_def)
  show "\<exists>ss. smoke_rls_migrate (smoke_schema_env ''postgresql'' (Some ''bigint'')) (Some ''bigint'') start =
      (Inr (), start\<lparr>executed := sent ss\<rparr>) \<and>
    CreateHelper ''bigint'' ''app.current_tenant_id'' False \<in> set ss \<and>
    (let migrated = schema_after ''smokeapp_booking'' ss unprotected;
         check = (\<lambda>ts. check_boundary_configuration (smoke_checks ''postgresql'' (Some ''bigint'') (smoke_catalogue ts)))
     in ts_enabled migrated \<and> ts_forced migrated \<and>
        ts_policies migrated = {''boundary_tenant_isolation'', ''boundary_admin_bypass''} \<and>
        check unprotected = Inr [RlsOff False ''smokeapp_booking'' ''Booking''] \<and> check migrated = Inr [])"
    by (rule exI [of _ ?ss])
      (simp only: Let_def schema smoke_checks_run probe smoke_migrate_run type, simp add: unprotected_def start_def)
  show "\<exists>log. smoke_rls_migrate (smoke_schema_env ''sqlite'' (Some ''integer'')) (Some ''integer'') start =
      (Inr (), start\<lparr>skip_log := log\<rparr>) \<and>
    map sk_operation log = [''CreateTenantPolicy'', ''EnableRLS''] \<and> map sk_model log = [''smokeapp.Booking'', ''smokeapp.Booking''] \<and>
    check_boundary_configuration (smoke_checks ''sqlite'' (Some ''integer'') (smoke_catalogue unprotected)) = Inr []"
    by (rule exI [of _ "[\<lparr> sk_operation = ''CreateTenantPolicy'', sk_model = ''smokeapp.Booking'',
        sk_using = ''default'', sk_vendor = ''sqlite'' \<rparr>, \<lparr> sk_operation = ''EnableRLS'', sk_model = ''smokeapp.Booking'',
        sk_using = ''default'', sk_vendor = ''sqlite'' \<rparr>]"])
      (simp add: smoke_migrate_skips smoke_checks_run)
qed

text \<open>The consumer's migration, as an instance of the general statement.\<close>

theorem migrated_table_passes_rls_checks_witness:
  "\<exists>cat. probe_rls (smoke_checks ''postgresql'' (Some ''bigint'') (smoke_catalogue unprotected))
      (smoke_booking (Some ''bigint''), ''smokeapp_booking'', False) \<noteq> [] \<and>
    probe_rls (smoke_checks ''postgresql'' (Some ''bigint'') cat)
      (smoke_booking (Some ''bigint''), ''smokeapp_booking'', False) = []"
proof -
  let ?key = "Some ''bigint''" and ?E = "smoke_schema_env ''postgresql'' (Some ''bigint'')"
  let ?run = "protect_table ?E (fst smoke_rls_operations) (snd smoke_rls_operations) ''smokerls''
    (smoke_registry ?key) (smoke_registry ?key)"
  let ?ts = "unprotected\<lparr>ts_enabled := True, ts_forced := True,
      ts_policies := {''boundary_tenant_isolation'', ''boundary_admin_bypass''}\<rparr>"
  have col: "tp_tenant_column (snd smoke_rls_operations) \<noteq> []" by (simp add: smoke_operation_type)
  have shows_smoke: "shows_rls (smoke_catalogue ts) ''smokeapp_booking'' ts"
    if "ts_policies ts \<in> {{}, {''boundary_tenant_isolation'', ''boundary_admin_bypass''}}" for ts
    using that by (auto simp: shows_rls_def rls_flags_def policy_names_def smoke_catalogue_def)
  have after: "\<forall>ss. executed (snd (?run start)) = sent ss @ executed start \<longrightarrow>
      shows_rls (smoke_catalogue ?ts) (mm_table (smoke_booking ?key)) (schema_after (mm_table (smoke_booking ?key)) ss unprotected)"
  proof (intro allI impI)
    fix ss assume "executed (snd (?run start)) = sent ss @ executed start"
    then have "ss = [EnableRowSecurity ''smokeapp_booking'', ForceRowSecurity ''smokeapp_booking'',
      CreateHelper (detect_tenant_pg_type ?key) ''app.current_tenant_id'' False,
      CreateIsolationPolicy ''smokeapp_booking'' ''tenant_id'',
      CreateBypassPolicy ''smokeapp_booking'' ''app.boundary_admin'']"
      using smoke_migrate_run [of ?key start] sent_inject unfolding smoke_rls_migrate_def by fastforce
    then have "schema_after ''smokeapp_booking'' ss unprotected = ?ts" by (auto simp: unprotected_def)
    then show "shows_rls (smoke_catalogue ?ts) (mm_table (smoke_booking ?key))
        (schema_after (mm_table (smoke_booking ?key)) ss unprotected)"
      using shows_smoke [of ?ts] by simp
  qed
  have before: "shows_rls (smoke_catalogue unprotected) (mm_table (smoke_booking ?key)) unprotected"
    using shows_smoke [of unprotected] by (simp add: unprotected_def)
  have query: "ck_query (smoke_checks v k cat) c t = Inr cat" for v k cat c t by (simp add: smoke_checks_def)
  have "\<not> ts_enabled unprotected" by (simp add: unprotected_def)
  note result = migrated_table_passes_rls_checks [OF smoke_env_facts(1,2) smoke_env_facts(3) smoke_resolves
      smoke_operation_type(1) col this before query after query query]
  show ?thesis
    by (rule exI [of _ "smoke_catalogue ?ts"]) (use result in simp)
qed

end
