(* ===== verification/Spec2Isabelle.thy ===== *)
theory Spec2Isabelle
  imports Worker Concurrent_Lookups Smoke_Consumer Deprovision
begin

text \<open>
  django-boundary: row-level multi-tenancy for Django (\<open>src/boundary/\<close>). A tenant is made active in a
  \<open>ContextVar\<close>; managers filter by it and stamp it, a PostgreSQL session variable carries it to
  row-level security, and a router, a middleware and a Celery mixin hand it on. Migration operations
  create the policies, for models of the project and for third-party apps it adopts; system checks
  watch both; management commands create, remove and visit tenants. This development models the
  package and proves what keeps tenants apart.

  How the parts interact. \<open>context.py\<close> is the centre: every other part reads the active tenant through
  it. \<open>middleware.py\<close> (with \<open>resolvers.py\<close>) and \<open>celery.py\<close> set it for a request or a task and clear it
  afterwards; \<open>models.py\<close> reads it on every query and write; \<open>routing.py\<close> reads it on every query and
  must pick an alias the context layer has written the session variable on. \<open>migrations_ops.py\<close> puts the
  policies in place that read that variable, on the tables \<open>adoption.py\<close> derives; \<open>checks.py\<close> and
  \<open>testing.py\<close> look the same tables up in the catalogue; \<open>boundary_deprovision\<close> empties them inside
  \<open>admin_bypass\<close>, and \<open>apps.py\<close> has the deleted tenant dropped from the resolvers' cache. The example
  project under \<open>src/smoke/consumer/\<close> puts models, settings and migrations of its own on top.

  Theories, in import order:
    \<^item> Prelude: insertion-ordered dictionaries and small list facts; the rule collections.
    \<^item> Exceptions: Python values, \<open>exceptions.py\<close>, and \<open>str\<close> on primary keys.
    \<^item> Py_Runtime: statements as functions from a state to a result or an exception and a state;
      \<open>try/finally\<close>, \<open>try/except\<close>, \<open>for\<close>; what a statement keeps, and that it does not raise.
    \<^item> Interfaces: the locales \<open>scope\<close> (a block that puts a piece of state back) and \<open>tenant_source\<close>
      (the guard of the write operations).
    \<^item> Conf: \<open>conf.py\<close>, one definition per accessor, over a record of the settings module.
    \<^item> Boundary_State: the module-level state (\<open>world\<close>), the trace of effects (SQL, transactions, signals,
      reads of the tenant model), and the environment with the laws the proofs use.
    \<^item> Context: \<open>context.py\<close>. \<open>tc_set\<close>, \<open>tc_clear\<close>, \<open>tc_using\<close>, \<open>admin_bypass\<close>, \<open>tenant_scoped\<close>.
    \<^item> Models: \<open>models.py\<close>. \<open>get_queryset\<close>, the \<open>tm_\<close> and \<open>um_\<close> manager methods, \<open>mixin_save\<close>,
      \<open>validate_cross_tenant_fks\<close>, the factories, \<open>tenant_unique\<close>.
    \<^item> Tenant_Classes: the classes behind it. The attributes a class statement declares and inherits, the
      hook \<open>__init_subclass__\<close> (\<open>init_subclass\<close>) and the registry, \<open>TenantMixin\<close>, \<open>TenantModel\<close>, the columns
      of \<open>AbstractTenant\<close>; \<open>declares\<close> is any sequence of class statements over them.
    \<^item> Routing: \<open>routing.py\<close>. \<open>route\<close>, \<open>require_region\<close>, \<open>specific_region\<close>, the warn-once set.
    \<^item> Resolvers: \<open>resolvers.py\<close>. The cache, the five resolvers, and the locale \<open>lookaside\<close> their use of
      the cache rests on.
    \<^item> Middleware: \<open>middleware.py\<close>. The resolver chain and \<open>middleware_call\<close>.
    \<^item> Celery: \<open>celery.py\<close>. Dispatch headers and \<open>run_task\<close>.
    \<^item> Adoption: \<open>adoption.py\<close>. Refusals, the adopted and the expected set, and the catalogue queries over
      rows of \<open>pg_attribute\<close>, \<open>pg_constraint\<close>, \<open>pg_index\<close>, \<open>pg_class\<close> and \<open>pg_policy\<close>.
    \<^item> Migration_Ops: \<open>migrations_ops.py\<close> and \<open>schema_compat.py\<close>. SQL as a datatype with its text, the four
      operations in both directions (\<open>enable_rls_forwards\<close>, \<open>create_policy_forwards\<close>, \<open>drop_policy_forwards\<close>,
      \<open>adopt_app_forwards\<close> and the \<open>_backwards\<close> of each), and what each statement does to an abstract
      schema of one table (\<open>sql_effect\<close>).
    \<^item> Migration_Laws: what those operations guarantee, with a small database for the witnesses.
    \<^item> Checks: \<open>checks.py\<close>. One definition per check; a report is a constructor with what its message names.
    \<^item> Apps: \<open>apps.py\<close>. The receivers that invalidate the resolver cache.
    \<^item> Concurrent_Lookups: the threads of one process over the shared cache. \<open>cstep\<close> moves one thread by one
      cache operation or one read of the tenant model, or invalidates; a resolver run alone is one of its
      schedules (\<open>lookup_schedule\<close>).
    \<^item> Commands: \<open>boundary_run\<close>, \<open>boundary_run_all\<close>, \<open>boundary_provision\<close>.
    \<^item> Deprovision: \<open>boundary_deprovision\<close>, and reasoning over the effects a computation performs (\<open>steps\<close>).
    \<^item> Testing: \<open>testing.py\<close>. The RLS assertion, the test role, the scopes for tests.
    \<^item> Worker: a worker over its lifetime. \<open>app_code\<close> is what an application runs inside a job, \<open>serves\<close> one
      request, task, one of the four commands or a tenant change, \<open>reachable\<close> every state between two jobs.
    \<^item> Smoke_Consumer: from a migration to the checks. \<open>EnableRLS\<close> and \<open>CreateTenantPolicy\<close> on a table and
      what the checks and the assertion then read; the settings, models and migrations of the example.

  State. The three \<open>ContextVar\<close>s, the resolver cache, the warn-once set, the trace and the log lines are
  the fields of \<open>world\<close>. Everything outside the package is a field of \<open>env\<close>: a function of the history
  that says how an effect turns out, so that any statement, transaction boundary, signal receiver or
  read of the tenant model may fail at any time. Theorems without hypotheses on \<open>env\<close> hold for all of
  these failures. Exceptions are the values of \<open>exn\<close>, with \<open>SystemExit\<close> and \<open>KeyboardInterrupt\<close> apart from
  the rest (\<open>is_exception\<close>): \<open>try_except\<close> is \<open>except Exception\<close> and lets those two pass, as application code
  may raise them; what a statement, a signal receiver or a query of a check raises is an \<open>Exception\<close>. Three named hypotheses state documented behaviour: \<open>db_ok\<close> (nothing fails), \<open>db_laws\<close>
  (transaction-local \<open>set_config\<close> and nesting of \<open>atomic\<close>), \<open>reads_back\<close> (\<open>current_setting\<close> returns the
  variable). \<open>replay_env\<close> satisfies all three and is what the witnesses run on. A migration has a state
  of its own (\<open>migration\<close>: the statements sent and the lines logged for skipped aliases) and an
  environment \<open>schema_env\<close> (router, vendor, catalogue as of the statements sent, how a statement turns out);
  the checks are functions of \<open>check_env\<close>. Further hypotheses by name: \<open>statements_succeed\<close> (no statement of
  a migration fails), \<open>catalogue_consistent\<close> (every index has its row in \<open>pg_class\<close>, and a unique or primary
  key constraint backed by an index is on the index's table, a primary key's index being marked as such),
  \<open>shows_schema\<close> (column, RLS flags, policies and unique constraints of a table are in the catalogue as an
  abstract schema has them), \<open>creates_no_index\<close> (a bare unique index of the later catalogue was in the
  earlier one: no statement of an operation creates an index), \<open>answers_by_key\<close> (a look-up
  by key returns the tenant of that key), \<open>shows_rls\<close> (RLS flags and policies of a table are as an abstract
  schema has them) and \<open>rls_rows\<close> (which rows a statement matches under the policies).

  What the lemmas show. Context, Middleware and Celery: the active tenant is restored on every path; the
  block, view or task runs with the tenant active and the session variable set; the variable is
  restored; the admin bypass runs its block only with a confirmed flag and only the outermost call
  clears it. Models: reads return the active tenant's rows and no others, writes stamp or refuse,
  foreign keys do not cross tenants, uniqueness is per tenant, and every class declared over the
  package's bases has one scope on which all its readers agree. Routing: the router agrees with the
  context layer. Resolvers: the cache is bounded, evicts the oldest entry, and does not change an
  answer; under any interleaving of threads it serves a request only what was once read for it, and for
  no longer than the TTL after it was stored. Worker: between two jobs nothing of a tenant is left,
  whatever the jobs did. Migrations: an adopted table ends isolated (tenant column with its default,
  every unique form leading with it, RLS enabled and forced, both policies), a refusal sends nothing,
  and the reversal takes back what the forward run did. Checks: silence means protection, and a table as
  the adoption leaves it is silent, because the operation rewrites or refuses every unique form, as is a
  table after \<open>EnableRLS\<close> and \<open>CreateTenantPolicy\<close>, which reverse exactly.
  Commands: each tenant's run is its own, a provisioned tenant lands where the router reads, and a
  removal exports before it deletes, deletes nothing unconfirmed and leaves no adopted row. Some
  theorems state where the code falls short of its documentation.

  Bounds. The warn-once set is cleared at 10000 pairs, as in the source. No definition uses fuel: loops
  run over lists. Time is the real number \<open>time.monotonic()\<close> returns.

  Not modelled: in the commands, argument parsing, the wording of output beyond what a line names, and
  the batch size, which only chunks a read; the worker processes of \<open>boundary_run_all --parallel\<close> are given
  by the state each starts in, and a pool that waits for a worker that is gone is a run with no result
  (\<open>None\<close>); of the example project, \<open>manage.py\<close>, \<open>urls.py\<close> and the \<open>AppConfig\<close>s, which
  name modules only. Not modelled by intent: spending a \<open>ContextVar\<close> token twice, \<open>*args\<close> and \<open>**kwargs\<close>
  parameters of a \<open>tenant_scoped\<close> function, application code that calls \<open>TenantContext.set\<close> and \<open>clear\<close> by
  hand (a worker may then be left with whatever it set), interleaving inside an operation of the cache
  (each runs under its lock), and decoding of a token's payload or of \<open>--extra-fields\<close> (arguments). Django
  (its model metaclass, which gives a class its own \<open>_meta\<close> only after Python has created the class,
  included), psycopg, Celery, pytest and the application's own hooks and commands are arguments throughout.
\<close>

end
